theory Spec2Isabelle
  imports Main
begin

section \<open>Values and platform objects\<close>

text \<open>
  The tracker is a browser program. Everything it persists goes through
  \<^verbatim>\<open>JSON.stringify\<close> and \<^verbatim>\<open>JSON.parse\<close>, so the values it stores are JSON values.
  Numbers are restricted to integers (the program only stores quantities), and the
  field list of an object is kept in the engine's enumeration order.
\<close>

datatype json =
    JNull
  | JBool bool
  | JNum int
  | JStr string
  | JArr "json list"
  | JObj "(string \<times> json) list"

text \<open>
  A string is a sequence of code units. The strings of the model are those whose code
  units are below 256, one \<open>char\<close> per code unit.
\<close>

text \<open>
  Exceptions the modelled code can meet. \<open>Outside_model\<close> is not one of them: it marks
  the few inputs on which the program goes on with values the model has no type for
  (a selector rewritten by a name pasted into it, a class that is not a string). The
  model says so there instead of giving an answer of its own.
\<close>

datatype exn = SecurityError | QuotaExceededError | SyntaxError | TypeError | ReferenceError
  | Outside_model

text \<open>
  A string held by \<^verbatim>\<open>localStorage\<close> is observed by the program in two ways only: its
  truthiness and what \<^verbatim>\<open>JSON.parse\<close> makes of it. A stored string is therefore
  represented by that: \<open>Doc v\<close> is a text that parses to \<open>v\<close> (what
  \<^verbatim>\<open>JSON.stringify(v)\<close> produces), \<open>Garbage s\<close> is a text \<open>s\<close> on which
  \<^verbatim>\<open>JSON.parse\<close> throws a SyntaxError; the empty string is \<open>Garbage ''''\<close>.
\<close>

datatype payload = Doc json | Garbage string

definition JSON_stringify :: "json \<Rightarrow> payload" where
  "JSON_stringify v = Doc v"

fun JSON_parse :: "payload \<Rightarrow> exn + json" where
  "JSON_parse (Doc v) = Inr v"
| "JSON_parse (Garbage s) = Inl SyntaxError"

fun truthy :: "payload \<Rightarrow> bool" where
  "truthy (Garbage s) = (s \<noteq> [])"
| "truthy (Doc v) = True"

text \<open>
  The browser's \<^verbatim>\<open>localStorage\<close>: the stored items, whether access is denied altogether
  (every call throws), and which writes the quota admits.
\<close>

record local_storage =
  items :: "string \<Rightarrow> payload option"
  denied :: bool
  quota_ok :: "string \<Rightarrow> payload \<Rightarrow> bool"

definition localStorage_getItem :: "local_storage \<Rightarrow> string \<Rightarrow> exn + payload option" where
  "localStorage_getItem L key = (if denied L then Inl SecurityError else Inr (items L key))"

definition localStorage_setItem :: "local_storage \<Rightarrow> string \<Rightarrow> payload \<Rightarrow> exn + local_storage" where
  "localStorage_setItem L key p =
     (if denied L then Inl SecurityError
      else if \<not> quota_ok L key p then Inl QuotaExceededError
      else Inr (L\<lparr>items := (items L)(key \<mapsto> p)\<rparr>))"

definition localStorage_removeItem :: "local_storage \<Rightarrow> string \<Rightarrow> exn + local_storage" where
  "localStorage_removeItem L key =
     (if denied L then Inl SecurityError
      else Inr (L\<lparr>items := (items L)(key := None)\<rparr>))"

text \<open>
  A \<^verbatim>\<open>Date\<close> object, by the results of the accessors the program calls on it.
\<close>

record jsdate =
  getFullYear :: nat
  getMonth :: nat
  getDate :: nat
  toDateString :: string
  toISOString :: string
  toLocaleTimeString :: string
  toLocaleString :: string

subsection \<open>Decimal text and template strings\<close>

definition digit_char :: "nat \<Rightarrow> char" where
  "digit_char d = ''0123456789'' ! d"

fun show_nat :: "nat \<Rightarrow> string" where
  "show_nat n = (if n < 10 then [digit_char n] else show_nat (n div 10) @ [digit_char (n mod 10)])"

declare show_nat.simps [simp del]

definition show_int :: "int \<Rightarrow> string" where
  "show_int i = (if i < 0 then CHR ''-'' # show_nat (nat (- i)) else show_nat (nat i))"

definition padStart2 :: "string \<Rightarrow> string" where
  "padStart2 s = (if length s < 2 then replicate (2 - length s) CHR ''0'' @ s else s)"

fun join :: "string \<Rightarrow> string list \<Rightarrow> string" where
  "join sep [] = []"
| "join sep [x] = x"
| "join sep (x # y # ys) = x @ sep @ join sep (y # ys)"

text \<open>What a template string makes of a JSON value (\<^verbatim>\<open>`${key}`\<close>).\<close>

fun js_toString :: "json \<Rightarrow> string" where
  "js_toString JNull = ''null''"
| "js_toString (JBool b) = (if b then ''true'' else ''false'')"
| "js_toString (JNum n) = show_int n"
| "js_toString (JStr s) = s"
| "js_toString (JArr xs) = join '','' (map (\<lambda>x. if x = JNull then [] else js_toString x) xs)"
| "js_toString (JObj fs) = ''[object Object]''"

section \<open>storage.js\<close>

text \<open>
  The \<^verbatim>\<open>Storage\<close> object: the availability flag cached by the constructor and the
  browser store it talks to.
\<close>

record storage =
  isAvailable :: bool
  browser :: local_storage

definition STORAGE_TEST :: string where
  "STORAGE_TEST = ''__storage_test__''"

definition checkAvailability :: "local_storage \<Rightarrow> bool \<times> local_storage" where
  "checkAvailability L =
     (case localStorage_setItem L STORAGE_TEST (Garbage STORAGE_TEST) of
        Inl e \<Rightarrow> (False, L)
      | Inr L1 \<Rightarrow>
          (case localStorage_removeItem L1 STORAGE_TEST of
             Inl e \<Rightarrow> (False, L1)
           | Inr L2 \<Rightarrow> (True, L2)))"

definition new_Storage :: "local_storage \<Rightarrow> storage" where
  "new_Storage L = (case checkAvailability L of (a, L') \<Rightarrow> \<lparr>isAvailable = a, browser = L'\<rparr>)"

text \<open>
  \<^verbatim>\<open>getItem(key, defaultValue)\<close>: the guard on the cached flag, then the \<^verbatim>\<open>try\<close> block;
  each \<open>Inl\<close> branch is the \<^verbatim>\<open>catch\<close>.
\<close>

definition getItem :: "storage \<Rightarrow> string \<Rightarrow> json \<Rightarrow> exn + json" where
  "getItem S key defaultValue =
     (if \<not> isAvailable S then Inr defaultValue
      else
        (case localStorage_getItem (browser S) key of
           Inl error \<Rightarrow> Inr defaultValue
         | Inr item \<Rightarrow>
             (case item of
                None \<Rightarrow> Inr defaultValue
              | Some text \<Rightarrow>
                  (if truthy text
                   then (case JSON_parse text of
                           Inl error \<Rightarrow> Inr defaultValue
                         | Inr v \<Rightarrow> Inr v)
                   else Inr defaultValue))))"

definition setItem :: "storage \<Rightarrow> string \<Rightarrow> json \<Rightarrow> bool \<times> storage" where
  "setItem S key v =
     (if \<not> isAvailable S then (False, S)
      else
        (case localStorage_setItem (browser S) key (JSON_stringify v) of
           Inl error \<Rightarrow> (False, S)
         | Inr L \<Rightarrow> (True, S\<lparr>browser := L\<rparr>)))"

definition removeItem :: "storage \<Rightarrow> string \<Rightarrow> bool \<times> storage" where
  "removeItem S key =
     (if \<not> isAvailable S then (False, S)
      else
        (case localStorage_removeItem (browser S) key of
           Inl error \<Rightarrow> (False, S)
         | Inr L \<Rightarrow> (True, S\<lparr>browser := L\<rparr>)))"

subsection \<open>Today's quick-save slot\<close>

definition KEY_SCHEDULE :: string where
  "KEY_SCHEDULE = ''toolCheckoutSchedule''"
definition KEY_DATE :: string where
  "KEY_DATE = ''toolCheckoutDate''"
definition KEY_UPDATE_TIME :: string where
  "KEY_UPDATE_TIME = ''toolLastUpdateTime''"

definition KEY_HISTORY_INDEX :: string where
  "KEY_HISTORY_INDEX = ''toolHistoryIndex''"

definition history_key :: "string \<Rightarrow> string" where
  "history_key key = ''toolHistory_'' @ key"

definition getCurrentDateString :: "jsdate \<Rightarrow> string" where
  "getCurrentDateString now = toDateString now"

definition isToday :: "jsdate \<Rightarrow> storage \<Rightarrow> exn + bool" where
  "isToday now S =
     (case getItem S KEY_DATE JNull of
        Inl e \<Rightarrow> Inl e
      | Inr savedDate \<Rightarrow> Inr (savedDate = JStr (getCurrentDateString now)))"

definition saveSchedule :: "jsdate \<Rightarrow> storage \<Rightarrow> json \<Rightarrow> bool \<times> storage" where
  "saveSchedule now S scheduleData =
     (case setItem S KEY_SCHEDULE scheduleData of
        (success, S1) \<Rightarrow>
          (if success
           then (success, snd (setItem S1 KEY_DATE (JStr (getCurrentDateString now))))
           else (success, S1)))"

definition loadSchedule :: "jsdate \<Rightarrow> storage \<Rightarrow> exn + json" where
  "loadSchedule now S =
     (case isToday now S of
        Inl e \<Rightarrow> Inl e
      | Inr today \<Rightarrow> (if \<not> today then Inr JNull else getItem S KEY_SCHEDULE JNull))"

definition saveUpdateTime :: "storage \<Rightarrow> string \<Rightarrow> bool \<times> storage" where
  "saveUpdateTime S timeString = setItem S KEY_UPDATE_TIME (JStr timeString)"

definition loadUpdateTime :: "storage \<Rightarrow> exn + json" where
  "loadUpdateTime S = getItem S KEY_UPDATE_TIME JNull"

subsection \<open>The dated history log\<close>

definition getDateKey :: "jsdate \<Rightarrow> jsdate option \<Rightarrow> string" where
  "getDateKey now date =
     (let d = (case date of None \<Rightarrow> now | Some x \<Rightarrow> x);
          year = getFullYear d;
          month = padStart2 (show_nat (getMonth d + 1));
          day = padStart2 (show_nat (getDate d))
      in show_nat year @ ''-'' @ month @ ''-'' @ day)"

text \<open>Object spread \<^verbatim>\<open>{...v}\<close> and the property write of an object literal.\<close>

fun spread :: "json \<Rightarrow> (string \<times> json) list" where
  "spread (JObj fs) = fs"
| "spread (JArr xs) = zip (map show_nat [0..<length xs]) xs"
| "spread (JStr s) = zip (map show_nat [0..<length s]) (map (\<lambda>c. JStr [c]) s)"
| "spread v = []"

fun set_prop :: "string \<Rightarrow> json \<Rightarrow> (string \<times> json) list \<Rightarrow> (string \<times> json) list" where
  "set_prop k v [] = [(k, v)]"
| "set_prop k v (p # ps) = (if fst p = k then (k, v) # ps else p # set_prop k v ps)"

definition history_entry :: "jsdate \<Rightarrow> json \<Rightarrow> string \<Rightarrow> json" where
  "history_entry now scheduleData key =
     JObj (set_prop ''dateKey'' (JStr key)
            (set_prop ''savedAt'' (JStr (toISOString now)) (spread scheduleData)))"

text \<open>\<^verbatim>\<open>String.prototype.includes\<close>.\<close>

fun str_includes :: "string \<Rightarrow> string \<Rightarrow> bool" where
  "str_includes [] t = (t = [])"
| "str_includes (c # s) t = (take (length t) (c # s) = t \<or> str_includes s t)"

text \<open>
  \<^verbatim>\<open>updateHistoryIndex(dateKey)\<close>. The index read back from the store can be any JSON
  value: on an array the method calls are the array's, on a string
  \<^verbatim>\<open>includes\<close> is the substring test and \<^verbatim>\<open>unshift\<close> is missing, and on
  anything else \<^verbatim>\<open>includes\<close> is missing; a missing method is a TypeError.
\<close>

definition updateHistoryIndex :: "storage \<Rightarrow> string \<Rightarrow> (exn + unit) \<times> storage" where
  "updateHistoryIndex S dateKey =
     (case getItem S KEY_HISTORY_INDEX (JArr []) of
        Inl e \<Rightarrow> (Inl e, S)
      | Inr index \<Rightarrow>
          (case index of
             JArr xs \<Rightarrow>
               (if JStr dateKey \<in> set xs then (Inr (), S)
                else
                  (let ys = JStr dateKey # xs in
                   if length ys > 90
                   then
                     (let removed = drop 90 ys;
                          kept = take 90 ys;
                          S1 = fold (\<lambda>key S'. snd (removeItem S' (history_key (js_toString key)))) removed S
                      in (Inr (), snd (setItem S1 KEY_HISTORY_INDEX (JArr kept))))
                   else (Inr (), snd (setItem S KEY_HISTORY_INDEX (JArr ys)))))
           | JStr s \<Rightarrow> (if str_includes s dateKey then (Inr (), S) else (Inl TypeError, S))
           | _ \<Rightarrow> (Inl TypeError, S)))"

definition saveToHistory :: "jsdate \<Rightarrow> storage \<Rightarrow> json \<Rightarrow> string option \<Rightarrow> (exn + bool) \<times> storage" where
  "saveToHistory now S scheduleData dateKey =
     (let key = (case dateKey of
                   None \<Rightarrow> getDateKey now None
                 | Some k \<Rightarrow> (if k = [] then getDateKey now None else k));
          historyKey = history_key key;
          historyEntry = history_entry now scheduleData key
      in case setItem S historyKey historyEntry of
           (success, S1) \<Rightarrow>
             (if success
              then (case updateHistoryIndex S1 key of
                      (Inl e, S2) \<Rightarrow> (Inl e, S2)
                    | (Inr u, S2) \<Rightarrow> (Inr success, S2))
              else (Inr success, S1)))"

definition getHistoryDates :: "storage \<Rightarrow> exn + json" where
  "getHistoryDates S = getItem S KEY_HISTORY_INDEX (JArr [])"

definition loadFromHistory :: "storage \<Rightarrow> string \<Rightarrow> exn + json" where
  "loadFromHistory S dateKey = getItem S (history_key dateKey) JNull"

subsection \<open>Observations and runs used in the statements\<close>

text \<open>
  A store \<open>works\<close> when the cached flag is set and the browser does not deny access;
  \<open>stored\<close> is the raw item under a key; \<open>admits\<close> says that the quota accepts
  writing a value under a key.
\<close>

definition works :: "storage \<Rightarrow> bool" where
  "works S = (isAvailable S \<and> \<not> denied (browser S))"

definition stored :: "storage \<Rightarrow> string \<Rightarrow> payload option" where
  "stored S key = items (browser S) key"

definition admits :: "storage \<Rightarrow> string \<Rightarrow> json \<Rightarrow> bool" where
  "admits S key v = quota_ok (browser S) key (Doc v)"

text \<open>The clean-up loop of \<^verbatim>\<open>updateHistoryIndex\<close>, named.\<close>

definition purge :: "json list \<Rightarrow> storage \<Rightarrow> storage" where
  "purge removed S = fold (\<lambda>key S'. snd (removeItem S' (history_key (js_toString key)))) removed S"

text \<open>The key \<^verbatim>\<open>saveToHistory\<close> files an entry under (\<^verbatim>\<open>dateKey || this.getDateKey()\<close>).\<close>

definition used_key :: "jsdate \<Rightarrow> string option \<Rightarrow> string" where
  "used_key now dateKey =
     (case dateKey of None \<Rightarrow> getDateKey now None
      | Some k \<Rightarrow> (if k = [] then getDateKey now None else k))"

text \<open>A run of \<^verbatim>\<open>saveToHistory\<close> calls, each with its clock, snapshot and optional key.\<close>

fun saveAll :: "storage \<Rightarrow> (jsdate \<times> json \<times> string option) list \<Rightarrow> storage" where
  "saveAll S [] = S"
| "saveAll S ((now, scheduleData, dateKey) # calls) =
     saveAll (snd (saveToHistory now S scheduleData dateKey)) calls"

fun call_key :: "jsdate \<times> json \<times> string option \<Rightarrow> string" where
  "call_key (now, scheduleData, dateKey) = used_key now dateKey"

text \<open>Property read \<^verbatim>\<open>v[k]\<close> on a JSON value.\<close>

fun get_prop :: "json \<Rightarrow> string \<Rightarrow> json option" where
  "get_prop (JObj fs) k = map_of fs k"
| "get_prop v k = None"

subsection \<open>Sample data\<close>

definition example_day :: jsdate where
  "example_day = \<lparr>getFullYear = 2026, getMonth = 10, getDate = 2,
      toDateString = ''Mon Nov 02 2026'', toISOString = ''2026-11-02T08:00:00.000Z'',
      toLocaleTimeString = ''08:00 AM'', toLocaleString = ''Nov 2, 2026, 08:00:00 AM''\<rparr>"

definition example_next_day :: jsdate where
  "example_next_day = \<lparr>getFullYear = 2026, getMonth = 10, getDate = 3,
      toDateString = ''Tue Nov 03 2026'', toISOString = ''2026-11-03T08:00:00.000Z'',
      toLocaleTimeString = ''08:00 AM'', toLocaleString = ''Nov 3, 2026, 08:00:00 AM''\<rparr>"

definition example_keys :: "string list" where
  "example_keys = map (\<lambda>n. ''day-'' @ show_nat n) [0..<90]"

definition example_full_store :: storage where
  "example_full_store = \<lparr>isAvailable = True,
     browser = \<lparr>items = [KEY_HISTORY_INDEX \<mapsto> Doc (JArr (map JStr example_keys)),
                           history_key (last example_keys) \<mapsto> Doc (JObj [])],
                 denied = False, quota_ok = (\<lambda>k p. True)\<rparr>\<rparr>"

definition example_store :: storage where
  "example_store = \<lparr>isAvailable = True,
     browser = \<lparr>items = [''toolLastUpdateTime'' \<mapsto> Doc (JStr ''Nov 2, 2026''),
                           ''toolInventory'' \<mapsto> Garbage ''{hammers: ['',
                           ''blank'' \<mapsto> Garbage []],
                 denied = False, quota_ok = (\<lambda>k p. True)\<rparr>\<rparr>"

definition example_snapshot :: json where
  "example_snapshot = JObj [(''date'', JStr ''2026-11-02T08:00:00.000Z''),
     (''inventory'', JObj [(''hammers'', JArr [JObj [(''name'', JStr ''Claw Hammer''), (''qty'', JNum 8), (''class'', JStr ''hammer'')]])]),
     (''checkouts'', JArr [JObj [(''crew'', JStr ''2''), (''tools'', JArr [JObj [(''tool'', JStr ''Claw Hammer''), (''number'', JStr ''3''), (''time'', JStr ''08:00 AM'')]])]]),
     (''broken'', JArr [])]"

definition example_empty_store :: storage where
  "example_empty_store = \<lparr>isAvailable = True,
     browser = \<lparr>items = Map.empty, denied = False, quota_ok = (\<lambda>k p. True)\<rparr>\<rparr>"

section \<open>config.js\<close>

text \<open>
  A Tool Definition, \<^verbatim>\<open>{ name, qty, class }\<close> with a string, an integer and a string, and
  the inventory, an object from category to an array of Tool Definitions, kept as the
  list of its own properties in enumeration order.
\<close>

record tool =
  tool_name :: string
  tool_qty :: int
  tool_class :: string

type_synonym inventory = "(string \<times> tool list) list"

definition mk_tool :: "string \<Rightarrow> int \<Rightarrow> string \<Rightarrow> tool" where
  "mk_tool n q c = \<lparr>tool_name = n, tool_qty = q, tool_class = c\<rparr>"

definition CREW_COUNT :: nat where
  "CREW_COUNT = 8"

definition CATEGORY_CLASSES :: "(string \<times> string) list" where
  "CATEGORY_CLASSES =
     [(''hammers'', ''hammer''), (''drivers'', ''screwdriver''), (''measuring'', ''measuring''),
      (''cutting'', ''cutting''), (''pliers'', ''pliers''), (''batteries'', ''battery''),
      (''power'', ''power-tool''), (''safety'', ''safety''), (''misc'', ''misc'')]"

definition POOL_IDS :: "(string \<times> string) list" where
  "POOL_IDS =
     [(''hammers'', ''hammersPool''), (''drivers'', ''driversPool''), (''measuring'', ''measuringPool''),
      (''cutting'', ''cuttingPool''), (''pliers'', ''pliersPool''), (''batteries'', ''batteriesPool''),
      (''power'', ''powerPool''), (''safety'', ''safetyPool''), (''misc'', ''miscPool''),
      (''broken'', ''brokenPool'')]"

definition MIN_TOOL_NAME_LENGTH :: nat where
  "MIN_TOOL_NAME_LENGTH = 1"

definition MAX_TOOL_NAME_LENGTH :: nat where
  "MAX_TOOL_NAME_LENGTH = 100"

definition MIN_QUANTITY :: int where
  "MIN_QUANTITY = 1"

definition MAX_QUANTITY :: int where
  "MAX_QUANTITY = 999"

definition DEFAULT_TOOL_INVENTORY :: inventory where
  "DEFAULT_TOOL_INVENTORY =
     [(''hammers'',
        [mk_tool ''Claw Hammer'' 8 ''hammer'', mk_tool ''Mini Sledge'' 4 ''hammer'',
         mk_tool ''Dead Blow'' 3 ''hammer'', mk_tool ''Framing Hammer'' 6 ''hammer'']),
      (''drivers'',
        [mk_tool ''Phillips Screwdriver'' 10 ''screwdriver'', mk_tool ''Flathead Screwdriver'' 10 ''screwdriver'',
         mk_tool ''Impact Bit Set'' 6 ''screwdriver'', mk_tool ''Multi-bit Driver'' 6 ''screwdriver'']),
      (''measuring'',
        [mk_tool ''Level 2ft'' 6 ''measuring'', mk_tool ''Level 4ft'' 4 ''measuring'',
         mk_tool ''Framing Square'' 5 ''measuring'', mk_tool ''Chalk Line'' 8 ''measuring'',
         mk_tool ''String Line'' 10 ''measuring'', mk_tool ''Tape Measure'' 15 ''measuring'']),
      (''cutting'',
        [mk_tool ''Machete'' 4 ''cutting'', mk_tool ''Utility Knife'' 12 ''cutting'',
         mk_tool ''Hacksaw'' 4 ''cutting'', mk_tool ''Tin Snips'' 6 ''cutting'']),
      (''pliers'',
        [mk_tool ''Pliers'' 10 ''pliers'', mk_tool ''Needle Nose Pliers'' 8 ''pliers'',
         mk_tool ''Wire Strippers'' 6 ''pliers'', mk_tool ''Wrench Set'' 5 ''fastening'',
         mk_tool ''Adjustable Wrench'' 6 ''fastening'']),
      (''batteries'',
        [mk_tool ''DeWalt 20V Battery'' 12 ''battery'', mk_tool ''Milwaukee M18 Battery'' 8 ''battery'',
         mk_tool ''Battery Charger'' 4 ''battery'']),
      (''power'',
        [mk_tool ''Paint Gun'' 2 ''power-tool'', mk_tool ''Impact Driver'' 6 ''power-tool'',
         mk_tool ''Drill'' 8 ''power-tool'', mk_tool ''Circular Saw'' 4 ''power-tool'']),
      (''safety'',
        [mk_tool ''Safety Glasses'' 20 ''safety'', mk_tool ''Work Gloves'' 30 ''safety'',
         mk_tool ''Ear Protection'' 15 ''safety'']),
      (''misc'',
        [mk_tool ''Tool Belt'' 10 ''misc'', mk_tool ''Extension Cord'' 6 ''misc'',
         mk_tool ''Work Light'' 5 ''misc''])]"

section \<open>state.js\<close>

text \<open>
  The state object of \<^verbatim>\<open>AppState\<close>. The expanded stacks are a \<^verbatim>\<open>Set\<close> of tool names,
  kept as its members in insertion order; the dragged element is a reference to a tool
  element of the page (its index in the page's element store) or \<^verbatim>\<open>null\<close>.
\<close>

record state_data =
  toolInventory :: inventory
  expandedStacks :: "string list"
  draggedElement :: "nat option"
  lastUpdateTime :: "string option"

text \<open>
  A listener is a function object: its identity and what a call on a state copy does,
  return (\<open>None\<close>) or throw an error with a message. Listeners are observers: they do
  not call back into the state object. What a notification round does is recorded in a
  log: each call made, and each error written to the console.
\<close>

record listener =
  listener_id :: nat
  listener_run :: "state_data \<Rightarrow> string option"

datatype event = Invoked nat state_data | ConsoleError string string

record appState =
  state :: state_data
  listeners :: "listener list"
  log :: "event list"

text \<open>
  On this level a value is its own copy: \<^verbatim>\<open>deepClone\<close> and \<^verbatim>\<open>new Set(...)\<close> of a set
  return the value. Sharing between the copies and the state is the subject of the
  reference-level model further down.
\<close>

definition deepClone :: "inventory \<Rightarrow> inventory" where
  "deepClone obj = obj"

fun new_Set :: "string list \<Rightarrow> string list" where
  "new_Set [] = []"
| "new_Set (x # xs) = x # filter (\<lambda>y. y \<noteq> x) (new_Set xs)"

definition initial_state :: state_data where
  "initial_state = \<lparr>toolInventory = deepClone DEFAULT_TOOL_INVENTORY, expandedStacks = new_Set [],
     draggedElement = None, lastUpdateTime = None\<rparr>"

definition new_AppState :: appState where
  "new_AppState = \<lparr>state = initial_state, listeners = [], log = []\<rparr>"

definition getState :: "appState \<Rightarrow> state_data" where
  "getState A = (state A)\<lparr>toolInventory := deepClone (toolInventory (state A)),
                           expandedStacks := new_Set (expandedStacks (state A))\<rparr>"

text \<open>
  \<^verbatim>\<open>notifyListeners\<close>: the \<^verbatim>\<open>forEach\<close> over the listener set, in insertion order, with
  the \<^verbatim>\<open>try\<close>/\<^verbatim>\<open>catch\<close> around each call.
\<close>

definition notify_one :: "appState \<Rightarrow> listener \<Rightarrow> event list" where
  "notify_one A l =
     (case listener_run l (getState A) of
        None \<Rightarrow> [Invoked (listener_id l) (getState A)]
      | Some error \<Rightarrow>
          [Invoked (listener_id l) (getState A), ConsoleError ''Error in state listener:'' error])"

definition notifyListeners :: "appState \<Rightarrow> appState" where
  "notifyListeners A = A\<lparr>log := log A @ concat (map (notify_one A) (listeners A))\<rparr>"

text \<open>The argument of \<^verbatim>\<open>setState\<close>: an object holding some of the state's fields.\<close>

record updates =
  upd_toolInventory :: "inventory option"
  upd_expandedStacks :: "string list option"
  upd_draggedElement :: "nat option option"
  upd_lastUpdateTime :: "string option option"

definition no_updates :: updates where
  "no_updates = \<lparr>upd_toolInventory = None, upd_expandedStacks = None,
     upd_draggedElement = None, upd_lastUpdateTime = None\<rparr>"

definition merge_updates :: "state_data \<Rightarrow> updates \<Rightarrow> state_data" where
  "merge_updates s u =
     \<lparr>toolInventory = (case upd_toolInventory u of None \<Rightarrow> toolInventory s | Some v \<Rightarrow> v),
      expandedStacks = (case upd_expandedStacks u of None \<Rightarrow> expandedStacks s | Some v \<Rightarrow> v),
      draggedElement = (case upd_draggedElement u of None \<Rightarrow> draggedElement s | Some v \<Rightarrow> v),
      lastUpdateTime = (case upd_lastUpdateTime u of None \<Rightarrow> lastUpdateTime s | Some v \<Rightarrow> v)\<rparr>"

definition setState :: "appState \<Rightarrow> updates \<Rightarrow> appState" where
  "setState A u = notifyListeners (A\<lparr>state := merge_updates (state A) u\<rparr>)"

definition getInventory :: "appState \<Rightarrow> inventory" where
  "getInventory A = deepClone (toolInventory (state A))"

definition setInventory :: "appState \<Rightarrow> inventory \<Rightarrow> appState" where
  "setInventory A inventory = setState A (no_updates\<lparr>upd_toolInventory := Some (deepClone inventory)\<rparr>)"

text \<open>
  Property access on an object. \<^verbatim>\<open>obj[key]\<close> gives the object's own property when it has
  one of that name; otherwise a name of \<^verbatim>\<open>Object.prototype\<close> gives the inherited member
  (a function, or the prototype itself for \<^verbatim>\<open>__proto__\<close>: truthy, and without a
  \<^verbatim>\<open>push\<close>), and any other name gives \<^verbatim>\<open>undefined\<close>.
\<close>

definition OBJECT_PROTOTYPE :: "string list" where
  "OBJECT_PROTOTYPE =
     [''constructor'', ''__defineGetter__'', ''__defineSetter__'', ''hasOwnProperty'',
      ''__lookupGetter__'', ''__lookupSetter__'', ''isPrototypeOf'', ''propertyIsEnumerable'',
      ''toString'', ''valueOf'', ''__proto__'', ''toLocaleString'']"

datatype 'a property = Own 'a | Inherited | Absent

definition get_property :: "(string \<times> 'a) list \<Rightarrow> string \<Rightarrow> 'a property" where
  "get_property obj key =
     (case map_of obj key of
        Some v \<Rightarrow> Own v
      | None \<Rightarrow> (if key \<in> set OBJECT_PROTOTYPE then Inherited else Absent))"

text \<open>
  The enumeration order of an object's own properties: the array indices (the decimal
  text of an integer below \<open>2\<^sup>3\<^sup>2 - 1\<close>, without leading zeros) in ascending order, then
  the other names in the order of their creation. \<open>define_property\<close> creates a property
  the object does not have yet.
\<close>

definition is_digit :: "char \<Rightarrow> bool" where
  "is_digit c = (48 \<le> (of_char c :: int) \<and> (of_char c :: int) \<le> 57)"

definition decimal_value :: "string \<Rightarrow> int" where
  "decimal_value s = foldl (\<lambda>n c. 10 * n + (of_char c - 48)) 0 s"

definition array_index :: "string \<Rightarrow> int option" where
  "array_index key =
     (if key \<noteq> [] \<and> list_all is_digit key \<and> (hd key \<noteq> CHR ''0'' \<or> key = ''0'')
         \<and> decimal_value key < 4294967295
      then Some (decimal_value key) else None)"

fun define_property :: "string \<Rightarrow> 'a \<Rightarrow> (string \<times> 'a) list \<Rightarrow> (string \<times> 'a) list" where
  "define_property key v [] = [(key, v)]"
| "define_property key v (p # ps) =
     (case array_index key of
        None \<Rightarrow> p # define_property key v ps
      | Some i \<Rightarrow>
          (case array_index (fst p) of
             None \<Rightarrow> (key, v) # p # ps
           | Some j \<Rightarrow> (if j < i then p # define_property key v ps else (key, v) # p # ps)))"

text \<open>\<^verbatim>\<open>inventory[category].push(tool)\<close> on an own property.\<close>

fun push_tool :: "string \<Rightarrow> tool \<Rightarrow> inventory \<Rightarrow> inventory" where
  "push_tool category t [] = []"
| "push_tool category t ((c, ts) # rest) =
     (if c = category then (c, ts @ [t]) # rest else (c, ts) # push_tool category t rest)"

text \<open>
  \<^verbatim>\<open>addTool(category, tool)\<close> of the state object. For a category that is only
  inherited, \<^verbatim>\<open>!inventory[category]\<close> is false and \<^verbatim>\<open>inventory[category].push\<close> is
  not a function: the call throws a TypeError before the state is written.
\<close>

definition state_addTool :: "appState \<Rightarrow> string \<Rightarrow> tool \<Rightarrow> exn + appState" where
  "state_addTool A category t =
     (let inventory = deepClone (toolInventory (state A))
      in case get_property inventory category of
           Inherited \<Rightarrow> Inl TypeError
         | Own ts \<Rightarrow> Inr (setInventory A (push_tool category t inventory))
         | Absent \<Rightarrow>
             Inr (setInventory A (push_tool category t (define_property category [] inventory))))"

definition getExpandedStacks :: "appState \<Rightarrow> string list" where
  "getExpandedStacks A = new_Set (expandedStacks (state A))"

definition toggleStack :: "appState \<Rightarrow> string \<Rightarrow> appState" where
  "toggleStack A toolName =
     (let expanded = new_Set (expandedStacks (state A));
          expanded' = (if toolName \<in> set expanded then filter (\<lambda>x. x \<noteq> toolName) expanded
                       else expanded @ [toolName])
      in setState A (no_updates\<lparr>upd_expandedStacks := Some expanded'\<rparr>))"

definition expandAllStacks :: "appState \<Rightarrow> string list \<Rightarrow> appState" where
  "expandAllStacks A toolNames = setState A (no_updates\<lparr>upd_expandedStacks := Some (new_Set toolNames)\<rparr>)"

definition collapseAllStacks :: "appState \<Rightarrow> appState" where
  "collapseAllStacks A = setState A (no_updates\<lparr>upd_expandedStacks := Some (new_Set [])\<rparr>)"

definition setDraggedElement :: "appState \<Rightarrow> nat \<Rightarrow> appState" where
  "setDraggedElement A element = setState A (no_updates\<lparr>upd_draggedElement := Some (Some element)\<rparr>)"

definition getDraggedElement :: "appState \<Rightarrow> nat option" where
  "getDraggedElement A = draggedElement (state A)"

definition clearDraggedElement :: "appState \<Rightarrow> appState" where
  "clearDraggedElement A = setState A (no_updates\<lparr>upd_draggedElement := Some None\<rparr>)"

definition setLastUpdateTime :: "appState \<Rightarrow> string \<Rightarrow> appState" where
  "setLastUpdateTime A time = setState A (no_updates\<lparr>upd_lastUpdateTime := Some (Some time)\<rparr>)"

definition getLastUpdateTime :: "appState \<Rightarrow> string option" where
  "getLastUpdateTime A = lastUpdateTime (state A)"

definition subscribe :: "appState \<Rightarrow> listener \<Rightarrow> appState" where
  "subscribe A l =
     (if listener_id l \<in> set (map listener_id (listeners A)) then A
      else A\<lparr>listeners := listeners A @ [l]\<rparr>)"

definition unsubscribe :: "appState \<Rightarrow> listener \<Rightarrow> appState" where
  "unsubscribe A l = A\<lparr>listeners := filter (\<lambda>x. listener_id x \<noteq> listener_id l) (listeners A)\<rparr>"

definition reset :: "appState \<Rightarrow> appState" where
  "reset A = notifyListeners (A\<lparr>state := initial_state\<rparr>)"

text \<open>The state writes, as one type, and the calls a log records.\<close>

datatype state_write =
    SetState updates
  | SetInventory inventory
  | AddTool string tool
  | ToggleStack string
  | ExpandAllStacks "string list"
  | CollapseAllStacks
  | SetDraggedElement nat
  | ClearDraggedElement
  | SetLastUpdateTime string
  | Reset

fun call :: "appState \<Rightarrow> state_write \<Rightarrow> exn + appState" where
  "call A (SetState u) = Inr (setState A u)"
| "call A (SetInventory i) = Inr (setInventory A i)"
| "call A (AddTool category t) = state_addTool A category t"
| "call A (ToggleStack n) = Inr (toggleStack A n)"
| "call A (ExpandAllStacks ns) = Inr (expandAllStacks A ns)"
| "call A CollapseAllStacks = Inr (collapseAllStacks A)"
| "call A (SetDraggedElement e) = Inr (setDraggedElement A e)"
| "call A ClearDraggedElement = Inr (clearDraggedElement A)"
| "call A (SetLastUpdateTime t) = Inr (setLastUpdateTime A t)"
| "call A Reset = Inr (reset A)"

text \<open>The state object after a call: the one the call returns, or the one it was made on
  when the call throws.\<close>

definition perform :: "appState \<Rightarrow> state_write \<Rightarrow> appState" where
  "perform A w = (case call A w of Inr B \<Rightarrow> B | Inl e \<Rightarrow> A)"

text \<open>\<^verbatim>\<open>addTool\<close> with a category that the inventory only inherits is the one call
  that throws instead of writing.\<close>

fun throws :: "appState \<Rightarrow> state_write \<Rightarrow> bool" where
  "throws A (AddTool category t) = (get_property (toolInventory (state A)) category = Inherited)"
| "throws A w = False"

fun invoked :: "event list \<Rightarrow> (nat \<times> state_data) list" where
  "invoked [] = []"
| "invoked (Invoked i s # es) = (i, s) # invoked es"
| "invoked (ConsoleError m e # es) = invoked es"

fun console_errors :: "event list \<Rightarrow> string list" where
  "console_errors [] = []"
| "console_errors (Invoked i s # es) = console_errors es"
| "console_errors (ConsoleError m e # es) = e # console_errors es"

text \<open>The events a write adds to the log.\<close>

definition new_events :: "appState \<Rightarrow> state_write \<Rightarrow> event list" where
  "new_events A w = drop (length (log A)) (log (perform A w))"

text \<open>Three sample listeners; the second one throws.\<close>

definition example_listeners :: "listener list" where
  "example_listeners =
     [\<lparr>listener_id = 1, listener_run = (\<lambda>s. None)\<rparr>,
      \<lparr>listener_id = 2, listener_run = (\<lambda>s. Some ''render failed'')\<rparr>,
      \<lparr>listener_id = 3, listener_run = (\<lambda>s. None)\<rparr>]"

definition example_app :: appState where
  "example_app = fold (\<lambda>l A. subscribe A l) example_listeners new_AppState"

section \<open>The page\<close>

text \<open>
  The page is kept as far as the program reads and writes it. A tool element is one
  \<^verbatim>\<open>div.draggable\<close>: its class list, its data attributes, its inline display style and
  its ARIA attributes. Elements have identity: the page holds every tool element ever
  created in a store, and containers list the indices of their children in document
  order. The attributes that never change after creation (role, tabindex, the text) are
  left out.
\<close>

record tool_el =
  classes :: "string list"
  data_toolName :: string
  data_toolNumber :: string
  data_toolClass :: string
  data_checkoutTime :: "string option"
  data_crew :: "string option"
  style_display :: string
  aria_label :: string
  aria_grabbed :: "string option"

text \<open>
  A \<^verbatim>\<open>div.tool-stack\<close>: the Tool Definition its click handler closes over, its own
  attributes, the class list of its label, the text and label of its count badge, and
  its tool items.
\<close>

record stack_el =
  stack_tool :: tool
  stack_toolName :: string
  stack_classes :: "string list"
  stack_display :: string
  stack_aria_label :: string
  label_classes :: "string list"
  badge_text :: string
  badge_aria_label :: string
  stack_items :: "nat list"

text \<open>A \<^verbatim>\<open>div.checkout-item\<close> row of a crew's drop zone, by its data attributes.\<close>

record checkout_item =
  item_originalTool :: string
  item_toolNumber :: string
  item_checkoutTime :: string
  item_crew :: string

datatype node = ToolNode nat | StackNode nat

text \<open>
  The document: the element stores, the resource pools by id with their children, the
  crew drop zones by their \<^verbatim>\<open>data-crew\<close> value with their rows (both in document order),
  the messages sent to the live region, and the text of the update-time line. The page
  itself (\<^verbatim>\<open>index.html\<close>) is not among the sources: which pools exist, and in which
  order, is whatever the initial document says. The crews container and the live region
  are taken to exist, and a pool is taken to carry no \<^verbatim>\<open>data-crew\<close>. \<open>has_require\<close>
  says whether the environment defines \<^verbatim>\<open>require\<close> (a plain browser module does not).
\<close>

record document =
  elements :: "tool_el list"
  stacks :: "stack_el list"
  pools :: "(string \<times> node list) list"
  dropZones :: "(string \<times> checkout_item list) list"
  announced :: "string list"
  updateTimeText :: string
  has_require :: bool

text \<open>The drop target of a drag: a crew's drop zone, or a pool (its id, and whether it
  has the class \<^verbatim>\<open>resource-items\<close>).\<close>

datatype zone = CrewZone string | PoolZone string bool

subsection \<open>Class lists\<close>

text \<open>The tokens of a \<^verbatim>\<open>className\<close>: it is split on ASCII white space (tab, line
  feed, form feed, carriage return, space).\<close>

definition is_ascii_whitespace :: "char \<Rightarrow> bool" where
  "is_ascii_whitespace c = (c \<in> set [CHR 0x09, CHR 0x0A, CHR 0x0C, CHR 0x0D, CHR 0x20])"

definition tokens :: "string \<Rightarrow> string list" where
  "tokens s =
     filter (\<lambda>w. w \<noteq> [])
       (foldr (\<lambda>c acc. if is_ascii_whitespace c then [] # acc else (c # hd acc) # tl acc) s [[]])"

definition add_class :: "string \<Rightarrow> string list \<Rightarrow> string list" where
  "add_class c cs = (if c \<in> set cs then cs else cs @ [c])"

definition remove_class :: "string \<Rightarrow> string list \<Rightarrow> string list" where
  "remove_class c cs = filter (\<lambda>x. x \<noteq> c) cs"

definition class_list :: "string \<Rightarrow> string list" where
  "class_list className = fold add_class (tokens className) []"

subsection \<open>Element access\<close>

definition announceToScreenReader :: "string \<Rightarrow> document \<Rightarrow> document" where
  "announceToScreenReader message d = d\<lparr>announced := announced d @ [message]\<rparr>"

definition el :: "document \<Rightarrow> nat \<Rightarrow> tool_el" where
  "el d e = elements d ! e"

definition upd_el :: "nat \<Rightarrow> (tool_el \<Rightarrow> tool_el) \<Rightarrow> document \<Rightarrow> document" where
  "upd_el e f d = d\<lparr>elements := (elements d)[e := f (elements d ! e)]\<rparr>"

definition upd_stack :: "nat \<Rightarrow> (stack_el \<Rightarrow> stack_el) \<Rightarrow> document \<Rightarrow> document" where
  "upd_stack s f d = d\<lparr>stacks := (stacks d)[s := f (stacks d ! s)]\<rparr>"

definition getById_pool :: "document \<Rightarrow> string \<Rightarrow> node list option" where
  "getById_pool d poolId = map_of (pools d) poolId"

text \<open>\<^verbatim>\<open>parent.appendChild(child)\<close> on the first container with the given key.\<close>

fun append_first :: "'k \<Rightarrow> 'a \<Rightarrow> ('k \<times> 'a list) list \<Rightarrow> ('k \<times> 'a list) list" where
  "append_first k x [] = []"
| "append_first k x ((k', xs) # rest) =
     (if k' = k then (k', xs @ [x]) # rest else (k', xs) # append_first k x rest)"

fun clear_first :: "'k \<Rightarrow> ('k \<times> 'a list) list \<Rightarrow> ('k \<times> 'a list) list" where
  "clear_first k [] = []"
| "clear_first k ((k', xs) # rest) =
     (if k' = k then (k', []) # rest else (k', xs) # clear_first k rest)"

text \<open>Taking a tool element out of its parent, as \<^verbatim>\<open>appendChild\<close> does before it
  inserts the element elsewhere.\<close>

definition detach :: "nat \<Rightarrow> document \<Rightarrow> document" where
  "detach e d =
     d\<lparr>pools := map (\<lambda>(p, ns). (p, filter (\<lambda>n. n \<noteq> ToolNode e) ns)) (pools d),
       stacks := map (\<lambda>s. s\<lparr>stack_items := filter (\<lambda>x. x \<noteq> e) (stack_items s)\<rparr>) (stacks d)\<rparr>"

definition pool_appendChild :: "string \<Rightarrow> nat \<Rightarrow> document \<Rightarrow> document" where
  "pool_appendChild poolId e d =
     (let d1 = detach e d in d1\<lparr>pools := append_first poolId (ToolNode e) (pools d1)\<rparr>)"

text \<open>The tool elements of the document, in document order.\<close>

fun node_tools :: "document \<Rightarrow> node \<Rightarrow> nat list" where
  "node_tools d (ToolNode e) = [e]"
| "node_tools d (StackNode s) = stack_items (stacks d ! s)"

definition pool_tools :: "document \<Rightarrow> node list \<Rightarrow> nat list" where
  "pool_tools d ns = concat (map (node_tools d) ns)"

definition document_tools :: "document \<Rightarrow> nat list" where
  "document_tools d = concat (map (\<lambda>(p, ns). pool_tools d ns) (pools d))"

subsection \<open>Selectors built from names\<close>

text \<open>
  The program looks a tool element up with
  \<^verbatim>\<open>document.querySelector(`.draggable[data-tool-name="${toolName}"][data-tool-number="${toolNumber}"]`)\<close>
  and a crew's drop zone with \<^verbatim>\<open>`.drop-zone[data-crew="${crew}"]`\<close>. The name is pasted
  into the selector text between double quotes, and the browser reads the text by the
  rules of CSS: a backslash starts an escape, a line break inside the quotes spoils the
  string, and a double quote inside the name ends the attribute value early.
\<close>

definition tool_selector :: "string \<Rightarrow> string \<Rightarrow> string" where
  "tool_selector toolName toolNumber =
     ''.draggable[data-tool-name='' @ [CHR 0x22] @ toolName @ [CHR 0x22]
       @ ''][data-tool-number='' @ [CHR 0x22] @ toolNumber @ [CHR 0x22] @ '']''"

definition zone_selector :: "string \<Rightarrow> string" where
  "zone_selector crew = ''.drop-zone[data-crew='' @ [CHR 0x22] @ crew @ [CHR 0x22] @ '']''"

text \<open>
  Preprocessing of the input: carriage return, form feed and the pair carriage return,
  line feed become one line feed, and the null character becomes U+FFFD. From here on
  the text is a list of code points.
\<close>

definition css_code_point :: "char \<Rightarrow> int" where
  "css_code_point c =
     (if c = CHR 0x0D \<or> c = CHR 0x0C then 0x0A else if c = CHR 0x00 then 0xFFFD else of_char c)"

fun css_preprocess :: "string \<Rightarrow> int list" where
  "css_preprocess [] = []"
| "css_preprocess [c] = [css_code_point c]"
| "css_preprocess (c # c' # cs) =
     (if c = CHR 0x0D \<and> c' = CHR 0x0A then 0x0A # css_preprocess cs
      else css_code_point c # css_preprocess (c' # cs))"

definition hex_digit :: "int \<Rightarrow> bool" where
  "hex_digit c = ((0x30 \<le> c \<and> c \<le> 0x39) \<or> (0x41 \<le> c \<and> c \<le> 0x46) \<or> (0x61 \<le> c \<and> c \<le> 0x66))"

definition hex_value :: "int \<Rightarrow> int" where
  "hex_value c = (if c \<le> 0x39 then c - 0x30 else if c \<le> 0x46 then c - 0x37 else c - 0x57)"

definition css_whitespace :: "int \<Rightarrow> bool" where
  "css_whitespace c = (c = 0x0A \<or> c = 0x09 \<or> c = 0x20)"

text \<open>The code point an escape with hexadecimal digits stands for.\<close>

definition escaped_code_point :: "int \<Rightarrow> int" where
  "escaped_code_point n =
     (if n = 0 \<or> (0xD800 \<le> n \<and> n \<le> 0xDFFF) \<or> n > 0x10FFFF then 0xFFFD else n)"

text \<open>
  A string token, read from behind its opening double quote: the value and the text
  behind the closing quote, or the value of a string that runs to the end of the text
  (the string is taken as closed there), or a bad string (a line feed inside it). After
  a backslash, a line feed is skipped, up to six hexadecimal digits and one white space
  after them give one code point, and any other code point stands for itself; a
  backslash at the very end is dropped.
\<close>

datatype string_token = Closed "int list" "int list" | Unclosed "int list" | Bad_string

datatype scan = Plain | Escape | Hex nat int

fun consume_string :: "scan \<Rightarrow> int list \<Rightarrow> int list \<Rightarrow> string_token" where
  "consume_string Plain v [] = Unclosed v"
| "consume_string Escape v [] = Unclosed v"
| "consume_string (Hex k n) v [] = Unclosed (v @ [escaped_code_point n])"
| "consume_string Plain v (c # cs) =
     (if c = 0x22 then Closed v cs
      else if c = 0x0A then Bad_string
      else if c = 0x5C then consume_string Escape v cs
      else consume_string Plain (v @ [c]) cs)"
| "consume_string Escape v (c # cs) =
     (if c = 0x0A then consume_string Plain v cs
      else if hex_digit c then consume_string (Hex 1 (hex_value c)) v cs
      else consume_string Plain (v @ [c]) cs)"
| "consume_string (Hex k n) v (c # cs) =
     (if hex_digit c \<and> k < 6 then consume_string (Hex (Suc k) (16 * n + hex_value c)) v cs
      else if css_whitespace c then consume_string Plain (v @ [escaped_code_point n]) cs
      else if c = 0x22 then Closed (v @ [escaped_code_point n]) cs
      else if c = 0x5C then consume_string Escape (v @ [escaped_code_point n]) cs
      else consume_string Plain (v @ [escaped_code_point n, c]) cs)"

text \<open>
  What a selector text is read as: the values of the attribute selectors of the
  program's template, or a malformed selector (\<^verbatim>\<open>querySelector\<close> throws a SyntaxError),
  or \<open>Foreign\<close>: the text left the template, because a quote inside a name closed the
  value and the name went on with a closing bracket or a flag of its own, or because a
  backslash at the end of a name took the template's closing quote into the value.
  Behind the value of an attribute selector only white space, the flag \<^verbatim>\<open>i\<close> or
  \<^verbatim>\<open>s\<close> and the closing bracket can follow; anything else makes the selector
  malformed.
\<close>

datatype 'a parsed = Parsed 'a | Invalid | Foreign

fun strip_prefix :: "int list \<Rightarrow> int list \<Rightarrow> int list option" where
  "strip_prefix [] ys = Some ys"
| "strip_prefix (x # xs) [] = None"
| "strip_prefix (x # xs) (y # ys) = (if x = y then strip_prefix xs ys else None)"

definition ident_code_point :: "int \<Rightarrow> bool" where
  "ident_code_point c =
     ((0x41 \<le> c \<and> c \<le> 0x5A) \<or> (0x61 \<le> c \<and> c \<le> 0x7A) \<or> (0x30 \<le> c \<and> c \<le> 0x39)
      \<or> c = 0x2D \<or> c = 0x5F \<or> c \<ge> 0x80)"

definition after_value_invalid :: "int list \<Rightarrow> bool" where
  "after_value_invalid rest =
     (case dropWhile css_whitespace rest of
        [] \<Rightarrow> False
      | c # cs \<Rightarrow>
          (if c = 0x5D \<or> c = 0x5C then False
           else if c = 0x2F then (case cs of [] \<Rightarrow> True | c' # cs' \<Rightarrow> c' \<noteq> 0x2A)
           else if ident_code_point c
           then takeWhile ident_code_point (c # cs) \<notin> set [[0x69], [0x73], [0x49], [0x53]]
           else True))"

definition first_value :: "int list \<Rightarrow> int list \<Rightarrow> (int list \<times> int list) parsed" where
  "first_value tail input =
     (case consume_string Plain [] input of
        Bad_string \<Rightarrow> Invalid
      | Unclosed v \<Rightarrow> Foreign
      | Closed v rest \<Rightarrow>
          (case strip_prefix tail rest of
             Some rest' \<Rightarrow> Parsed (v, rest')
           | None \<Rightarrow> (if after_value_invalid rest then Invalid else Foreign)))"

definition last_value :: "int list \<Rightarrow> int list parsed" where
  "last_value input =
     (case consume_string Plain [] input of
        Bad_string \<Rightarrow> Invalid
      | Unclosed v \<Rightarrow> Foreign
      | Closed v rest \<Rightarrow>
          (if rest = [0x5D] then Parsed v
           else if after_value_invalid rest then Invalid else Foreign))"

definition parse_tool_selector :: "int list \<Rightarrow> (int list \<times> int list) parsed" where
  "parse_tool_selector text =
     (case strip_prefix (map of_char (''.draggable[data-tool-name='' @ [CHR 0x22])) text of
        None \<Rightarrow> Foreign
      | Some input \<Rightarrow>
          (case first_value (map of_char (''][data-tool-number='' @ [CHR 0x22])) input of
             Invalid \<Rightarrow> Invalid
           | Foreign \<Rightarrow> Foreign
           | Parsed (v1, input') \<Rightarrow>
               (case last_value input' of
                  Invalid \<Rightarrow> Invalid
                | Foreign \<Rightarrow> Foreign
                | Parsed v2 \<Rightarrow> Parsed (v1, v2))))"

definition parse_zone_selector :: "int list \<Rightarrow> int list parsed" where
  "parse_zone_selector text =
     (case strip_prefix (map of_char (''.drop-zone[data-crew='' @ [CHR 0x22])) text of
        None \<Rightarrow> Foreign
      | Some input \<Rightarrow> last_value input)"

text \<open>
  The first tool element in document order that has the class \<^verbatim>\<open>draggable\<close> and the two
  attribute values of the selector. A \<open>Foreign\<close> selector may select any element of the
  page; the model does not follow it.
\<close>

definition matches_tool :: "document \<Rightarrow> int list \<Rightarrow> int list \<Rightarrow> nat \<Rightarrow> bool" where
  "matches_tool d v1 v2 e =
     (''draggable'' \<in> set (classes (el d e))
      \<and> map of_char (data_toolName (el d e)) = v1 \<and> map of_char (data_toolNumber (el d e)) = v2)"

definition querySelector_tool :: "document \<Rightarrow> string \<Rightarrow> string \<Rightarrow> exn + nat option" where
  "querySelector_tool d toolName toolNumber =
     (case parse_tool_selector (css_preprocess (tool_selector toolName toolNumber)) of
        Invalid \<Rightarrow> Inl SyntaxError
      | Foreign \<Rightarrow> Inl Outside_model
      | Parsed (v1, v2) \<Rightarrow> Inr (find (matches_tool d v1 v2) (document_tools d)))"

text \<open>The first drop zone whose \<^verbatim>\<open>data-crew\<close> is the value of the selector, by its key.\<close>

definition querySelector_zone :: "document \<Rightarrow> string \<Rightarrow> exn + string option" where
  "querySelector_zone d crew =
     (case parse_zone_selector (css_preprocess (zone_selector crew)) of
        Invalid \<Rightarrow> Inl SyntaxError
      | Foreign \<Rightarrow> Inl Outside_model
      | Parsed v \<Rightarrow> Inr (map_option fst (find (\<lambda>z. map of_char (fst z) = v) (dropZones d))))"

text \<open>
  \<^verbatim>\<open>element.closest('.tool-stack')\<close> for a tool element: the stack holding it. The search
  starts at the element itself, so an element that carries the class is its own answer;
  it has no badge, and \<^verbatim>\<open>updateStackCount\<close> on it changes nothing, which is what
  \<open>None\<close> leads to as well.
\<close>

fun index_where :: "('a \<Rightarrow> bool) \<Rightarrow> 'a list \<Rightarrow> nat option" where
  "index_where P [] = None"
| "index_where P (x # xs) =
     (if P x then Some 0 else (case index_where P xs of None \<Rightarrow> None | Some i \<Rightarrow> Some (Suc i)))"

definition closest_stack :: "document \<Rightarrow> nat \<Rightarrow> nat option" where
  "closest_stack d e =
     (if ''tool-stack'' \<in> set (classes (el d e)) then None
      else index_where (\<lambda>s. e \<in> set (stack_items s)) (stacks d))"

section \<open>tools.js\<close>

definition createToolElement :: "tool \<Rightarrow> string \<Rightarrow> tool_el" where
  "createToolElement t toolNumber =
     \<lparr>classes = class_list (''draggable '' @ tool_class t),
      data_toolName = tool_name t,
      data_toolNumber = toolNumber,
      data_toolClass = tool_class t,
      data_checkoutTime = None,
      data_crew = None,
      style_display = [],
      aria_label = tool_name t @ '' number '' @ toolNumber @ '', draggable tool'',
      aria_grabbed = Some ''false''\<rparr>"

definition new_stack :: "tool \<Rightarrow> nat list \<Rightarrow> stack_el" where
  "new_stack t item_ids =
     \<lparr>stack_tool = t,
      stack_toolName = tool_name t,
      stack_classes = [''tool-stack''],
      stack_display = [],
      stack_aria_label = tool_name t @ '' stack, '' @ show_int (tool_qty t)
                          @ '' tools available. Press Enter to expand.'',
      label_classes = class_list (''draggable '' @ tool_class t @ '' stack-label''),
      badge_text = show_int (tool_qty t),
      badge_aria_label = show_int (tool_qty t) @ '' available'',
      stack_items = item_ids\<rparr>"

text \<open>
  \<^verbatim>\<open>createToolStack(tool, poolId)\<close>: a single element for quantity 1, otherwise a stack
  with one item per number from 1 to the quantity.
\<close>

definition createToolStack :: "tool \<Rightarrow> string \<Rightarrow> document \<Rightarrow> document" where
  "createToolStack t poolId d =
     (case getById_pool d poolId of
        None \<Rightarrow> d
      | Some pool \<Rightarrow>
          (if tool_qty t = 1
           then
             (let toolDiv = createToolElement t (show_int 1);
                  e = length (elements d)
              in d\<lparr>elements := elements d @ [toolDiv],
                   pools := append_first poolId (ToolNode e) (pools d)\<rparr>)
           else
             (let items = map (\<lambda>i. (createToolElement t (show_int i))
                                      \<lparr>classes := add_class ''tool-item''
                                           (classes (createToolElement t (show_int i)))\<rparr>)
                              [1..tool_qty t];
                  first = length (elements d);
                  s = length (stacks d)
              in d\<lparr>elements := elements d @ items,
                   stacks := stacks d @ [new_stack t [first..<first + length items]],
                   pools := append_first poolId (StackNode s) (pools d)\<rparr>)))"

text \<open>
  \<^verbatim>\<open>updateStackCount(stackDiv)\<close>: the count of
  \<^verbatim>\<open>.tool-item:not(.checked-out)\<close> below the stack (the label is below it too), written
  to the badge.
\<close>

definition is_available_item :: "string list \<Rightarrow> bool" where
  "is_available_item cs = (''tool-item'' \<in> set cs \<and> ''checked-out'' \<notin> set cs)"

definition availableCount :: "document \<Rightarrow> nat \<Rightarrow> nat" where
  "availableCount d s =
     (if is_available_item (label_classes (stacks d ! s)) then 1 else 0)
     + length (filter (\<lambda>e. is_available_item (classes (el d e))) (stack_items (stacks d ! s)))"

definition updateStackCount :: "nat \<Rightarrow> document \<Rightarrow> document" where
  "updateStackCount s d =
     (let count = availableCount d s;
          d1 = upd_stack s (\<lambda>x. x\<lparr>badge_text := show_nat count,
                                    badge_aria_label := show_nat count @ '' available''\<rparr>) d
      in if count = 0
         then announceToScreenReader
                (''All tools from '' @ stack_toolName (stacks d ! s) @ '' have been checked out'')
                (upd_stack s (\<lambda>x. x\<lparr>stack_display := ''none''\<rparr>) d1)
         else upd_stack s (\<lambda>x. x\<lparr>stack_display := []\<rparr>) d1)"

definition update_closest_stack :: "nat \<Rightarrow> document \<Rightarrow> document" where
  "update_closest_stack e d =
     (case closest_stack d e of None \<Rightarrow> d | Some s \<Rightarrow> updateStackCount s d)"

text \<open>\<^verbatim>\<open>initializeInventory()\<close>: every configured pool but the broken pool is cleared,
  then the stacks of the inventory are created.\<close>

definition clear_pools :: "document \<Rightarrow> document" where
  "clear_pools d =
     fold (\<lambda>poolId d'. if getById_pool d' poolId \<noteq> None \<and> poolId \<noteq> ''brokenPool''
                        then d'\<lparr>pools := clear_first poolId (pools d')\<rparr> else d')
          (map snd POOL_IDS) d"

definition create_category :: "string \<times> tool list \<Rightarrow> document \<Rightarrow> document" where
  "create_category entry d =
     (case map_of POOL_IDS (fst entry) of
        None \<Rightarrow> d
      | Some poolId \<Rightarrow> fold (\<lambda>t d'. createToolStack t poolId d') (snd entry) d)"

definition initializeInventory :: "appState \<Rightarrow> document \<Rightarrow> document" where
  "initializeInventory A d =
     (let inventory = getInventory A;
          d1 = clear_pools d;
          d2 = fold create_category inventory d1
      in announceToScreenReader ''Tool inventory loaded'' d2)"

subsection \<open>Validation and adding a tool\<close>

text \<open>
  \<^verbatim>\<open>String.prototype.trim\<close> removes white space and line terminators from both ends.
  \<open>WHITE_SPACE\<close> lists their code units; those below 256 can occur in a string of the
  model.
\<close>

definition WHITE_SPACE :: "int list" where
  "WHITE_SPACE =
     [0x0009, 0x000A, 0x000B, 0x000C, 0x000D, 0x0020, 0x00A0, 0x1680,
      0x2000, 0x2001, 0x2002, 0x2003, 0x2004, 0x2005, 0x2006, 0x2007, 0x2008, 0x2009, 0x200A,
      0x2028, 0x2029, 0x202F, 0x205F, 0x3000, 0xFEFF]"

definition is_white_space :: "char \<Rightarrow> bool" where
  "is_white_space c = ((of_char c :: int) \<in> set WHITE_SPACE)"

definition trim :: "string \<Rightarrow> string" where
  "trim s = rev (dropWhile is_white_space (rev (dropWhile is_white_space s)))"

text \<open>
  \<^verbatim>\<open>parseInt(quantity, 10)\<close> first turns its argument into a string and reads nothing
  else of it. The quantity argument is therefore given by that string: \<open>''999''\<close> is the
  number 999 (and the string \<^verbatim>\<open>"999"\<close>), \<open>''NaN''\<close> is \<^verbatim>\<open>NaN\<close>, \<open>''2.5''\<close> is the
  number 2.5, and \<open>''1e+21''\<close> is the number \<open>10\<^sup>2\<^sup>1\<close>, which is printed with an exponent.
  From the string, leading white space is skipped, a sign is read, and the digits up to
  the first character that is not one are the value; without a digit the result is
  \<^verbatim>\<open>NaN\<close> (\<open>None\<close>). The result is kept as the integer the digits denote. The program
  compares it with 1 and with 999 and uses it when it lies between them, where the
  number \<^verbatim>\<open>parseInt\<close> returns is that integer.
\<close>

definition parseInt10 :: "string \<Rightarrow> int option" where
  "parseInt10 inputString =
     (let S = dropWhile is_white_space inputString;
          sign = (if S \<noteq> [] \<and> hd S = CHR ''-'' then - 1 else 1);
          S' = (if S \<noteq> [] \<and> (hd S = CHR ''+'' \<or> hd S = CHR ''-'') then tl S else S);
          Z = takeWhile is_digit S'
      in if Z = [] then None else Some (sign * decimal_value Z))"

record validation =
  valid :: bool
  errors :: "string list"

definition validateTool :: "string \<Rightarrow> string \<Rightarrow> validation" where
  "validateTool name quantity =
     (let errors1 =
            (if name = [] \<or> length (trim name) < MIN_TOOL_NAME_LENGTH
             then [''Tool name is required'']
             else if length name > MAX_TOOL_NAME_LENGTH
             then [''Tool name must be less than '' @ show_nat MAX_TOOL_NAME_LENGTH @ '' characters'']
             else []);
          errors2 =
            (case parseInt10 quantity of
               None \<Rightarrow> [''Quantity must be a number'']
             | Some qty \<Rightarrow>
                 (if qty < MIN_QUANTITY
                  then [''Quantity must be at least '' @ show_int MIN_QUANTITY]
                  else if qty > MAX_QUANTITY
                  then [''Quantity cannot exceed '' @ show_int MAX_QUANTITY]
                  else []))
      in \<lparr>valid = (length (errors1 @ errors2) = 0), errors = errors1 @ errors2\<rparr>)"

text \<open>
  The running program: the state object, the page and the storage object. The text of
  the modal's inputs is not part of it; \<^verbatim>\<open>addTool\<close> gets its arguments from the caller.
\<close>

record world =
  app :: appState
  page :: document
  store :: storage

datatype add_result = Failure "string list" | Success tool

text \<open>
  \<^verbatim>\<open>addTool(name, category, quantity)\<close>. For a category that names a member of
  \<^verbatim>\<open>Object.prototype\<close>, \<^verbatim>\<open>CONFIG.CATEGORY_CLASSES[category]\<close> is that member and not a
  class name. The state object then throws its TypeError, unless the inventory owns a
  category of that name: then the call goes on with a tool whose class is not a string,
  which the Tool Definitions of the model cannot hold.
\<close>

definition addTool :: "world \<Rightarrow> string \<Rightarrow> string \<Rightarrow> string \<Rightarrow> (exn + add_result) \<times> world" where
  "addTool w name category quantity =
     (let validation = validateTool name quantity in
      if \<not> valid validation then (Inr (Failure (errors validation)), w)
      else
        (case parseInt10 quantity of
           None \<Rightarrow> (Inr (Failure (errors validation)), w)
         | Some qty \<Rightarrow>
             (case get_property CATEGORY_CLASSES category of
                Inherited \<Rightarrow>
                  (if get_property (getInventory (app w)) category = Inherited
                   then (Inl TypeError, w) else (Inl Outside_model, w))
              | found \<Rightarrow>
                  (let toolClass = (case found of Own c \<Rightarrow> c | _ \<Rightarrow> ''misc'');
                       newTool = \<lparr>tool_name = trim name, tool_qty = qty, tool_class = toolClass\<rparr>
                   in case state_addTool (app w) category newTool of
                        Inl e \<Rightarrow> (Inl e, w)
                      | Inr A \<Rightarrow>
                          (let d = (case get_property POOL_IDS category of
                                      Own poolId \<Rightarrow> createToolStack newTool poolId (page w)
                                    | _ \<Rightarrow> page w);
                               d' = announceToScreenReader
                                      (''Added '' @ show_int qty @ '' '' @ name @ '' to inventory'') d
                           in (Inr (Success newTool), w\<lparr>app := A, page := d'\<rparr>))))))"

subsection \<open>Returning tools\<close>

definition clear_checkout :: "tool_el \<Rightarrow> tool_el" where
  "clear_checkout x =
     x\<lparr>classes := remove_class ''checked-out'' (classes x),
       style_display := [],
       aria_grabbed := None,
       data_checkoutTime := None,
       data_crew := None\<rparr>"

definition returnTool :: "document \<Rightarrow> nat option \<Rightarrow> (exn + bool) \<times> document" where
  "returnTool d toolElement =
     (case toolElement of
        None \<Rightarrow> (Inr False, d)
      | Some t \<Rightarrow>
          (let toolName = data_toolName (el d t);
               toolNumber = data_toolNumber (el d t)
           in case querySelector_tool d toolName toolNumber of
                Inl e \<Rightarrow> (Inl e, d)
              | Inr None \<Rightarrow> (Inr False, d)
              | Inr (Some originalTool) \<Rightarrow>
                  (let d1 = upd_el originalTool clear_checkout d;
                       d2 = update_closest_stack originalTool d1;
                       d3 = announceToScreenReader (toolName @ '' #'' @ toolNumber @ '' returned'') d2
                   in (Inr True, d3))))"

fun return_each :: "nat list \<Rightarrow> nat \<Rightarrow> document \<Rightarrow> (exn + nat) \<times> document" where
  "return_each [] count d = (Inr count, d)"
| "return_each (t # ts) count d =
     (case returnTool d (Some t) of
        (Inl e, d') \<Rightarrow> (Inl e, d')
      | (Inr returned, d') \<Rightarrow> return_each ts (if returned then count + 1 else count) d')"

definition clear_drop_zones :: "document \<Rightarrow> document" where
  "clear_drop_zones d = d\<lparr>dropZones := map (\<lambda>(c, rows). (c, [])) (dropZones d)\<rparr>"

definition returnAllTools :: "document \<Rightarrow> (exn + nat) \<times> document" where
  "returnAllTools d =
     (let checkedOutTools =
            filter (\<lambda>e. ''draggable'' \<in> set (classes (el d e)) \<and> ''checked-out'' \<in> set (classes (el d e)))
                   (document_tools d)
      in case return_each checkedOutTools 0 d of
           (Inl e, d') \<Rightarrow> (Inl e, d')
         | (Inr count, d') \<Rightarrow>
             (Inr count,
              announceToScreenReader (''Returned '' @ show_nat count @ '' tools to inventory'')
                (clear_drop_zones d')))"

subsection \<open>What a save reads from the page\<close>

definition getCheckoutData :: "document \<Rightarrow> (string \<times> (string \<times> string \<times> string \<times> string) list) list" where
  "getCheckoutData d =
     map (\<lambda>(crew, rows).
            (crew, map (\<lambda>item. (item_originalTool item, item_toolNumber item, crew, item_checkoutTime item)) rows))
         (filter (\<lambda>(crew, rows). length rows > 0) (dropZones d))"

fun node_draggables :: "document \<Rightarrow> node \<Rightarrow> (string \<times> string option) list" where
  "node_draggables d (ToolNode e) =
     (if ''draggable'' \<in> set (classes (el d e))
      then [(data_toolName (el d e), Some (data_toolNumber (el d e)))] else [])"
| "node_draggables d (StackNode s) =
     (if ''draggable'' \<in> set (label_classes (stacks d ! s))
      then [(stack_toolName (stacks d ! s), None)] else [])
     @ map (\<lambda>e. (data_toolName (el d e), Some (data_toolNumber (el d e))))
           (filter (\<lambda>e. ''draggable'' \<in> set (classes (el d e))) (stack_items (stacks d ! s)))"

definition getBrokenToolsData :: "document \<Rightarrow> (string \<times> string option) list" where
  "getBrokenToolsData d =
     (case getById_pool d ''brokenPool'' of
        None \<Rightarrow> []
      | Some brokenPool \<Rightarrow> concat (map (node_draggables d) brokenPool))"

section \<open>crews.js\<close>

definition createCrewCards :: "document \<Rightarrow> document" where
  "createCrewCards d =
     announceToScreenReader (show_nat CREW_COUNT @ '' crew checkout areas ready'')
       (d\<lparr>dropZones := map (\<lambda>i. (show_nat i, [])) [1..<CREW_COUNT + 1]\<rparr>)"

definition createCheckoutItem :: "string \<Rightarrow> string \<Rightarrow> string \<Rightarrow> string \<Rightarrow> checkout_item" where
  "createCheckoutItem t toolNumber time crewNumber =
     \<lparr>item_originalTool = t, item_toolNumber = toolNumber,
      item_checkoutTime = time, item_crew = crewNumber\<rparr>"

fun zone_crew :: "zone \<Rightarrow> string option" where
  "zone_crew (CrewZone c) = Some c"
| "zone_crew (PoolZone p r) = None"

fun zone_id :: "zone \<Rightarrow> string" where
  "zone_id (CrewZone c) = []"
| "zone_id (PoolZone p r) = p"

fun zone_is_resource_items :: "zone \<Rightarrow> bool" where
  "zone_is_resource_items (CrewZone c) = False"
| "zone_is_resource_items (PoolZone p r) = r"

definition mark_checked_out :: "string \<Rightarrow> string \<Rightarrow> tool_el \<Rightarrow> tool_el" where
  "mark_checked_out time crewNumber x =
     x\<lparr>classes := add_class ''checked-out'' (classes x),
       style_display := ''none'',
       data_checkoutTime := Some time,
       data_crew := Some crewNumber,
       aria_grabbed := Some ''true''\<rparr>"

definition checkoutTool :: "jsdate \<Rightarrow> document \<Rightarrow> nat option \<Rightarrow> zone option \<Rightarrow> bool \<times> document" where
  "checkoutTool now d toolElement dropZone =
     (case (toolElement, dropZone) of
        (Some t, Some z) \<Rightarrow>
          (case zone_crew z of
             None \<Rightarrow> (False, d)
           | Some crewNumber \<Rightarrow>
               (if crewNumber = [] then (False, d)
                else
                  (let time = toLocaleTimeString now;
                       checkoutItem = createCheckoutItem (data_toolName (el d t)) (data_toolNumber (el d t))
                                        time crewNumber;
                       d1 = upd_el t (mark_checked_out time crewNumber) d;
                       d2 = d1\<lparr>dropZones := append_first crewNumber checkoutItem (dropZones d1)\<rparr>;
                       d3 = announceToScreenReader
                              (data_toolName (el d2 t) @ '' number '' @ data_toolNumber (el d2 t)
                                 @ '' checked out to Crew '' @ crewNumber) d2
                   in (True, d3))))
      | _ \<Rightarrow> (False, d))"

definition markToolBroken :: "document \<Rightarrow> nat option \<Rightarrow> bool \<times> document" where
  "markToolBroken d toolElement =
     (case toolElement of
        None \<Rightarrow> (False, d)
      | Some t \<Rightarrow>
          (case getById_pool d ''brokenPool'' of
             None \<Rightarrow> (False, d)
           | Some brokenPool \<Rightarrow>
               (let d1 = upd_el t (\<lambda>x. x\<lparr>classes := add_class ''broken'' (classes x),
                                          aria_label := data_toolName x @ '' number '' @ data_toolNumber x
                                                          @ '', marked as broken''\<rparr>) d;
                    d2 = pool_appendChild ''brokenPool'' t d1;
                    d3 = announceToScreenReader
                           (data_toolName (el d2 t) @ '' number '' @ data_toolNumber (el d2 t)
                              @ '' marked as broken'') d2
                in (True, d3))))"

definition unmarkToolBroken :: "document \<Rightarrow> nat option \<Rightarrow> bool \<times> document" where
  "unmarkToolBroken d toolElement =
     (case toolElement of
        None \<Rightarrow> (False, d)
      | Some t \<Rightarrow>
          (let d1 = upd_el t (\<lambda>x. x\<lparr>classes := remove_class ''broken'' (classes x),
                                     aria_label := data_toolName x @ '' number '' @ data_toolNumber x
                                                     @ '', draggable tool''\<rparr>) d;
               d2 = announceToScreenReader
                      (data_toolName (el d1 t) @ '' number '' @ data_toolNumber (el d1 t)
                         @ '' returned to inventory'') d1
           in (True, d2)))"

text \<open>
  \<^verbatim>\<open>handleReturnTool(returnBtn)\<close>: the button sits in a checkout row, given here by its
  crew and its position in the crew's zone.
\<close>

fun remove_row :: "string \<Rightarrow> nat \<Rightarrow> (string \<times> checkout_item list) list \<Rightarrow> (string \<times> checkout_item list) list" where
  "remove_row crew i [] = []"
| "remove_row crew i ((c, rows) # rest) =
     (if c = crew then (c, take i rows @ drop (Suc i) rows) # rest
      else (c, rows) # remove_row crew i rest)"

definition handleReturnTool :: "document \<Rightarrow> string \<Rightarrow> nat \<Rightarrow> (exn + unit) \<times> document" where
  "handleReturnTool d crew i =
     (case map_of (dropZones d) crew of
        None \<Rightarrow> (Inr (), d)
      | Some rows \<Rightarrow>
          (if i \<ge> length rows then (Inr (), d)
           else
             (let checkoutItem = rows ! i in
              case querySelector_tool d (item_originalTool checkoutItem) (item_toolNumber checkoutItem) of
                Inl e \<Rightarrow> (Inl e, d)
              | Inr originalTool \<Rightarrow>
                  (case returnTool d originalTool of
                     (Inl e, d') \<Rightarrow> (Inl e, d')
                   | (Inr returned, d') \<Rightarrow>
                       (if returned then (Inr (), d'\<lparr>dropZones := remove_row crew i (dropZones d')\<rparr>)
                        else (Inr (), d'))))))"

text \<open>
  \<^verbatim>\<open>loadCheckouts(checkoutsData)\<close>. For a tool in a stack the source calls
  \<^verbatim>\<open>require('./tools.js')\<close> to reach \<^verbatim>\<open>updateStackCount\<close>; where \<^verbatim>\<open>require\<close> is not
  defined that is a ReferenceError, raised after the tool has been marked and its row
  appended. The drop zone is the one the crew's selector finds; the row and the tool
  get the crew as the saved data has it.
\<close>

definition load_one :: "string \<Rightarrow> string \<Rightarrow> string \<times> string \<times> string \<Rightarrow> document \<Rightarrow> (exn + nat) \<times> document" where
  "load_one dropZone crew entry d =
     (case entry of (t, number, time) \<Rightarrow>
        (case querySelector_tool d t number of
           Inl e \<Rightarrow> (Inl e, d)
         | Inr None \<Rightarrow> (Inr 0, d)
         | Inr (Some originalTool) \<Rightarrow>
             (let checkoutItem = createCheckoutItem t number (if time = [] then ''N/A'' else time) crew;
                  d1 = upd_el originalTool
                         (\<lambda>x. x\<lparr>classes := add_class ''checked-out'' (classes x),
                                style_display := ''none'',
                                data_checkoutTime := Some time,
                                data_crew := Some crew\<rparr>) d;
                  d2 = d1\<lparr>dropZones := append_first dropZone checkoutItem (dropZones d1)\<rparr>
              in case closest_stack d2 originalTool of
                   None \<Rightarrow> (Inr 1, d2)
                 | Some s \<Rightarrow>
                     (if has_require d2 then (Inr 1, updateStackCount s d2)
                      else (Inl ReferenceError, d2)))))"

fun load_tools :: "string \<Rightarrow> string \<Rightarrow> (string \<times> string \<times> string) list \<Rightarrow> nat \<Rightarrow> document \<Rightarrow> (exn + nat) \<times> document" where
  "load_tools dropZone crew [] loadedCount d = (Inr loadedCount, d)"
| "load_tools dropZone crew (entry # entries) loadedCount d =
     (case load_one dropZone crew entry d of
        (Inl e, d') \<Rightarrow> (Inl e, d')
      | (Inr n, d') \<Rightarrow> load_tools dropZone crew entries (loadedCount + n) d')"

fun load_crews :: "(string \<times> (string \<times> string \<times> string) list) list \<Rightarrow> nat \<Rightarrow> document \<Rightarrow> (exn + nat) \<times> document" where
  "load_crews [] loadedCount d = (Inr loadedCount, d)"
| "load_crews ((crew, tools) # rest) loadedCount d =
     (case querySelector_zone d crew of
        Inl e \<Rightarrow> (Inl e, d)
      | Inr None \<Rightarrow> load_crews rest loadedCount d
      | Inr (Some dropZone) \<Rightarrow>
          (case load_tools dropZone crew tools loadedCount d of
             (Inl e, d') \<Rightarrow> (Inl e, d')
           | (Inr n, d') \<Rightarrow> load_crews rest n d'))"

definition loadCheckouts :: "document \<Rightarrow> (string \<times> (string \<times> string \<times> string) list) list option \<Rightarrow> (exn + unit) \<times> document" where
  "loadCheckouts d checkoutsData =
     (case checkoutsData of
        None \<Rightarrow> (Inr (), d)
      | Some crews \<Rightarrow>
          (case load_crews crews 0 d of
             (Inl e, d') \<Rightarrow> (Inl e, d')
           | (Inr loadedCount, d') \<Rightarrow>
               (if loadedCount > 0
                then (Inr (), announceToScreenReader
                                (''Loaded '' @ show_nat loadedCount @ '' tool checkouts from saved data'') d')
                else (Inr (), d'))))"

definition clearAllCheckouts :: "document \<Rightarrow> document" where
  "clearAllCheckouts d = clear_drop_zones d"

section \<open>ui.js, drag.js and main.js\<close>

definition updateLastModifiedTime :: "jsdate \<Rightarrow> world \<Rightarrow> world" where
  "updateLastModifiedTime now w =
     (let timeString = toLocaleString now in
      w\<lparr>page := (page w)\<lparr>updateTimeText := ''Last Updated: '' @ timeString\<rparr>,
        store := snd (saveUpdateTime (store w) timeString),
        app := setLastUpdateTime (app w) timeString\<rparr>)"

text \<open>
  \<^verbatim>\<open>handleDragStart\<close> on a tool element: a drag does not start on a stack label or on a
  checked-out tool. The result says whether the drag went ahead.
\<close>

definition handleDragStart :: "world \<Rightarrow> nat \<Rightarrow> bool \<times> world" where
  "handleDragStart w target =
     (let cs = classes (el (page w) target) in
      if ''draggable'' \<notin> set cs \<or> ''stack-label'' \<in> set cs then (False, w)
      else if ''checked-out'' \<in> set cs then (False, w)
      else
        (True,
         w\<lparr>app := setDraggedElement (app w) target,
           page := upd_el target (\<lambda>x. x\<lparr>classes := add_class ''dragging'' (classes x),
                                         aria_grabbed := Some ''true''\<rparr>) (page w)\<rparr>))"

definition handleDragEnd :: "world \<Rightarrow> nat \<Rightarrow> world" where
  "handleDragEnd w target =
     (let d = (if ''draggable'' \<in> set (classes (el (page w) target))
               then upd_el target (\<lambda>x. x\<lparr>classes := remove_class ''dragging'' (classes x),
                                           aria_grabbed := Some ''false''\<rparr>) (page w)
               else page w)
      in w\<lparr>page := d, app := clearDraggedElement (app w)\<rparr>)"

text \<open>\<^verbatim>\<open>handleDrop(draggedElement, dropZone)\<close>: the branch is chosen by the drop target.\<close>

definition handleDrop :: "jsdate \<Rightarrow> world \<Rightarrow> nat option \<Rightarrow> zone option \<Rightarrow> world" where
  "handleDrop now w dragged dropZone =
     (case (dragged, dropZone) of
        (Some t, Some z) \<Rightarrow>
          (if zone_crew z \<noteq> None \<and> zone_crew z \<noteq> Some []
           then
             (case checkoutTool now (page w) (Some t) (Some z) of
                (success, d1) \<Rightarrow>
                  (if success
                   then updateLastModifiedTime now (w\<lparr>page := update_closest_stack t d1\<rparr>)
                   else w\<lparr>page := d1\<rparr>))
           else if zone_id z = ''brokenPool''
           then updateLastModifiedTime now (w\<lparr>page := snd (markToolBroken (page w) (Some t))\<rparr>)
           else if zone_is_resource_items z
           then
             (let d1 = (if ''broken'' \<in> set (classes (el (page w) t))
                        then snd (unmarkToolBroken (page w) (Some t)) else page w);
                  d2 = pool_appendChild (zone_id z) t d1;
                  d3 = update_closest_stack t d2
              in updateLastModifiedTime now (w\<lparr>page := d3\<rparr>))
           else w)
      | _ \<Rightarrow> w)"

text \<open>The document's \<^verbatim>\<open>drop\<close> listener, and a whole gesture: drag start, drop, drag end.\<close>

definition on_drop :: "jsdate \<Rightarrow> world \<Rightarrow> zone \<Rightarrow> world" where
  "on_drop now w dropZone =
     (case getDraggedElement (app w) of
        None \<Rightarrow> w
      | Some dragged \<Rightarrow> handleDrop now w (Some dragged) (Some dropZone))"

definition drag_and_drop :: "jsdate \<Rightarrow> world \<Rightarrow> nat \<Rightarrow> zone \<Rightarrow> world" where
  "drag_and_drop now w target dropZone =
     (case handleDragStart w target of
        (started, w1) \<Rightarrow> (if started then handleDragEnd (on_drop now w1 dropZone) target else w))"

text \<open>The stack's click handler (\<^verbatim>\<open>toggleStack\<close> in \<^verbatim>\<open>createToolStack\<close>).\<close>

definition click_stack :: "world \<Rightarrow> nat \<Rightarrow> world" where
  "click_stack w s =
     (let st = stacks (page w) ! s;
          t = stack_tool st;
          isExpanded = (''expanded'' \<notin> set (stack_classes st));
          d1 = upd_stack s
                 (\<lambda>x. x\<lparr>stack_classes := (if isExpanded then add_class ''expanded'' (stack_classes x)
                                           else remove_class ''expanded'' (stack_classes x)),
                        stack_aria_label :=
                          (if isExpanded
                           then tool_name t @ '' stack expanded, '' @ show_int (tool_qty t)
                                  @ '' tools shown. Press Enter to collapse.''
                           else tool_name t @ '' stack collapsed, '' @ show_int (tool_qty t)
                                  @ '' tools available. Press Enter to expand.'')\<rparr>) (page w);
          d2 = updateStackCount s d1;
          d3 = announceToScreenReader
                 (tool_name t @ (if isExpanded then '' stack expanded'' else '' stack collapsed'')) d2
      in w\<lparr>app := toggleStack (app w) (tool_name t), page := d3\<rparr>)"

subsection \<open>Loading a snapshot, clearing, returning all\<close>

text \<open>\<^verbatim>\<open>loadBrokenTools(brokenData)\<close> of main.js.\<close>

fun load_broken :: "(string \<times> string) list \<Rightarrow> document \<Rightarrow> (exn + unit) \<times> document" where
  "load_broken [] d = (Inr (), d)"
| "load_broken ((name, number) # rest) d =
     (case querySelector_tool d name number of
        Inl e \<Rightarrow> (Inl e, d)
      | Inr None \<Rightarrow> load_broken rest d
      | Inr (Some toolElement) \<Rightarrow>
          load_broken rest
            (pool_appendChild ''brokenPool'' toolElement
               (upd_el toolElement (\<lambda>x. x\<lparr>classes := add_class ''broken'' (classes x)\<rparr>) d)))"

definition loadBrokenTools :: "document \<Rightarrow> (string \<times> string) list option \<Rightarrow> (exn + unit) \<times> document" where
  "loadBrokenTools d brokenData =
     (case brokenData of
        None \<Rightarrow> (Inr (), d)
      | Some entries \<Rightarrow>
          (case getById_pool d ''brokenPool'' of
             None \<Rightarrow> (Inr (), d)
           | Some brokenPool \<Rightarrow> load_broken entries d))"

text \<open>A Schedule Snapshot as it comes back from the store, by the three parts the loader
  looks at.\<close>

record snapshot =
  snap_inventory :: "inventory option"
  snap_checkouts :: "(string \<times> (string \<times> string \<times> string) list) list option"
  snap_broken :: "(string \<times> string) list option"

definition loadHistoryData :: "world \<Rightarrow> snapshot \<Rightarrow> (exn + unit) \<times> world" where
  "loadHistoryData w historyData =
     (let w1 = (case snap_inventory historyData of
                  None \<Rightarrow> w
                | Some inventory \<Rightarrow>
                    (let A = setInventory (app w) inventory
                     in w\<lparr>app := A, page := initializeInventory A (page w)\<rparr>));
          d2 = createCrewCards (page w1)
      in case loadCheckouts d2 (snap_checkouts historyData) of
           (Inl e, d3) \<Rightarrow> (Inl e, w1\<lparr>page := d3\<rparr>)
         | (Inr u, d3) \<Rightarrow>
             (case loadBrokenTools d3 (snap_broken historyData) of
                (Inl e, d4) \<Rightarrow> (Inl e, w1\<lparr>page := d4\<rparr>)
              | (Inr u', d4) \<Rightarrow>
                  (Inr (), w1\<lparr>page := announceToScreenReader ''Historical schedule loaded successfully'' d4\<rparr>)))"

text \<open>The Return All and Clear buttons, once the user has confirmed.\<close>

definition app_returnAllTools :: "jsdate \<Rightarrow> world \<Rightarrow> (exn + nat) \<times> world" where
  "app_returnAllTools now w =
     (case returnAllTools (page w) of
        (Inl e, d) \<Rightarrow> (Inl e, w\<lparr>page := d\<rparr>)
      | (Inr count, d) \<Rightarrow> (Inr count, updateLastModifiedTime now (w\<lparr>page := d\<rparr>)))"

definition app_clearAllCheckouts :: "jsdate \<Rightarrow> world \<Rightarrow> (exn + unit) \<times> world" where
  "app_clearAllCheckouts now w =
     (case returnAllTools (clearAllCheckouts (page w)) of
        (Inl e, d) \<Rightarrow> (Inl e, w\<lparr>page := d\<rparr>)
      | (Inr count, d) \<Rightarrow>
          (Inr (),
           updateLastModifiedTime now
             (w\<lparr>page := announceToScreenReader ''All checkouts cleared and reset complete''
                          (createCrewCards (initializeInventory (app w) d))\<rparr>)))"

subsection \<open>Start-up\<close>

text \<open>
  A page with the ten pools of the configuration and nothing in them, and the program
  after \<^verbatim>\<open>initializeInventory\<close> and \<^verbatim>\<open>createCrewCards\<close> on a page.
\<close>

definition blank_page :: document where
  "blank_page = \<lparr>elements = [], stacks = [], pools = map (\<lambda>(c, p). (p, [])) POOL_IDS,
     dropZones = [], announced = [], updateTimeText = [], has_require = False\<rparr>"

definition empty_page :: "document \<Rightarrow> bool" where
  "empty_page d = (elements d = [] \<and> stacks d = [] \<and> list_all (\<lambda>(p, ns). ns = []) (pools d))"

definition start_world :: "appState \<Rightarrow> document \<Rightarrow> storage \<Rightarrow> world" where
  "start_world A d S =
     \<lparr>app = A, page = createCrewCards (initializeInventory A d), store = S\<rparr>"

text \<open>
  The states the program can be in: it starts by rendering some inventory on an empty
  page, and then the user drags tools onto zones, clicks Return buttons and stacks,
  returns everything, clears, adds tools and loads snapshots, while the update time is
  stamped.
\<close>

inductive reachable :: "world \<Rightarrow> bool" where
  start: "empty_page d \<Longrightarrow> reachable (start_world A d S)"
| drag: "reachable w \<Longrightarrow> reachable (drag_and_drop now w t z)"
| return_click: "reachable w \<Longrightarrow> reachable (w\<lparr>page := snd (handleReturnTool (page w) crew i)\<rparr>)"
| return_all: "reachable w \<Longrightarrow> reachable (snd (app_returnAllTools now w))"
| clear: "reachable w \<Longrightarrow> reachable (snd (app_clearAllCheckouts now w))"
| load: "reachable w \<Longrightarrow> reachable (snd (loadHistoryData w historyData))"
| add: "reachable w \<Longrightarrow> reachable (snd (addTool w name category quantity))"
| click: "reachable w \<Longrightarrow> reachable (click_stack w s)"
| stamp: "reachable w \<Longrightarrow> reachable (updateLastModifiedTime now w)"

subsection \<open>The checkout data of an element\<close>

text \<open>
  An element that is not checked out carries no crew and no checkout time; the page
  satisfies this when all its elements do.
\<close>

definition el_inv :: "tool_el \<Rightarrow> bool" where
  "el_inv x = (''checked-out'' \<notin> set (classes x) \<longrightarrow> data_crew x = None \<and> data_checkoutTime x = None)"

definition page_inv :: "document \<Rightarrow> bool" where
  "page_inv d = list_all el_inv (elements d)"

subsection \<open>Sample page\<close>

definition example_local_storage :: local_storage where
  "example_local_storage = \<lparr>items = Map.empty, denied = False, quota_ok = (\<lambda>k p. True)\<rparr>"

definition example_hammers :: appState where
  "example_hammers = setInventory new_AppState [(''hammers'', [mk_tool ''Claw Hammer'' 8 ''hammer''])]"

definition example_world :: world where
  "example_world = start_world example_hammers blank_page (new_Storage example_local_storage)"

text \<open>
  Claw Hammer number 3 and number 4 are the elements 2 and 3 of the sample page. The
  gestures used below: number 3 is dragged onto the broken pool, and from there onto the
  drop zone of crew 2; number 3 is checked out to crew 2 and number 4 to crew 1, and
  number 3 is returned with its Return button.
\<close>

definition hammer3_broken :: world where
  "hammer3_broken = drag_and_drop example_day example_world 2 (PoolZone ''brokenPool'' True)"

definition hammer3_broken_then_crew2 :: world where
  "hammer3_broken_then_crew2 = drag_and_drop example_day hammer3_broken 2 (CrewZone ''2'')"

definition hammer4_out :: document where
  "hammer4_out = snd (checkoutTool example_day (page hammer3_broken) (Some 3) (Some (CrewZone ''1'')))"

definition hammer4_back :: document where
  "hammer4_back = snd (returnTool hammer4_out (Some 3))"

definition hammer3_out :: world where
  "hammer3_out = drag_and_drop example_day example_world 2 (CrewZone ''2'')"

definition hammer3_and_hammer4_out :: world where
  "hammer3_and_hammer4_out = drag_and_drop example_day hammer3_out 3 (CrewZone ''1'')"

definition hammer3_returned :: world where
  "hammer3_returned =
     hammer3_and_hammer4_out\<lparr>page := snd (handleReturnTool (page hammer3_and_hammer4_out) ''2'' 0)\<rparr>"

text \<open>
  A sledge is added to the hammers whose name has the inch sign in it, \<^verbatim>\<open>16" Sledge\<close>;
  it is element 8, behind the stack of Claw Hammers in their pool. Claw Hammer number 3
  and the sledge are dragged onto the drop zone of crew 1, and then Return All is
  clicked and confirmed. After that Claw Hammer number 3 is dragged onto the broken
  pool.
\<close>

definition sledge :: string where
  "sledge = ''16'' @ [CHR 0x22] @ '' Sledge''"

definition with_sledge :: world where
  "with_sledge = snd (addTool example_world sledge ''hammers'' ''1'')"

definition hammer3_and_sledge_out :: world where
  "hammer3_and_sledge_out =
     drag_and_drop example_day (drag_and_drop example_day with_sledge 2 (CrewZone ''1'')) 8 (CrewZone ''1'')"

definition return_all_stopped :: world where
  "return_all_stopped = snd (app_returnAllTools example_day hammer3_and_sledge_out)"

definition hammer3_broken_with_row :: world where
  "hammer3_broken_with_row =
     drag_and_drop example_day return_all_stopped 2 (PoolZone ''brokenPool'' True)"

section \<open>state.js on the level of references\<close>

text \<open>
  To say what a read shares with the state, objects need identity. The heap is the list
  of all objects, an object's address is its index, and a new object is put at the end.
  The objects are those the state is made of: a Tool Definition, an array of references
  to Tool Definitions, the inventory object from category to array reference, a
  \<^verbatim>\<open>Set\<close> of names, and a tool element of the page.
\<close>

datatype object =
    ToolObj tool
  | ArrayObj "nat list"
  | InventoryObj "(string \<times> nat) list"
  | SetObj "string list"
  | ElementObj tool_el

type_synonym heap = "object list"

definition lookup :: "heap \<Rightarrow> nat \<Rightarrow> object option" where
  "lookup h a = (if a < length h then Some (h ! a) else None)"

text \<open>The state object holds references.\<close>

record state_refs =
  ref_toolInventory :: nat
  ref_expandedStacks :: nat
  ref_draggedElement :: "nat option"
  ref_lastUpdateTime :: "string option"

text \<open>
  \<^verbatim>\<open>JSON.stringify\<close> walks the objects below a reference and yields their content;
  \<open>None\<close> stands for a heap that does not hold an inventory there.
\<close>

definition read_tool :: "heap \<Rightarrow> nat \<Rightarrow> tool option" where
  "read_tool h a = (case lookup h a of Some (ToolObj t) \<Rightarrow> Some t | _ \<Rightarrow> None)"

definition read_array :: "heap \<Rightarrow> nat \<Rightarrow> tool list option" where
  "read_array h a =
     (case lookup h a of Some (ArrayObj rs) \<Rightarrow> those (map (read_tool h) rs) | _ \<Rightarrow> None)"

definition read_entry :: "heap \<Rightarrow> string \<times> nat \<Rightarrow> (string \<times> tool list) option" where
  "read_entry h entry = map_option (Pair (fst entry)) (read_array h (snd entry))"

definition JSON_stringify_inventory :: "heap \<Rightarrow> nat \<Rightarrow> inventory option" where
  "JSON_stringify_inventory h a =
     (case lookup h a of Some (InventoryObj fs) \<Rightarrow> those (map (read_entry h) fs) | _ \<Rightarrow> None)"

text \<open>
  \<^verbatim>\<open>JSON.parse\<close> builds new objects: for each category the Tool Definitions, then the
  array of their addresses, and the inventory object last. \<open>n\<close> is the address of the
  first new object.
\<close>

fun new_arrays :: "nat \<Rightarrow> inventory \<Rightarrow> (string \<times> nat) list \<times> object list" where
  "new_arrays n [] = ([], [])"
| "new_arrays n ((c, ts) # rest) =
     (case new_arrays (Suc (n + length ts)) rest of
        (fs, objs) \<Rightarrow>
          ((c, n + length ts) # fs,
           map ToolObj ts @ [ArrayObj [n..<n + length ts]] @ objs))"

definition JSON_parse_inventory :: "heap \<Rightarrow> inventory \<Rightarrow> nat \<times> heap" where
  "JSON_parse_inventory h content =
     (case new_arrays (length h) content of
        (fs, objs) \<Rightarrow> (length h + length objs, h @ objs @ [InventoryObj fs]))"

definition deepClone_ref :: "heap \<Rightarrow> nat \<Rightarrow> (nat \<times> heap) option" where
  "deepClone_ref h obj = map_option (JSON_parse_inventory h) (JSON_stringify_inventory h obj)"

definition new_Set_ref :: "heap \<Rightarrow> nat \<Rightarrow> (nat \<times> heap) option" where
  "new_Set_ref h a =
     (case lookup h a of Some (SetObj xs) \<Rightarrow> Some (length h, h @ [SetObj (new_Set xs)]) | _ \<Rightarrow> None)"

text \<open>The four reads. Each returns what the caller gets and the heap after the call.\<close>

definition getInventory_ref :: "heap \<Rightarrow> state_refs \<Rightarrow> (nat \<times> heap) option" where
  "getInventory_ref h st = deepClone_ref h (ref_toolInventory st)"

definition getExpandedStacks_ref :: "heap \<Rightarrow> state_refs \<Rightarrow> (nat \<times> heap) option" where
  "getExpandedStacks_ref h st = new_Set_ref h (ref_expandedStacks st)"

definition getDraggedElement_ref :: "heap \<Rightarrow> state_refs \<Rightarrow> nat option \<times> heap" where
  "getDraggedElement_ref h st = (ref_draggedElement st, h)"

definition getState_ref :: "heap \<Rightarrow> state_refs \<Rightarrow> (state_refs \<times> heap) option" where
  "getState_ref h st =
     (case deepClone_ref h (ref_toolInventory st) of
        None \<Rightarrow> None
      | Some (inventory, h1) \<Rightarrow>
          (case new_Set_ref h1 (ref_expandedStacks st) of
             None \<Rightarrow> None
           | Some (expanded, h2) \<Rightarrow>
               Some (st\<lparr>ref_toolInventory := inventory, ref_expandedStacks := expanded\<rparr>, h2)))"

text \<open>
  The objects a value consists of: the addresses reached from a reference. Mutating a
  value is overwriting one of them.
\<close>

definition array_addresses :: "heap \<Rightarrow> nat \<Rightarrow> nat list" where
  "array_addresses h a = a # (case lookup h a of Some (ArrayObj rs) \<Rightarrow> rs | _ \<Rightarrow> [])"

definition addresses :: "heap \<Rightarrow> nat \<Rightarrow> nat list" where
  "addresses h a =
     a # (case lookup h a of
            Some (InventoryObj fs) \<Rightarrow> concat (map (\<lambda>entry. array_addresses h (snd entry)) fs)
          | Some (ArrayObj rs) \<Rightarrow> rs
          | _ \<Rightarrow> [])"

text \<open>What the next reads observe: the content below the state's references.\<close>

definition observe_inventory :: "heap \<Rightarrow> state_refs \<Rightarrow> inventory option" where
  "observe_inventory h st = JSON_stringify_inventory h (ref_toolInventory st)"

definition observe_expanded :: "heap \<Rightarrow> state_refs \<Rightarrow> object option" where
  "observe_expanded h st = lookup h (ref_expandedStacks st)"

definition observe_dragged :: "heap \<Rightarrow> state_refs \<Rightarrow> object option" where
  "observe_dragged h st =
     (case fst (getDraggedElement_ref h st) of None \<Rightarrow> None | Some a \<Rightarrow> lookup h a)"

definition observe :: "heap \<Rightarrow> state_refs \<Rightarrow> inventory option \<times> object option \<times> object option" where
  "observe h st = (observe_inventory h st, observe_expanded h st, observe_dragged h st)"

text \<open>
  The state is well formed in a heap when its references lead to an inventory, to a set
  and, unless nothing is dragged, to an element. \<open>keeps h h'\<close> says that \<open>h'\<close> still
  has the objects of \<open>h\<close> at their addresses.
\<close>

definition wf_state :: "heap \<Rightarrow> state_refs \<Rightarrow> bool" where
  "wf_state h st =
     (observe_inventory h st \<noteq> None
      \<and> (case observe_expanded h st of Some (SetObj names) \<Rightarrow> True | _ \<Rightarrow> False)
      \<and> (case ref_draggedElement st of
            None \<Rightarrow> True
          | Some a \<Rightarrow> (case lookup h a of Some (ElementObj e) \<Rightarrow> True | _ \<Rightarrow> False)))"

definition keeps :: "heap \<Rightarrow> heap \<Rightarrow> bool" where
  "keeps h h' = (length h \<le> length h' \<and> take (length h) h' = h)"

subsection \<open>Sample heap\<close>

text \<open>
  A state with one category of two Tool Definitions, one expanded stack, and Claw
  Hammer number 1 being dragged.
\<close>

definition example_heap :: heap where
  "example_heap =
     [ToolObj (mk_tool ''Claw Hammer'' 8 ''hammer''),
      ToolObj (mk_tool ''Mini Sledge'' 4 ''hammer''),
      ArrayObj [0, 1],
      InventoryObj [(''hammers'', 2)],
      SetObj [''Claw Hammer''],
      ElementObj (createToolElement (mk_tool ''Claw Hammer'' 8 ''hammer'') ''1'')]"

definition example_refs :: state_refs where
  "example_refs = \<lparr>ref_toolInventory = 3, ref_expandedStacks = 4,
     ref_draggedElement = Some 5, ref_lastUpdateTime = None\<rparr>"

section \<open>Properties of storage.js\<close>

subsection \<open>Reading, writing and removing items\<close>

lemma getItem_eq:
  "getItem S key d =
     Inr (if works S then (case stored S key of Some (Doc v) \<Rightarrow> v | _ \<Rightarrow> d) else d)"
  by (auto simp: getItem_def works_def stored_def localStorage_getItem_def
           split: option.splits payload.splits)

lemma history_key_inj [simp]: "history_key a = history_key b \<longleftrightarrow> a = b"
  by (simp add: history_key_def)

lemma history_key_not_index [simp]: "history_key a \<noteq> KEY_HISTORY_INDEX" "KEY_HISTORY_INDEX \<noteq> history_key a"
  by (simp_all add: history_key_def KEY_HISTORY_INDEX_def)

lemma history_key_not_slot [simp]:
  "history_key a \<noteq> KEY_SCHEDULE" "history_key a \<noteq> KEY_DATE"
  "KEY_SCHEDULE \<noteq> history_key a" "KEY_DATE \<noteq> history_key a"
  "KEY_HISTORY_INDEX \<noteq> KEY_SCHEDULE" "KEY_HISTORY_INDEX \<noteq> KEY_DATE" "KEY_SCHEDULE \<noteq> KEY_DATE"
  "KEY_SCHEDULE \<noteq> KEY_HISTORY_INDEX" "KEY_DATE \<noteq> KEY_HISTORY_INDEX" "KEY_DATE \<noteq> KEY_SCHEDULE"
  by (simp_all add: history_key_def KEY_SCHEDULE_def KEY_DATE_def KEY_HISTORY_INDEX_def)

lemma setItem_works:
  "works S \<Longrightarrow> quota_ok (browser S) key (Doc v) \<Longrightarrow>
   setItem S key v = (True, S\<lparr>browser := (browser S)\<lparr>items := (items (browser S))(key \<mapsto> Doc v)\<rparr>\<rparr>)"
  by (simp add: setItem_def works_def localStorage_setItem_def JSON_stringify_def)

lemma setItem_cases:
  "setItem S key v = (if works S \<and> quota_ok (browser S) key (Doc v)
     then (True, S\<lparr>browser := (browser S)\<lparr>items := (items (browser S))(key \<mapsto> Doc v)\<rparr>\<rparr>)
     else (False, S))"
  by (simp add: setItem_def works_def localStorage_setItem_def JSON_stringify_def)

lemma removeItem_cases:
  "removeItem S key = (if works S
     then (True, S\<lparr>browser := (browser S)\<lparr>items := (items (browser S))(key := None)\<rparr>\<rparr>)
     else (False, S))"
  by (simp add: removeItem_def works_def localStorage_removeItem_def)

lemma works_setItem [simp]: "works (snd (setItem S k v)) = works S"
  by (simp add: setItem_cases) (simp add: works_def)

lemma works_removeItem [simp]: "works (snd (removeItem S k)) = works S"
  by (simp add: removeItem_cases) (simp add: works_def)

lemma admits_setItem [simp]: "admits (snd (setItem S k v)) = admits S"
  by (simp add: setItem_cases) (simp add: admits_def fun_eq_iff)

lemma admits_removeItem [simp]: "admits (snd (removeItem S k)) = admits S"
  by (simp add: removeItem_cases) (simp add: admits_def fun_eq_iff)

lemma stored_setItem:
  "stored (snd (setItem S k v)) k' =
     (if works S \<and> admits S k v \<and> k' = k then Some (Doc v) else stored S k')"
  by (auto simp: setItem_cases stored_def admits_def)

lemma fst_setItem: "fst (setItem S k v) = (works S \<and> admits S k v)"
  by (simp add: setItem_cases admits_def)

lemma stored_removeItem:
  "stored (snd (removeItem S k)) k' = (if works S \<and> k' = k then None else stored S k')"
  by (auto simp: removeItem_cases stored_def)

lemma works_purge [simp]: "works (purge rs S) = works S"
  unfolding purge_def by (induction rs arbitrary: S) simp_all

lemma admits_purge [simp]: "admits (purge rs S) = admits S"
  unfolding purge_def by (induction rs arbitrary: S) simp_all

lemma stored_purge:
  "stored (purge rs S) k =
     (if works S \<and> k \<in> (\<lambda>x. history_key (js_toString x)) ` set rs then None else stored S k)"
  unfolding purge_def
  by (induction rs arbitrary: S) (auto simp: stored_removeItem)

lemma updateHistoryIndex_array:
  assumes "getItem S KEY_HISTORY_INDEX (JArr []) = Inr (JArr xs)"
  shows "updateHistoryIndex S k =
     (Inr (), if JStr k \<in> set xs then S
              else snd (setItem (purge (drop 90 (JStr k # xs)) S) KEY_HISTORY_INDEX
                         (JArr (take 90 (JStr k # xs)))))"
  using assms by (simp add: updateHistoryIndex_def Let_def purge_def)

lemma index_after_setItem_history:
  "getItem (snd (setItem S (history_key k) e)) KEY_HISTORY_INDEX d = getItem S KEY_HISTORY_INDEX d"
  by (simp add: getItem_eq stored_setItem)

lemma snd_setItem_fail: "\<not> (works S \<and> admits S k v) \<Longrightarrow> snd (setItem S k v) = S"
  by (auto simp: setItem_cases admits_def)

lemma saveToHistory_array:
  assumes "getItem S KEY_HISTORY_INDEX (JArr []) = Inr (JArr xs)"
  shows "saveToHistory now S data dk =
     (let key = used_key now dk; e = history_entry now data key; S1 = snd (setItem S (history_key key) e) in
      if works S \<and> admits S (history_key key) e
      then (Inr True,
            if JStr key \<in> set xs then S1
            else snd (setItem (purge (drop 90 (JStr key # xs)) S1) KEY_HISTORY_INDEX
                         (JArr (take 90 (JStr key # xs)))))
      else (Inr False, S))"
proof -
  have idx: "getItem (snd (setItem S (history_key k) e)) KEY_HISTORY_INDEX (JArr []) = Inr (JArr xs)" for k e
    using assms by (simp add: index_after_setItem_history)
  show ?thesis
    unfolding saveToHistory_def used_key_def [symmetric] Let_def case_prod_beta
    by (simp add: fst_setItem snd_setItem_fail updateHistoryIndex_array [OF idx])
qed

lemma index_step:
  assumes "getHistoryDates S = Inr (JArr (map JStr ks))"
  shows "\<exists>ks'. getHistoryDates (snd (saveToHistory now S data dk)) = Inr (JArr (map JStr ks'))
            \<and> (length ks \<le> 90 \<longrightarrow> length ks' \<le> 90) \<and> (distinct ks \<longrightarrow> distinct ks')"
proof -
  let ?k = "used_key now dk"
  have idx: "getItem S KEY_HISTORY_INDEX (JArr []) = Inr (JArr (map JStr ks))"
    using assms by (simp add: getHistoryDates_def)
  then have cur: "(if works S then (case stored S KEY_HISTORY_INDEX of Some (Doc v) \<Rightarrow> v | _ \<Rightarrow> JArr []) else JArr [])
       = JArr (map JStr ks)"
    by (simp add: getItem_eq)
  define grows where "grows \<longleftrightarrow> works S \<and> admits S (history_key ?k) (history_entry now data ?k)
                \<and> ?k \<notin> set ks \<and> admits S KEY_HISTORY_INDEX (JArr (take 90 (JStr ?k # map JStr ks)))"
  have res: "getHistoryDates (snd (saveToHistory now S data dk)) =
      Inr (JArr (map JStr (if grows then take 90 (?k # ks) else ks)))"
    using cur unfolding saveToHistory_array [OF idx] Let_def grows_def
    by (auto simp: getHistoryDates_def getItem_eq stored_setItem stored_purge take_map split: if_splits)
  show ?thesis
  proof (cases grows)
    case True
    then have "?k \<notin> set ks" by (simp add: grows_def)
    then have "distinct ks \<Longrightarrow> distinct (take 90 (?k # ks))"
      by (intro distinct_take) auto
    moreover have "length (take 90 (?k # ks)) \<le> 90" by simp
    moreover have "getHistoryDates (snd (saveToHistory now S data dk)) = Inr (JArr (map JStr (take 90 (?k # ks))))"
      using res True by simp
    ultimately show ?thesis by blast
  next
    case False
    then have "getHistoryDates (snd (saveToHistory now S data dk)) = Inr (JArr (map JStr ks))"
      using res by simp
    then show ?thesis by blast
  qed
qed

lemma index_saveAll:
  assumes "getHistoryDates S = Inr (JArr (map JStr ks))" "length ks \<le> 90"
  shows "\<exists>ks'. getHistoryDates (saveAll S calls) = Inr (JArr (map JStr ks')) \<and> length ks' \<le> 90"
  using assms
proof (induction calls arbitrary: S ks)
  case Nil
  then show ?case by auto
next
  case (Cons c calls)
  obtain now data dk where c: "c = (now, data, dk)" by (cases c)
  obtain ks' where "getHistoryDates (snd (saveToHistory now S data dk)) = Inr (JArr (map JStr ks'))"
     "length ks' \<le> 90"
    using index_step [OF Cons.prems(1), of now data dk] Cons.prems(2) by blast
  then show ?case using Cons.IH [of _ ks'] by (simp add: c)
qed

lemma evict_step:
  assumes idx: "getHistoryDates S = Inr (JArr (map JStr ks))"
    and len: "length ks = 90"
    and fresh: "used_key now dk \<notin> set ks"
    and ok: "works S"
    and w1: "admits S (history_key (used_key now dk)) (history_entry now data (used_key now dk))"
    and w2: "admits S KEY_HISTORY_INDEX (JArr (map JStr (used_key now dk # butlast ks)))"
  shows "fst (saveToHistory now S data dk) = Inr True
       \<and> getHistoryDates (snd (saveToHistory now S data dk)) = Inr (JArr (map JStr (used_key now dk # butlast ks)))
       \<and> stored (snd (saveToHistory now S data dk)) (history_key (last ks)) = None
       \<and> loadFromHistory (snd (saveToHistory now S data dk)) (last ks) = Inr JNull
       \<and> loadFromHistory (snd (saveToHistory now S data dk)) (used_key now dk)
             = Inr (history_entry now data (used_key now dk))"
proof -
  let ?k = "used_key now dk"
  have i: "getItem S KEY_HISTORY_INDEX (JArr []) = Inr (JArr (map JStr ks))"
    using idx by (simp add: getHistoryDates_def)
  have ne: "ks \<noteq> []" using len by auto
  have tk: "take 90 (JStr ?k # map JStr ks) = map JStr (?k # butlast ks)"
    using len by (simp add: take_map butlast_conv_take)
  have "drop 89 (butlast ks @ [last ks]) = [last ks]"
    using len by simp
  then have "drop 89 ks = [last ks]"
    using ne by simp
  then have dr: "drop 90 (JStr ?k # map JStr ks) = [JStr (last ks)]"
    by (simp add: drop_map)
  have neq: "last ks \<noteq> ?k" using fresh ne last_in_set by metis
  have nin: "JStr ?k \<notin> set (map JStr ks)" using fresh by auto
  show ?thesis
    unfolding saveToHistory_array [OF i] Let_def tk dr
    using ok w1 w2 nin neq
    by (simp add: getHistoryDates_def loadFromHistory_def getItem_eq stored_setItem stored_purge)
qed

lemma take_append_take: "take n (xs @ take n ys) = take n (xs @ ys)"
  by (simp add: min_def)

lemma works_updateHistoryIndex [simp]: "works (snd (updateHistoryIndex S k)) = works S"
  unfolding updateHistoryIndex_def getItem_eq purge_def [symmetric]
  by (simp add: Let_def split: json.split)

lemma admits_updateHistoryIndex [simp]: "admits (snd (updateHistoryIndex S k)) = admits S"
  unfolding updateHistoryIndex_def getItem_eq purge_def [symmetric]
  by (simp add: Let_def split: json.split)

lemma snd_saveToHistory:
  "snd (saveToHistory now S data dk) =
     (if works S \<and> admits S (history_key (used_key now dk)) (history_entry now data (used_key now dk))
      then snd (updateHistoryIndex (snd (setItem S (history_key (used_key now dk))
                  (history_entry now data (used_key now dk)))) (used_key now dk))
      else S)"
  unfolding saveToHistory_def used_key_def [symmetric] Let_def case_prod_beta
  by (simp add: fst_setItem snd_setItem_fail split: sum.split prod.split)

lemma saveAll_append: "saveAll S (cs @ ds) = saveAll (saveAll S cs) ds"
  by (induction S cs rule: saveAll.induct) simp_all

lemma works_saveToHistory [simp]: "works (snd (saveToHistory now S data dk)) = works S"
  by (simp add: snd_saveToHistory)

lemma admits_saveToHistory [simp]: "admits (snd (saveToHistory now S data dk)) = admits S"
  by (simp add: snd_saveToHistory)

lemma works_saveAll [simp]: "works (saveAll S calls) = works S"
  by (induction S calls rule: saveAll.induct) simp_all

lemma admits_saveAll [simp]: "admits (saveAll S calls) = admits S"
  by (induction S calls rule: saveAll.induct) simp_all

lemma fresh_step:
  assumes "getHistoryDates S = Inr (JArr (map JStr ks))" "works S" "\<forall>k v. admits S k v"
    "used_key now dk \<notin> set ks"
  shows "getHistoryDates (snd (saveToHistory now S data dk)) = Inr (JArr (map JStr (take 90 (used_key now dk # ks))))"
proof -
  have idx: "getItem S KEY_HISTORY_INDEX (JArr []) = Inr (JArr (map JStr ks))"
    using assms(1) by (simp add: getHistoryDates_def)
  have nin: "JStr (used_key now dk) \<notin> set (map JStr ks)" using assms(4) by auto
  show ?thesis
    unfolding saveToHistory_array [OF idx] Let_def
    using assms(2,3) nin
    by (simp add: getHistoryDates_def getItem_eq stored_setItem take_map)
qed

lemma saveAll_fresh_keys:
  assumes "getHistoryDates S = Inr (JArr (map JStr ks))" "works S" "\<forall>k v. admits S k v"
    "distinct (map call_key calls)" "set (map call_key calls) \<inter> set ks = {}" "length ks \<le> 90"
  shows "getHistoryDates (saveAll S calls) = Inr (JArr (map JStr (take 90 (rev (map call_key calls) @ ks))))"
  using assms
proof (induction calls arbitrary: S ks)
  case Nil
  then show ?case by simp
next
  case (Cons c calls)
  obtain now data dk where c: "c = (now, data, dk)" by (cases c)
  let ?k = "used_key now dk"
  let ?S = "snd (saveToHistory now S data dk)"
  have k: "?k \<notin> set ks" using Cons.prems(5) by (auto simp: c)
  have 1: "getHistoryDates ?S = Inr (JArr (map JStr (take 90 (?k # ks))))"
    using fresh_step [OF Cons.prems(1-3) k] .
  have 2: "set (map call_key calls) \<inter> set (take 90 (?k # ks)) = {}"
    using Cons.prems(4,5) by (auto simp: c dest!: in_set_takeD)
  have "getHistoryDates (saveAll ?S calls) =
      Inr (JArr (map JStr (take 90 (rev (map call_key calls) @ take 90 (?k # ks)))))"
    using Cons.IH [OF 1 _ _ _ 2] Cons.prems(2,3,4) by simp
  then have "getHistoryDates (saveAll ?S calls) =
      Inr (JArr (map JStr (take 90 (rev (map call_key calls) @ (?k # ks)))))"
    unfolding take_append_take .
  then show ?case by (simp add: c)
qed

text \<open>
  Claim C3 (history cap). Starting from a store whose history index lists at most 90
  date keys, the index lists at most 90 date keys after any run of \<^verbatim>\<open>saveToHistory\<close>
  calls, whatever the keys, the snapshots and the outcome of each write. When the index
  holds 90 keys and a save under a key that is not among them goes through, the new key
  is put in front, the oldest key (the last of the index) is dropped from the index, its
  record is removed from the store, and \<^verbatim>\<open>loadFromHistory\<close> of the dropped key
  returns \<^verbatim>\<open>null\<close>.
\<close>


theorem history_cap:
  assumes "getHistoryDates S = Inr (JArr (map JStr ks))" and "length ks \<le> 90"
  shows "(\<exists>ks'. getHistoryDates (saveAll S calls) = Inr (JArr (map JStr ks')) \<and> length ks' \<le> 90)
       \<and> (works S \<and> length ks = 90 \<and> used_key now dk \<notin> set ks
            \<and> admits S (history_key (used_key now dk)) (history_entry now scheduleData (used_key now dk))
            \<and> admits S KEY_HISTORY_INDEX (JArr (map JStr (used_key now dk # butlast ks)))
          \<longrightarrow> fst (saveToHistory now S scheduleData dk) = Inr True
            \<and> getHistoryDates (snd (saveToHistory now S scheduleData dk))
                  = Inr (JArr (map JStr (used_key now dk # butlast ks)))
            \<and> stored (snd (saveToHistory now S scheduleData dk)) (history_key (last ks)) = None
            \<and> loadFromHistory (snd (saveToHistory now S scheduleData dk)) (last ks) = Inr JNull)"
proof (intro conjI impI)
  show "\<exists>ks'. getHistoryDates (saveAll S calls) = Inr (JArr (map JStr ks')) \<and> length ks' \<le> 90"
    using index_saveAll [OF assms] .
next
  assume h: "works S \<and> length ks = 90 \<and> used_key now dk \<notin> set ks
            \<and> admits S (history_key (used_key now dk)) (history_entry now scheduleData (used_key now dk))
            \<and> admits S KEY_HISTORY_INDEX (JArr (map JStr (used_key now dk # butlast ks)))"
  note ev = evict_step [OF assms(1), of now dk scheduleData]
  show "fst (saveToHistory now S scheduleData dk) = Inr True" using ev h by blast
  show "getHistoryDates (snd (saveToHistory now S scheduleData dk))
                  = Inr (JArr (map JStr (used_key now dk # butlast ks)))" using ev h by blast
  show "stored (snd (saveToHistory now S scheduleData dk)) (history_key (last ks)) = None" using ev h by blast
  show "loadFromHistory (snd (saveToHistory now S scheduleData dk)) (last ks) = Inr JNull" using ev h by blast
qed

text \<open>
  The same from an empty index: after 91 saves under pairwise distinct keys, every write
  going through, the index holds the 90 most recent keys, most recent first, and the
  record of the first key is gone.
\<close>

lemma ninety_one_dates:
  assumes "works S" "\<forall>k v. admits S k v" "getHistoryDates S = Inr (JArr [])"
    and "distinct (map call_key calls)" "length calls = 91"
  shows "getHistoryDates (saveAll S calls) = Inr (JArr (map JStr (take 90 (rev (map call_key calls)))))
       \<and> length (take 90 (rev (map call_key calls))) = 90
       \<and> call_key (hd calls) \<notin> set (take 90 (rev (map call_key calls)))
       \<and> loadFromHistory (saveAll S calls) (call_key (hd calls)) = Inr JNull"
proof -
  obtain cs c where calls: "calls = cs @ [c]" "length cs = 90"
    using assms(5) by (cases calls rule: rev_cases) auto
  obtain now data dk where c: "c = (now, data, dk)" by (cases c)
  define ks where "ks = rev (map call_key cs)"
  define k where "k = used_key now dk"
  let ?S = "saveAll S cs"
  have d: "distinct ks" "k \<notin> set ks"
    using assms(4) by (auto simp: calls c ks_def k_def)
  have idx: "getHistoryDates ?S = Inr (JArr (map JStr ks))"
    using saveAll_fresh_keys [of S "[]" cs] assms(1-3) d(1) calls(2) by (simp add: ks_def)
  have len: "length ks = 90" using calls(2) by (simp add: ks_def)
  then have ne: "ks \<noteq> []" by auto
  have "cs \<noteq> []" using calls(2) by auto
  then have hd: "call_key (hd calls) = last ks"
    by (simp add: calls ks_def last_rev hd_map)
  have all: "rev (map call_key calls) = k # ks"
    by (simp add: calls c ks_def k_def)
  have "take 89 ks = butlast ks" using len by (simp add: butlast_conv_take)
  then have tk: "take 90 (rev (map call_key calls)) = k # butlast ks"
    unfolding all by simp
  have fin: "saveAll S calls = snd (saveToHistory now ?S data dk)"
    by (simp add: calls c saveAll_append)
  have ev: "getHistoryDates (snd (saveToHistory now ?S data dk)) = Inr (JArr (map JStr (k # butlast ks)))
       \<and> loadFromHistory (snd (saveToHistory now ?S data dk)) (last ks) = Inr JNull"
    using evict_step [OF idx len, of now dk data] d(2) assms(1,2) by (simp add: k_def)
  have "distinct (butlast ks @ [last ks])" using d(1) ne by simp
  then have "last ks \<notin> set (butlast ks)" by simp
  moreover have "last ks \<noteq> k" using d(2) ne last_in_set by metis
  ultimately have out: "last ks \<notin> set (k # butlast ks)" by simp
  have "length (k # butlast ks) = 90" using len by simp
  then show ?thesis
    unfolding tk hd fin using ev out by blast
qed

theorem history_cap_witness:
  "getHistoryDates example_full_store = Inr (JArr (map JStr example_keys))
   \<and> length example_keys = 90
   \<and> used_key example_day None = ''2026-11-02''
   \<and> ''2026-11-02'' \<notin> set example_keys
   \<and> works example_full_store
   \<and> stored example_full_store (history_key (last example_keys)) = Some (Doc (JObj []))
   \<and> (\<exists>ks'. getHistoryDates (saveAll example_full_store [(example_day, JObj [], None), (example_day, JNull, Some ''2026-01-01'')])
             = Inr (JArr (map JStr ks')) \<and> length ks' \<le> 90)
   \<and> getHistoryDates (snd (saveToHistory example_day example_full_store (JObj []) None))
       = Inr (JArr (map JStr (''2026-11-02'' # butlast example_keys)))
   \<and> loadFromHistory (snd (saveToHistory example_day example_full_store (JObj []) None)) (last example_keys)
       = Inr JNull"
proof -
  have h1: "getHistoryDates example_full_store = Inr (JArr (map JStr example_keys))"
    by (simp add: getHistoryDates_def getItem_eq works_def stored_def example_full_store_def)
  have h2: "length example_keys = 90" by (simp add: example_keys_def)
  have h3: "used_key example_day None = ''2026-11-02''"
    by (simp add: used_key_def getDateKey_def example_day_def padStart2_def show_nat.simps digit_char_def Let_def)
  have h4: "''2026-11-02'' \<notin> set example_keys" by (auto simp: example_keys_def)
  have h5: "works example_full_store" by (simp add: works_def example_full_store_def)
  have h6: "stored example_full_store (history_key (last example_keys)) = Some (Doc (JObj []))"
    by (simp add: stored_def example_full_store_def)
  have h7: "admits example_full_store k v" for k v by (simp add: admits_def example_full_store_def)
  from h2 have h2': "length example_keys \<le> 90" by simp
  show ?thesis
    using history_cap [OF h1 h2', of "[(example_day, JObj [], None), (example_day, JNull, Some ''2026-01-01'')]"
        example_day None "JObj []"] h1 h2 h4 h5 h6 h7
    unfolding h3 by blast
qed

text \<open>
  Claim C7 (reads never raise). \<^verbatim>\<open>getItem(key, defaultValue)\<close> always returns a
  value: the decoded item when the store is usable, the key is present and its text
  parses; the default when the key is absent, when the text does not parse (the empty
  text included), when the cached availability flag is off, and when the browser denies
  the access.
\<close>


theorem getItem_never_raises:
  "getItem S key defaultValue =
     Inr (if isAvailable S \<and> \<not> denied (browser S)
          then (case items (browser S) key of
                  None \<Rightarrow> defaultValue
                | Some (Garbage s) \<Rightarrow> defaultValue
                | Some (Doc v) \<Rightarrow> v)
          else defaultValue)"
  by (auto simp: getItem_def localStorage_getItem_def split: option.splits payload.splits)

theorem getItem_never_raises_witness:
  "getItem example_store ''toolLastUpdateTime'' JNull = Inr (JStr ''Nov 2, 2026'')
   \<and> getItem example_store ''toolCheckoutDate'' (JNum 7) = Inr (JNum 7)
   \<and> getItem example_store ''toolInventory'' (JNum 7) = Inr (JNum 7)
   \<and> getItem example_store ''blank'' (JNum 7) = Inr (JNum 7)
   \<and> getItem (example_store\<lparr>isAvailable := False\<rparr>) ''toolLastUpdateTime'' (JNum 7) = Inr (JNum 7)
   \<and> getItem (example_store\<lparr>browser := (browser example_store)\<lparr>denied := True\<rparr>\<rparr>)
         ''toolLastUpdateTime'' (JNum 7) = Inr (JNum 7)"
  unfolding getItem_never_raises by (simp add: example_store_def)

lemma map_of_set_prop: "map_of (set_prop k v fs) = (map_of fs)(k \<mapsto> v)"
  by (induction fs) (auto simp: fun_eq_iff)

lemma works_saveSchedule [simp]: "works (snd (saveSchedule now S data)) = works S"
  by (simp add: saveSchedule_def case_prod_beta)

lemma admits_saveSchedule [simp]: "admits (snd (saveSchedule now S data)) = admits S"
  by (simp add: saveSchedule_def case_prod_beta)

lemma stored_saveSchedule:
  "stored (snd (saveSchedule now S data)) k =
     (if works S \<and> admits S KEY_SCHEDULE data
      then (if k = KEY_DATE \<and> admits S KEY_DATE (JStr (toDateString now)) then Some (Doc (JStr (toDateString now)))
            else if k = KEY_SCHEDULE then Some (Doc data) else stored S k)
      else stored S k)"
  by (simp add: saveSchedule_def case_prod_beta fst_setItem stored_setItem getCurrentDateString_def)

lemma stored_saveToHistory_other:
  assumes "getHistoryDates S = Inr (JArr (map JStr ks))"
    and "k \<noteq> KEY_HISTORY_INDEX" "\<forall>d. k \<noteq> history_key d"
  shows "stored (snd (saveToHistory now S data dk)) k = stored S k"
proof -
  have idx: "getItem S KEY_HISTORY_INDEX (JArr []) = Inr (JArr (map JStr ks))"
    using assms(1) by (simp add: getHistoryDates_def)
  show ?thesis
    unfolding saveToHistory_array [OF idx] Let_def
    using assms(2,3) by (auto simp: stored_setItem stored_purge)
qed

lemma entry_saveToHistory:
  assumes "getHistoryDates S = Inr (JArr (map JStr ks))" "works S"
    "admits S (history_key (used_key now dk)) (history_entry now data (used_key now dk))"
  shows "stored (snd (saveToHistory now S data dk)) (history_key (used_key now dk))
           = Some (Doc (history_entry now data (used_key now dk)))"
proof -
  have idx: "getItem S KEY_HISTORY_INDEX (JArr []) = Inr (JArr (map JStr ks))"
    using assms(1) by (simp add: getHistoryDates_def)
  have "JStr (used_key now dk) \<notin> set (map JStr ks) \<Longrightarrow>
        history_key (used_key now dk) \<notin> (\<lambda>x. history_key (js_toString x)) ` set (drop 90 (JStr (used_key now dk) # map JStr ks))"
    by (auto dest!: in_set_dropD)
  then show ?thesis
    unfolding saveToHistory_array [OF idx] Let_def
    using assms(2,3) by (simp add: stored_setItem stored_purge)
qed

text \<open>
  Claim C4 (staleness guard). A snapshot saved with \<^verbatim>\<open>saveSchedule\<close> and
  \<^verbatim>\<open>saveToHistory\<close> on day \<open>D\<close> is returned by \<^verbatim>\<open>loadSchedule\<close> on day \<open>D\<close>;
  on a day whose date string differs \<^verbatim>\<open>loadSchedule\<close> returns \<^verbatim>\<open>null\<close>, while
  \<^verbatim>\<open>loadFromHistory\<close> with the key of \<open>D\<close> still returns the archived entry. The
  entry of a snapshot object is an object with every field of the snapshot under its
  name and with its value, besides the two stamps: \<^verbatim>\<open>savedAt\<close> is the time of the save
  and \<^verbatim>\<open>dateKey\<close> is the key. In any store, \<^verbatim>\<open>loadSchedule\<close> returns something only
  if the stored date marker is today's date string.
\<close>

theorem staleness_guard:
  assumes "works S"
    and "admits S KEY_SCHEDULE scheduleData"
    and "admits S KEY_DATE (JStr (toDateString D))"
    and "admits S (history_key (getDateKey D None)) (history_entry D scheduleData (getDateKey D None))"
    and "getHistoryDates S = Inr (JArr (map JStr ks))"
    and "toDateString later \<noteq> toDateString D"
  shows "fst (saveSchedule D S scheduleData) = True
       \<and> loadSchedule D (snd (saveToHistory D (snd (saveSchedule D S scheduleData)) scheduleData None))
            = Inr scheduleData
       \<and> loadSchedule later (snd (saveToHistory D (snd (saveSchedule D S scheduleData)) scheduleData None))
            = Inr JNull
       \<and> loadFromHistory (snd (saveToHistory D (snd (saveSchedule D S scheduleData)) scheduleData None))
            (getDateKey D None) = Inr (history_entry D scheduleData (getDateKey D None))
       \<and> (\<forall>fs. scheduleData = JObj fs \<longrightarrow>
            (\<exists>entry.
               loadFromHistory (snd (saveToHistory D (snd (saveSchedule D S scheduleData)) scheduleData None))
                 (getDateKey D None) = Inr (JObj entry)
               \<and> get_prop (JObj entry) ''savedAt'' = Some (JStr (toISOString D))
               \<and> get_prop (JObj entry) ''dateKey'' = Some (JStr (getDateKey D None))
               \<and> (\<forall>f. f \<noteq> ''savedAt'' \<and> f \<noteq> ''dateKey'' \<longrightarrow> get_prop (JObj entry) f = get_prop scheduleData f)))
       \<and> (\<forall>now T v. loadSchedule now T = Inr v \<and> v \<noteq> JNull \<longrightarrow>
            getItem T KEY_DATE JNull = Inr (JStr (toDateString now)))"
proof -
  let ?S1 = "snd (saveSchedule D S scheduleData)"
  let ?S2 = "snd (saveToHistory D ?S1 scheduleData None)"
  have key: "used_key D None = getDateKey D None" by (simp add: used_key_def)
  have idx1: "getHistoryDates ?S1 = Inr (JArr (map JStr ks))"
    using assms(1,5) by (simp add: getHistoryDates_def getItem_eq stored_saveSchedule)
  have slot: "stored ?S2 KEY_SCHEDULE = Some (Doc scheduleData)"
    "stored ?S2 KEY_DATE = Some (Doc (JStr (toDateString D)))"
    using assms(1-3) by (simp_all add: stored_saveToHistory_other [OF idx1] stored_saveSchedule)
  have entry: "stored ?S2 (history_key (getDateKey D None))
       = Some (Doc (history_entry D scheduleData (getDateKey D None)))"
    using entry_saveToHistory [OF idx1, of D None scheduleData] assms(1,4) by (simp add: key)
  have w: "works ?S2" using assms(1) by simp
  have 1: "fst (saveSchedule D S scheduleData) = True"
    using assms(1,2) by (simp add: saveSchedule_def case_prod_beta fst_setItem)
  have 2: "loadSchedule D ?S2 = Inr scheduleData"
    using w slot by (simp add: loadSchedule_def isToday_def getItem_eq getCurrentDateString_def)
  have 3: "loadSchedule later ?S2 = Inr JNull"
    using w slot assms(6) by (simp add: loadSchedule_def isToday_def getItem_eq getCurrentDateString_def)
  have 4: "loadFromHistory ?S2 (getDateKey D None) = Inr (history_entry D scheduleData (getDateKey D None))"
    using w entry by (simp add: loadFromHistory_def getItem_eq)
  have 5: "\<forall>fs. scheduleData = JObj fs \<longrightarrow>
            (\<exists>entry.
               loadFromHistory ?S2 (getDateKey D None) = Inr (JObj entry)
               \<and> get_prop (JObj entry) ''savedAt'' = Some (JStr (toISOString D))
               \<and> get_prop (JObj entry) ''dateKey'' = Some (JStr (getDateKey D None))
               \<and> (\<forall>f. f \<noteq> ''savedAt'' \<and> f \<noteq> ''dateKey'' \<longrightarrow> get_prop (JObj entry) f = get_prop scheduleData f))"
  proof (intro allI impI)
    fix fs
    assume o: "scheduleData = JObj fs"
    let ?e = "set_prop ''dateKey'' (JStr (getDateKey D None)) (set_prop ''savedAt'' (JStr (toISOString D)) fs)"
    have "loadFromHistory ?S2 (getDateKey D None) = Inr (JObj ?e)"
      using 4 by (simp add: history_entry_def o)
    moreover have "get_prop (JObj ?e) ''savedAt'' = Some (JStr (toISOString D))"
      "get_prop (JObj ?e) ''dateKey'' = Some (JStr (getDateKey D None))"
      "\<forall>f. f \<noteq> ''savedAt'' \<and> f \<noteq> ''dateKey'' \<longrightarrow> get_prop (JObj ?e) f = get_prop scheduleData f"
      by (simp_all add: map_of_set_prop o)
    ultimately show "\<exists>entry.
               loadFromHistory ?S2 (getDateKey D None) = Inr (JObj entry)
               \<and> get_prop (JObj entry) ''savedAt'' = Some (JStr (toISOString D))
               \<and> get_prop (JObj entry) ''dateKey'' = Some (JStr (getDateKey D None))
               \<and> (\<forall>f. f \<noteq> ''savedAt'' \<and> f \<noteq> ''dateKey'' \<longrightarrow> get_prop (JObj entry) f = get_prop scheduleData f)"
      by blast
  qed
  have 6: "\<forall>now T v. loadSchedule now T = Inr v \<and> v \<noteq> JNull \<longrightarrow>
            getItem T KEY_DATE JNull = Inr (JStr (toDateString now))"
    by (auto simp: loadSchedule_def isToday_def getItem_eq getCurrentDateString_def split: if_splits)
  show ?thesis using 1 2 3 4 5 6 by blast
qed

theorem staleness_guard_witness:
  "works example_empty_store
   \<and> getHistoryDates example_empty_store = Inr (JArr (map JStr []))
   \<and> toDateString example_next_day \<noteq> toDateString example_day
   \<and> getDateKey example_day None = ''2026-11-02''
   \<and> loadSchedule example_day
         (snd (saveToHistory example_day (snd (saveSchedule example_day example_empty_store example_snapshot))
                 example_snapshot None)) = Inr example_snapshot
   \<and> loadSchedule example_next_day
         (snd (saveToHistory example_day (snd (saveSchedule example_day example_empty_store example_snapshot))
                 example_snapshot None)) = Inr JNull
   \<and> loadFromHistory
         (snd (saveToHistory example_day (snd (saveSchedule example_day example_empty_store example_snapshot))
                 example_snapshot None)) ''2026-11-02''
       = Inr (JObj [(''date'', JStr ''2026-11-02T08:00:00.000Z''),
            (''inventory'', JObj [(''hammers'', JArr [JObj [(''name'', JStr ''Claw Hammer''), (''qty'', JNum 8), (''class'', JStr ''hammer'')]])]),
            (''checkouts'', JArr [JObj [(''crew'', JStr ''2''), (''tools'', JArr [JObj [(''tool'', JStr ''Claw Hammer''), (''number'', JStr ''3''), (''time'', JStr ''08:00 AM'')]])]]),
            (''broken'', JArr []),
            (''savedAt'', JStr ''2026-11-02T08:00:00.000Z''),
            (''dateKey'', JStr ''2026-11-02'')])"
proof -
  have h1: "works example_empty_store" by (simp add: works_def example_empty_store_def)
  have h2: "getHistoryDates example_empty_store = Inr (JArr (map JStr []))"
    by (simp add: getHistoryDates_def getItem_eq works_def stored_def example_empty_store_def)
  have h3: "toDateString example_next_day \<noteq> toDateString example_day"
    by (simp add: example_day_def example_next_day_def)
  have h4: "getDateKey example_day None = ''2026-11-02''"
    by (simp add: getDateKey_def example_day_def padStart2_def show_nat.simps digit_char_def Let_def)
  have h5: "admits example_empty_store k v" for k v by (simp add: admits_def example_empty_store_def)
  have e: "history_entry example_day example_snapshot ''2026-11-02''
       = JObj [(''date'', JStr ''2026-11-02T08:00:00.000Z''),
            (''inventory'', JObj [(''hammers'', JArr [JObj [(''name'', JStr ''Claw Hammer''), (''qty'', JNum 8), (''class'', JStr ''hammer'')]])]),
            (''checkouts'', JArr [JObj [(''crew'', JStr ''2''), (''tools'', JArr [JObj [(''tool'', JStr ''Claw Hammer''), (''number'', JStr ''3''), (''time'', JStr ''08:00 AM'')]])]]),
            (''broken'', JArr []),
            (''savedAt'', JStr ''2026-11-02T08:00:00.000Z''),
            (''dateKey'', JStr ''2026-11-02'')]"
    by (simp add: history_entry_def example_snapshot_def example_day_def)
  show ?thesis
    using staleness_guard [OF h1 h5 h5 h5 h2 h3, of example_snapshot] h1 h2 h3 h4
    unfolding h4 e by blast
qed

text \<open>
  Claim C10 (no duplicate index entries). If the index lists pairwise distinct date keys,
  it still does after \<^verbatim>\<open>saveToHistory\<close>. Saving under a key the index already lists
  overwrites that date's record and changes nothing else in the store: the index keeps
  its entries and their order.
\<close>


theorem history_index_no_duplicates:
  assumes "getHistoryDates S = Inr (JArr (map JStr ks))" and "distinct ks"
  shows "(\<exists>ks'. getHistoryDates (snd (saveToHistory now S scheduleData dk)) = Inr (JArr (map JStr ks'))
              \<and> distinct ks')
       \<and> (works S \<and> used_key now dk \<in> set ks
            \<and> admits S (history_key (used_key now dk)) (history_entry now scheduleData (used_key now dk))
          \<longrightarrow> fst (saveToHistory now S scheduleData dk) = Inr True
            \<and> getHistoryDates (snd (saveToHistory now S scheduleData dk)) = Inr (JArr (map JStr ks))
            \<and> loadFromHistory (snd (saveToHistory now S scheduleData dk)) (used_key now dk)
                  = Inr (history_entry now scheduleData (used_key now dk))
            \<and> (\<forall>k. k \<noteq> history_key (used_key now dk) \<longrightarrow>
                  stored (snd (saveToHistory now S scheduleData dk)) k = stored S k))"
proof (intro conjI impI)
  show "\<exists>ks'. getHistoryDates (snd (saveToHistory now S scheduleData dk)) = Inr (JArr (map JStr ks'))
              \<and> distinct ks'"
    using index_step [OF assms(1), of now scheduleData dk] assms(2) by blast
next
  assume h: "works S \<and> used_key now dk \<in> set ks
            \<and> admits S (history_key (used_key now dk)) (history_entry now scheduleData (used_key now dk))"
  have idx: "getItem S KEY_HISTORY_INDEX (JArr []) = Inr (JArr (map JStr ks))"
    using assms(1) by (simp add: getHistoryDates_def)
  have mem: "JStr (used_key now dk) \<in> set (map JStr ks)" using h by simp
  have eq: "saveToHistory now S scheduleData dk =
      (Inr True, snd (setItem S (history_key (used_key now dk)) (history_entry now scheduleData (used_key now dk))))"
    unfolding saveToHistory_array [OF idx] Let_def using h mem by simp
  show "fst (saveToHistory now S scheduleData dk) = Inr True" by (simp add: eq)
  show "getHistoryDates (snd (saveToHistory now S scheduleData dk)) = Inr (JArr (map JStr ks))"
    using idx by (simp add: eq getHistoryDates_def index_after_setItem_history)
  show "loadFromHistory (snd (saveToHistory now S scheduleData dk)) (used_key now dk)
                  = Inr (history_entry now scheduleData (used_key now dk))"
    using h by (simp add: eq loadFromHistory_def getItem_eq stored_setItem)
  show "\<forall>k. k \<noteq> history_key (used_key now dk) \<longrightarrow>
                  stored (snd (saveToHistory now S scheduleData dk)) k = stored S k"
    by (simp add: eq stored_setItem)
qed

theorem history_index_no_duplicates_witness:
  "getHistoryDates example_full_store = Inr (JArr (map JStr example_keys))
   \<and> distinct example_keys
   \<and> works example_full_store
   \<and> used_key example_day (Some ''day-7'') = ''day-7''
   \<and> ''day-7'' \<in> set example_keys
   \<and> (\<exists>ks'. getHistoryDates (snd (saveToHistory example_day example_full_store example_snapshot (Some ''day-7'')))
               = Inr (JArr (map JStr ks')) \<and> distinct ks')
   \<and> getHistoryDates (snd (saveToHistory example_day example_full_store example_snapshot (Some ''day-7'')))
        = Inr (JArr (map JStr example_keys))
   \<and> loadFromHistory (snd (saveToHistory example_day example_full_store example_snapshot (Some ''day-7''))) ''day-7''
        = Inr (history_entry example_day example_snapshot ''day-7'')"
proof -
  have h1: "getHistoryDates example_full_store = Inr (JArr (map JStr example_keys))"
    by (simp add: getHistoryDates_def getItem_eq works_def stored_def example_full_store_def)
  have h2: "distinct example_keys" by code_simp
  have h3: "works example_full_store" by (simp add: works_def example_full_store_def)
  have h4: "used_key example_day (Some ''day-7'') = ''day-7''" by (simp add: used_key_def)
  have "show_nat 7 = ''7''" by (simp add: show_nat.simps digit_char_def)
  then have h5: "''day-7'' \<in> set example_keys" by (auto simp: example_keys_def intro!: image_eqI [of _ _ 7])
  have h6: "admits example_full_store k v" for k v by (simp add: admits_def example_full_store_def)
  show ?thesis
    using history_index_no_duplicates [OF h1 h2, of example_day example_snapshot "Some ''day-7''"] h1 h2 h3 h5 h6
    unfolding h4 by blast
qed

section \<open>Properties of state.js\<close>

lemma invoked_append [simp]: "invoked (xs @ ys) = invoked xs @ invoked ys"
  by (induction xs rule: invoked.induct) simp_all

lemma console_errors_append [simp]: "console_errors (xs @ ys) = console_errors xs @ console_errors ys"
  by (induction xs rule: console_errors.induct) simp_all

lemma invoked_notify:
  "invoked (concat (map (notify_one A) ls)) = map (\<lambda>l. (listener_id l, getState A)) ls"
  by (induction ls) (auto simp: notify_one_def split: option.splits)

lemma console_errors_notify:
  "console_errors (concat (map (notify_one A) ls)) = List.map_filter (\<lambda>l. listener_run l (getState A)) ls"
  by (induction ls) (auto simp: notify_one_def List.map_filter_simps split: option.splits)

lemma call_throws: "throws A w \<Longrightarrow> call A w = Inl TypeError"
  by (cases w) (simp_all add: state_addTool_def deepClone_def)

lemma call_notifies:
  "\<not> throws A w \<Longrightarrow> \<exists>B. listeners B = listeners A \<and> log B = log A \<and> call A w = Inr (notifyListeners B)"
  by (cases w)
     (auto simp: setState_def setInventory_def state_addTool_def toggleStack_def expandAllStacks_def
        collapseAllStacks_def setDraggedElement_def clearDraggedElement_def setLastUpdateTime_def
        reset_def Let_def deepClone_def split: property.splits intro!: exI [of _ "A\<lparr>state := _\<rparr>"])

lemma getState_notifyListeners [simp]: "getState (notifyListeners B) = getState B"
  by (simp add: getState_def notifyListeners_def)

lemma subscribe_all:
  "distinct (map listener_id ls) \<Longrightarrow> set (map listener_id ls) \<inter> set (map listener_id (listeners A)) = {} \<Longrightarrow>
   listeners (fold (\<lambda>l A. subscribe A l) ls A) = listeners A @ ls"
  by (induction ls arbitrary: A) (auto simp: subscribe_def)

text \<open>
  Claim C9 (writes notify observers in order). Every state write (\<^verbatim>\<open>setState\<close> and each
  operation built on it, and \<^verbatim>\<open>reset\<close>) calls every registered listener once, in
  registration order, with a copy of the state the write produced, and the calls are
  part of the write: they are in the log when the write returns. A listener that throws
  has its error written to the console and the listeners after it are still called; the
  write returns normally. Registration order is the order of the \<^verbatim>\<open>subscribe\<close> calls.
  The one call that does not write is \<^verbatim>\<open>addTool\<close> with a category the inventory only
  inherits from \<^verbatim>\<open>Object.prototype\<close>: it throws a TypeError before \<^verbatim>\<open>setState\<close> is
  reached and leaves the state object as it was.
\<close>

theorem writes_notify_in_order:
  "(throws A w \<longrightarrow> call A w = Inl TypeError \<and> perform A w = A)
   \<and> (\<not> throws A w \<longrightarrow>
        call A w = Inr (perform A w)
        \<and> log (perform A w) = log A @ new_events A w
        \<and> listeners (perform A w) = listeners A
        \<and> invoked (new_events A w) = map (\<lambda>l. (listener_id l, getState (perform A w))) (listeners A)
        \<and> console_errors (new_events A w)
             = List.map_filter (\<lambda>l. listener_run l (getState (perform A w))) (listeners A))
   \<and> (distinct (map listener_id ls) \<longrightarrow>
        listeners (fold (\<lambda>l A'. subscribe A' l) ls new_AppState) = ls)"
proof (intro conjI impI)
  assume t: "throws A w"
  show "call A w = Inl TypeError" using t by (rule call_throws)
  then show "perform A w = A" by (simp add: perform_def)
next
  assume n: "\<not> throws A w"
  obtain B where B: "listeners B = listeners A" "log B = log A" "call A w = Inr (notifyListeners B)"
    using call_notifies [OF n] by blast
  have p: "perform A w = notifyListeners B" by (simp add: perform_def B(3))
  have ev: "new_events A w = concat (map (notify_one B) (listeners A))"
    by (simp add: new_events_def p B notifyListeners_def)
  show "call A w = Inr (perform A w)" by (simp add: p B(3))
  show "log (perform A w) = log A @ new_events A w"
    by (simp add: ev) (simp add: p B notifyListeners_def)
  show "listeners (perform A w) = listeners A"
    by (simp add: p B notifyListeners_def)
  show "invoked (new_events A w) = map (\<lambda>l. (listener_id l, getState (perform A w))) (listeners A)"
    by (simp add: ev invoked_notify p)
  show "console_errors (new_events A w)
        = List.map_filter (\<lambda>l. listener_run l (getState (perform A w))) (listeners A)"
    by (simp add: ev console_errors_notify p)
next
  assume "distinct (map listener_id ls)"
  then show "listeners (fold (\<lambda>l A'. subscribe A' l) ls new_AppState) = ls"
    using subscribe_all [of ls new_AppState] by (simp add: new_AppState_def)
qed

theorem writes_notify_in_order_witness:
  "distinct (map listener_id example_listeners)
   \<and> listeners example_app = example_listeners
   \<and> \<not> throws example_app (ToggleStack ''Claw Hammer'')
   \<and> map fst (invoked (new_events example_app (ToggleStack ''Claw Hammer''))) = [1, 2, 3]
   \<and> console_errors (new_events example_app (ToggleStack ''Claw Hammer'')) = [''render failed'']
   \<and> expandedStacks (getState (perform example_app (ToggleStack ''Claw Hammer''))) = [''Claw Hammer'']
   \<and> throws example_app (AddTool ''toString'' (mk_tool ''Saw'' 2 ''cutting''))
   \<and> call example_app (AddTool ''toString'' (mk_tool ''Saw'' 2 ''cutting'')) = Inl TypeError
   \<and> new_events example_app (AddTool ''toString'' (mk_tool ''Saw'' 2 ''cutting'')) = []"
proof -
  have d: "distinct (map listener_id example_listeners)" by (simp add: example_listeners_def)
  have l: "listeners example_app = example_listeners"
    using writes_notify_in_order [of example_app Reset example_listeners] d
    by (simp add: example_app_def)
  have n: "\<not> throws example_app (ToggleStack ''Claw Hammer'')" by simp
  have s: "expandedStacks (getState (perform example_app (ToggleStack ''Claw Hammer''))) = [''Claw Hammer'']"
    by (simp add: perform_def example_app_def example_listeners_def subscribe_def new_AppState_def initial_state_def
         toggleStack_def setState_def notifyListeners_def getState_def merge_updates_def no_updates_def Let_def)
  have t: "throws example_app (AddTool ''toString'' (mk_tool ''Saw'' 2 ''cutting''))" by code_simp
  have e: "new_events example_app (AddTool ''toString'' (mk_tool ''Saw'' 2 ''cutting'')) = []"
    using writes_notify_in_order [of example_app "AddTool ''toString'' (mk_tool ''Saw'' 2 ''cutting'')" example_listeners] t
    by (simp add: new_events_def)
  show ?thesis
    using writes_notify_in_order [of example_app "ToggleStack ''Claw Hammer''" example_listeners]
      writes_notify_in_order [of example_app "AddTool ''toString'' (mk_tool ''Saw'' 2 ''cutting'')" example_listeners]
      d l n s t e
    by (simp add: o_def List.map_filter_simps) (simp add: example_listeners_def List.map_filter_simps)
qed

section \<open>Properties of tools.js\<close>

text \<open>
  The white space and line terminators that a string of the model can hold: tab, line
  feed, vertical tab, form feed, carriage return, space and the no-break space.
\<close>

lemma of_char_small: "(of_char c :: int) < 256"
proof -
  have "int (of_char c) < 256" using nat_of_char_less_256 [of c] by simp
  then show ?thesis by (simp add: of_nat_of_char)
qed

lemma white_space_chars:
  "is_white_space c \<longleftrightarrow> c \<in> set [CHR 0x09, CHR 0x0A, CHR 0x0B, CHR 0x0C, CHR 0x0D, CHR 0x20, CHR 0xA0]"
proof -
  have e: "(of_char c :: int) = of_char d \<longleftrightarrow> c = d" for d by simp
  have "is_white_space c \<longleftrightarrow> (of_char c :: int) \<in> {0x09, 0x0A, 0x0B, 0x0C, 0x0D, 0x20, 0xA0}"
    using of_char_small [of c] by (auto simp: is_white_space_def WHITE_SPACE_def)
  also have "\<dots> \<longleftrightarrow> c \<in> set [CHR 0x09, CHR 0x0A, CHR 0x0B, CHR 0x0C, CHR 0x0D, CHR 0x20, CHR 0xA0]"
    using e [of "CHR 0x09"] e [of "CHR 0x0A"] e [of "CHR 0x0B"] e [of "CHR 0x0C"] e [of "CHR 0x0D"]
      e [of "CHR 0x20"] e [of "CHR 0xA0"]
    by (simp del: of_char_eq_iff)
  finally show ?thesis .
qed












lemma show_small [simp]: "show_int 1 = ''1''" "show_int 999 = ''999''" "show_nat 100 = ''100''"
  by (simp_all add: show_int_def show_nat.simps digit_char_def)







lemma getInventory_setInventory [simp]: "getInventory (setInventory A i) = i"
  by (simp add: setInventory_def setState_def notifyListeners_def getInventory_def
       deepClone_def merge_updates_def no_updates_def)











text \<open>
  What \<^verbatim>\<open>parseInt\<close> makes of a number it is given: an integer too large to be printed
  in digits comes as \<^verbatim>\<open>1e+21\<close> and is read as 1, and a fraction loses its decimals. The
  tool is added with that quantity.
\<close>

lemma addTool_reads_leading_digits:
  "fst (addTool example_world ''Saw'' ''cutting'' ''1e+21'')
     = Inr (Success \<lparr>tool_name = ''Saw'', tool_qty = 1, tool_class = ''cutting''\<rparr>)
   \<and> fst (addTool example_world ''Saw'' ''cutting'' ''2.5'')
     = Inr (Success \<lparr>tool_name = ''Saw'', tool_qty = 2, tool_class = ''cutting''\<rparr>)"
  by code_simp

text \<open>
  A new category whose name is an array index is enumerated before the categories the
  inventory had, as the engine orders an object's properties.
\<close>

lemma addTool_category_order:
  "map fst (getInventory (app (snd (addTool example_world ''Saw'' ''7'' ''1'')))) = [''7'', ''hammers'']
   \<and> map fst (getInventory (app (snd (addTool example_world ''Saw'' ''spare'' ''1'')))) = [''hammers'', ''spare'']"
  by code_simp

section \<open>Properties of the page operations\<close>

subsection \<open>Checkout data stays on checked-out elements\<close>

lemma page_inv_elements: "elements d' = elements d \<Longrightarrow> page_inv d' = page_inv d"
  by (simp add: page_inv_def)

lemma page_inv_upd_el:
  assumes "page_inv d" "\<And>x. el_inv x \<Longrightarrow> el_inv (f x)"
  shows "page_inv (upd_el t f d)"
proof -
  have "set ((elements d)[t := f (elements d ! t)]) \<subseteq> insert (f (elements d ! t)) (set (elements d))"
    by (rule set_update_subset_insert)
  moreover have "t < length (elements d) \<Longrightarrow> el_inv (f (elements d ! t))"
    using assms by (simp add: page_inv_def list_all_iff)
  moreover have "\<not> t < length (elements d) \<Longrightarrow> (elements d)[t := f (elements d ! t)] = elements d"
    by (simp add: list_update_beyond)
  ultimately show ?thesis
    using assms(1) unfolding page_inv_def upd_el_def list_all_iff
    by (cases "t < length (elements d)") auto
qed

lemma in_add_class [simp]: "x \<in> set (add_class c cs) \<longleftrightarrow> x = c \<or> x \<in> set cs"
  by (auto simp: add_class_def)

lemma in_remove_class [simp]: "x \<in> set (remove_class c cs) \<longleftrightarrow> x \<noteq> c \<and> x \<in> set cs"
  by (auto simp: remove_class_def)

lemma el_inv_steps [simp]:
  "el_inv (mark_checked_out time crew x)"
  "el_inv (clear_checkout x)"
  "el_inv x \<Longrightarrow> el_inv (x\<lparr>classes := add_class ''broken'' (classes x), aria_label := l\<rparr>)"
  "el_inv x \<Longrightarrow> el_inv (x\<lparr>classes := add_class ''broken'' (classes x)\<rparr>)"
  "el_inv x \<Longrightarrow> el_inv (x\<lparr>classes := remove_class ''broken'' (classes x), aria_label := l\<rparr>)"
  "el_inv x \<Longrightarrow> el_inv (x\<lparr>classes := add_class ''dragging'' (classes x), aria_grabbed := g\<rparr>)"
  "el_inv x \<Longrightarrow> el_inv (x\<lparr>classes := remove_class ''dragging'' (classes x), aria_grabbed := g\<rparr>)"
  "el_inv (x\<lparr>classes := add_class ''checked-out'' (classes x), style_display := s,
              data_checkoutTime := a, data_crew := b\<rparr>)"
  "el_inv (createToolElement t n)"
  "el_inv ((createToolElement t n)\<lparr>classes := add_class ''tool-item'' (classes (createToolElement t n))\<rparr>)"
  by (auto simp: el_inv_def mark_checked_out_def clear_checkout_def createToolElement_def)

lemma page_inv_announce [simp]: "page_inv (announceToScreenReader m d) = page_inv d"
  by (simp add: page_inv_def announceToScreenReader_def)

lemma page_inv_upd_stack [simp]: "page_inv (upd_stack s f d) = page_inv d"
  by (simp add: page_inv_def upd_stack_def)

lemma page_inv_updateStackCount [simp]: "page_inv (updateStackCount s d) = page_inv d"
  by (simp add: updateStackCount_def Let_def)

lemma page_inv_update_closest_stack [simp]: "page_inv (update_closest_stack e d) = page_inv d"
  by (simp add: update_closest_stack_def split: option.split)

lemma page_inv_pool_appendChild [simp]: "page_inv (pool_appendChild p e d) = page_inv d"
  by (simp add: page_inv_def pool_appendChild_def detach_def Let_def)

lemma page_inv_fields [simp]:
  "page_inv (d\<lparr>dropZones := z\<rparr>) = page_inv d"
  "page_inv (d\<lparr>pools := p\<rparr>) = page_inv d"
  "page_inv (d\<lparr>updateTimeText := u\<rparr>) = page_inv d"
  by (simp_all add: page_inv_def)

lemma page_inv_createCrewCards [simp]: "page_inv (createCrewCards d) = page_inv d"
  by (simp add: createCrewCards_def)

lemma page_inv_clear_drop_zones [simp]: "page_inv (clear_drop_zones d) = page_inv d"
  by (simp add: clear_drop_zones_def)

lemma page_inv_createToolStack: "page_inv d \<Longrightarrow> page_inv (createToolStack t p d)"
  by (auto simp: createToolStack_def page_inv_def Let_def list_all_iff split: option.split)

lemma page_inv_fold_stacks: "page_inv d \<Longrightarrow> page_inv (fold (\<lambda>t d'. createToolStack t p d') ts d)"
  by (induction ts arbitrary: d) (simp_all add: page_inv_createToolStack)

lemma page_inv_create_category: "page_inv d \<Longrightarrow> page_inv (create_category c d)"
  by (simp add: create_category_def page_inv_fold_stacks split: option.split)

lemma page_inv_fold_categories: "page_inv d \<Longrightarrow> page_inv (fold create_category cs d)"
  by (induction cs arbitrary: d) (simp_all add: page_inv_create_category)

lemma page_inv_clear_pools [simp]: "page_inv (clear_pools d) = page_inv d"
proof -
  have "page_inv (fold (\<lambda>poolId d'. if getById_pool d' poolId \<noteq> None \<and> poolId \<noteq> ''brokenPool''
                        then d'\<lparr>pools := clear_first poolId (pools d')\<rparr> else d') ps d) = page_inv d" for ps
    by (induction ps arbitrary: d) simp_all
  then show ?thesis by (simp add: clear_pools_def)
qed

lemma page_inv_initializeInventory: "page_inv d \<Longrightarrow> page_inv (initializeInventory A d)"
  by (simp add: initializeInventory_def Let_def page_inv_fold_categories)

lemma page_inv_returnTool: "page_inv d \<Longrightarrow> page_inv (snd (returnTool d t))"
  by (auto simp: returnTool_def Let_def page_inv_upd_el split: option.split sum.split)

lemma page_inv_return_each: "page_inv d \<Longrightarrow> page_inv (snd (return_each ts n d))"
proof (induction ts arbitrary: n d)
  case Nil
  then show ?case by simp
next
  case (Cons t ts)
  show ?case
    using Cons.IH [of "snd (returnTool d (Some t))"] page_inv_returnTool [OF Cons.prems, of "Some t"]
    by (cases "returnTool d (Some t)") (auto split: sum.split)
qed

lemma page_inv_returnAllTools:
  assumes "page_inv d"
  shows "page_inv (snd (returnAllTools d))"
proof -
  let ?ts = "filter (\<lambda>e. ''draggable'' \<in> set (classes (el d e)) \<and> ''checked-out'' \<in> set (classes (el d e)))
                   (document_tools d)"
  have "page_inv (snd (return_each ?ts 0 d))" using assms by (rule page_inv_return_each)
  then show ?thesis
    by (cases "return_each ?ts 0 d") (auto simp: returnAllTools_def Let_def split: sum.split)
qed

lemma page_inv_checkoutTool: "page_inv d \<Longrightarrow> page_inv (snd (checkoutTool now d t z))"
  by (auto simp: checkoutTool_def Let_def page_inv_upd_el split: option.split)

lemma page_inv_markToolBroken: "page_inv d \<Longrightarrow> page_inv (snd (markToolBroken d t))"
  by (auto simp: markToolBroken_def Let_def page_inv_upd_el split: option.split)

lemma page_inv_unmarkToolBroken: "page_inv d \<Longrightarrow> page_inv (snd (unmarkToolBroken d t))"
  by (auto simp: unmarkToolBroken_def Let_def page_inv_upd_el split: option.split)

lemma page_updateLastModifiedTime [simp]: "page_inv (page (updateLastModifiedTime now w)) = page_inv (page w)"
  by (simp add: updateLastModifiedTime_def Let_def)

lemma page_inv_handleDrop:
  assumes "page_inv (page w)"
  shows "page_inv (page (handleDrop now w t z))"
proof -
  have c: "page_inv (snd (checkoutTool now (page w) t z))"
    using assms by (rule page_inv_checkoutTool)
  have m: "page_inv (snd (markToolBroken (page w) t))"
    using assms by (rule page_inv_markToolBroken)
  have u: "page_inv (snd (unmarkToolBroken (page w) t))"
    using assms by (rule page_inv_unmarkToolBroken)
  show ?thesis
    using assms c m u
    by (auto simp: handleDrop_def Let_def case_prod_beta split: option.split)
qed

lemma page_inv_on_drop: "page_inv (page w) \<Longrightarrow> page_inv (page (on_drop now w z))"
  by (simp add: on_drop_def page_inv_handleDrop split: option.split)

lemma page_inv_handleDragStart: "page_inv (page w) \<Longrightarrow> page_inv (page (snd (handleDragStart w t)))"
  by (simp add: handleDragStart_def Let_def page_inv_upd_el)

lemma page_inv_handleDragEnd: "page_inv (page w) \<Longrightarrow> page_inv (page (handleDragEnd w t))"
  by (simp add: handleDragEnd_def Let_def page_inv_upd_el)

lemma page_inv_drag_and_drop:
  assumes "page_inv (page w)"
  shows "page_inv (page (drag_and_drop now w t z))"
proof -
  have "page_inv (page (handleDragEnd (on_drop now (snd (handleDragStart w t)) z) t))"
    by (intro page_inv_handleDragEnd page_inv_on_drop page_inv_handleDragStart assms)
  then show ?thesis using assms by (simp add: drag_and_drop_def case_prod_beta)
qed

lemma page_inv_handleReturnTool:
  assumes "page_inv d"
  shows "page_inv (snd (handleReturnTool d crew i))"
proof -
  have "page_inv (snd (returnTool d t))" for t using assms by (rule page_inv_returnTool)
  then show ?thesis
    using assms
    by (auto simp: handleReturnTool_def Let_def case_prod_beta split: option.split sum.split)
qed

lemma page_inv_load_one: "page_inv d \<Longrightarrow> page_inv (snd (load_one dropZone crew entry d))"
  by (auto simp: load_one_def Let_def page_inv_upd_el split: option.split sum.split prod.split)

lemma page_inv_load_tools: "page_inv d \<Longrightarrow> page_inv (snd (load_tools dropZone crew entries n d))"
proof (induction entries arbitrary: n d)
  case Nil
  then show ?case by simp
next
  case (Cons entry entries)
  show ?case
    using Cons.IH [of "snd (load_one dropZone crew entry d)"]
      page_inv_load_one [OF Cons.prems, of dropZone crew entry]
    by (cases "load_one dropZone crew entry d") (auto split: sum.split)
qed

lemma page_inv_load_crews: "page_inv d \<Longrightarrow> page_inv (snd (load_crews crews n d))"
proof (induction crews n d rule: load_crews.induct)
  case (1 loadedCount d)
  then show ?case by simp
next
  case (2 crew tools rest loadedCount d)
  show ?case
  proof (cases "querySelector_zone d crew")
    case (Inl e)
    then show ?thesis using "2.prems" by simp
  next
    case (Inr found)
    show ?thesis
    proof (cases found)
      case None
      then show ?thesis using 2 Inr by simp
    next
      case (Some dropZone)
      show ?thesis
        using "2.IH"(2) [OF Inr Some] page_inv_load_tools [OF "2.prems", of dropZone crew tools loadedCount]
        by (cases "load_tools dropZone crew tools loadedCount d") (auto simp: Inr Some split: sum.split)
    qed
  qed
qed

lemma page_inv_loadCheckouts:
  assumes "page_inv d"
  shows "page_inv (snd (loadCheckouts d data))"
proof -
  have "page_inv (snd (load_crews crews 0 d))" for crews using assms by (rule page_inv_load_crews)
  then show ?thesis
    using assms by (auto simp: loadCheckouts_def case_prod_beta split: option.split sum.split)
qed

lemma page_inv_load_broken: "page_inv d \<Longrightarrow> page_inv (snd (load_broken entries d))"
  by (induction entries d rule: load_broken.induct)
     (auto simp: page_inv_upd_el split: sum.split option.split)

lemma page_inv_loadBrokenTools: "page_inv d \<Longrightarrow> page_inv (snd (loadBrokenTools d data))"
  by (simp add: loadBrokenTools_def page_inv_load_broken split: option.split)

lemma page_inv_loadHistoryData:
  assumes "page_inv (page w)"
  shows "page_inv (page (snd (loadHistoryData w h)))"
proof -
  define w1 where "w1 = (case snap_inventory h of
                  None \<Rightarrow> w
                | Some inventory \<Rightarrow>
                    (let A = setInventory (app w) inventory
                     in w\<lparr>app := A, page := initializeInventory A (page w)\<rparr>))"
  have 1: "page_inv (page w1)"
    using assms by (simp add: w1_def Let_def page_inv_initializeInventory split: option.split)
  define d2 where "d2 = createCrewCards (page w1)"
  have 2: "page_inv d2" using 1 by (simp add: d2_def)
  have 3: "page_inv (snd (loadCheckouts d2 (snap_checkouts h)))"
    using 2 by (rule page_inv_loadCheckouts)
  have 4: "page_inv (snd (loadBrokenTools (snd (loadCheckouts d2 (snap_checkouts h))) (snap_broken h)))"
    using 3 by (rule page_inv_loadBrokenTools)
  show ?thesis
    using 3 4 unfolding loadHistoryData_def w1_def d2_def Let_def
    by (auto simp: case_prod_beta split: sum.split)
qed

lemma page_inv_addTool: "page_inv (page w) \<Longrightarrow> page_inv (page (snd (addTool w name category q)))"
  by (auto simp: addTool_def Let_def page_inv_createToolStack split: option.split property.split sum.split)

lemma page_inv_click_stack: "page_inv (page w) \<Longrightarrow> page_inv (page (click_stack w s))"
  by (simp add: click_stack_def Let_def)

lemma page_inv_app_returnAllTools:
  assumes "page_inv (page w)"
  shows "page_inv (page (snd (app_returnAllTools now w)))"
proof -
  have "page_inv (snd (returnAllTools (page w)))" using assms by (rule page_inv_returnAllTools)
  then show ?thesis by (auto simp: app_returnAllTools_def case_prod_beta split: sum.split)
qed

lemma page_inv_app_clearAllCheckouts:
  assumes "page_inv (page w)"
  shows "page_inv (page (snd (app_clearAllCheckouts now w)))"
proof -
  have "page_inv (snd (returnAllTools (clearAllCheckouts (page w))))"
    using assms by (intro page_inv_returnAllTools) (simp add: clearAllCheckouts_def)
  then show ?thesis
    by (auto simp: app_clearAllCheckouts_def case_prod_beta page_inv_initializeInventory split: sum.split)
qed

lemma page_inv_start:
  assumes "empty_page d"
  shows "page_inv (page (start_world A d S))"
proof -
  have "page_inv d" using assms by (simp add: page_inv_def empty_page_def)
  then show ?thesis by (simp add: start_world_def page_inv_initializeInventory)
qed

lemma reachable_page_inv: "reachable w \<Longrightarrow> page_inv (page w)"
proof (induction rule: reachable.induct)
  case (start d A S)
  then show ?case by (rule page_inv_start)
next
  case (drag w now t z)
  then show ?case by (simp add: page_inv_drag_and_drop)
next
  case (return_click w crew i)
  then show ?case by (simp add: page_inv_handleReturnTool)
next
  case (return_all w now)
  then show ?case by (simp add: page_inv_app_returnAllTools)
next
  case (clear w now)
  then show ?case by (simp add: page_inv_app_clearAllCheckouts)
next
  case (load w historyData)
  then show ?case by (simp add: page_inv_loadHistoryData)
next
  case (add w name category quantity)
  then show ?case by (simp add: page_inv_addTool)
next
  case (click w s)
  then show ?case by (simp add: page_inv_click_stack)
next
  case (stamp w now)
  then show ?case by simp
qed

subsection \<open>Dropping on the broken pool\<close>

lemma el_upd_el:
  "t < length (elements d) \<Longrightarrow> el (upd_el t f d) t' = (if t' = t then f (el d t) else el d t')"
  by (simp add: el_def upd_el_def)

lemma map_of_append_first:
  "map_of (append_first k x kvs) k' =
     (if k' = k then map_option (\<lambda>xs. xs @ [x]) (map_of kvs k) else map_of kvs k')"
  by (induction kvs) auto

lemma set_append_first:
  "(q, ns) \<in> set (append_first k x kvs) \<Longrightarrow> y \<in> set ns \<Longrightarrow>
   (q = k \<and> y = x) \<or> (\<exists>ns0. (q, ns0) \<in> set kvs \<and> y \<in> set ns0)"
proof (induction kvs)
  case Nil
  then show ?case by simp
next
  case (Cons kv kvs)
  obtain k' xs where kv: "kv = (k', xs)" by (cases kv)
  show ?case
  proof (cases "k' = k")
    case True
    then show ?thesis using Cons.prems by (auto simp: kv)
  next
    case False
    then show ?thesis using Cons by (auto simp: kv)
  qed
qed

lemma pool_appendChild_props:
  assumes "getById_pool d p \<noteq> None"
  shows "\<exists>ns. getById_pool (pool_appendChild p t d) p = Some ns \<and> ToolNode t \<in> set ns"
    and "\<forall>(q, ns) \<in> set (pools (pool_appendChild p t d)). ToolNode t \<in> set ns \<longrightarrow> q = p"
    and "\<forall>s \<in> set (stacks (pool_appendChild p t d)). t \<notin> set (stack_items s)"
    and "elements (pool_appendChild p t d) = elements d"
proof -
  let ?ps = "map (\<lambda>(p, ns). (p, filter (\<lambda>n. n \<noteq> ToolNode t) ns)) (pools d)"
  have ps: "pools (pool_appendChild p t d) = append_first p (ToolNode t) ?ps"
    by (simp add: pool_appendChild_def detach_def Let_def)
  obtain ns0 where "map_of (pools d) p = Some ns0"
    using assms by (auto simp: getById_pool_def)
  then have "map_of ?ps p = Some (filter (\<lambda>n. n \<noteq> ToolNode t) ns0)"
    by (induction "pools d" arbitrary: d) (auto simp: map_of_map split: if_splits) 
  then show "\<exists>ns. getById_pool (pool_appendChild p t d) p = Some ns \<and> ToolNode t \<in> set ns"
    by (simp add: getById_pool_def ps map_of_append_first)
  show "\<forall>(q, ns) \<in> set (pools (pool_appendChild p t d)). ToolNode t \<in> set ns \<longrightarrow> q = p"
  proof (clarify)
    fix q ns
    assume "(q, ns) \<in> set (pools (pool_appendChild p t d))" "ToolNode t \<in> set ns"
    then have "(q = p \<and> ToolNode t = ToolNode t) \<or> (\<exists>ns0. (q, ns0) \<in> set ?ps \<and> ToolNode t \<in> set ns0)"
      unfolding ps by (rule set_append_first)
    then show "q = p" by auto
  qed
  show "\<forall>s \<in> set (stacks (pool_appendChild p t d)). t \<notin> set (stack_items s)"
    by (auto simp: pool_appendChild_def detach_def Let_def)
  show "elements (pool_appendChild p t d) = elements d"
    by (simp add: pool_appendChild_def detach_def Let_def)
qed

lemma getDraggedElement_set [simp]: "getDraggedElement (setDraggedElement A t) = Some t"
  by (simp add: getDraggedElement_def setDraggedElement_def setState_def notifyListeners_def
       merge_updates_def no_updates_def)

lemma upd_el_fields [simp]:
  "pools (upd_el t f d) = pools d" "stacks (upd_el t f d) = stacks d"
  "length (elements (upd_el t f d)) = length (elements d)"
  "getById_pool (upd_el t f d) p = getById_pool d p"
  "dropZones (upd_el t f d) = dropZones d"
  by (simp_all add: upd_el_def getById_pool_def)

lemma announce_fields [simp]:
  "pools (announceToScreenReader m d) = pools d" "stacks (announceToScreenReader m d) = stacks d"
  "elements (announceToScreenReader m d) = elements d"
  "getById_pool (announceToScreenReader m d) p = getById_pool d p"
  "el (announceToScreenReader m d) t = el d t"
  "dropZones (announceToScreenReader m d) = dropZones d"
  by (simp_all add: announceToScreenReader_def getById_pool_def el_def)

lemma page_updateLastModifiedTime_fields [simp]:
  "pools (page (updateLastModifiedTime now w)) = pools (page w)"
  "stacks (page (updateLastModifiedTime now w)) = stacks (page w)"
  "elements (page (updateLastModifiedTime now w)) = elements (page w)"
  "getById_pool (page (updateLastModifiedTime now w)) p = getById_pool (page w) p"
  "el (page (updateLastModifiedTime now w)) t = el (page w) t"
  "dropZones (page (updateLastModifiedTime now w)) = dropZones (page w)"
  by (simp_all add: updateLastModifiedTime_def Let_def getById_pool_def el_def)

lemma dropZones_pool_appendChild [simp]: "dropZones (pool_appendChild p t d) = dropZones d"
  by (simp add: pool_appendChild_def detach_def Let_def)

text \<open>
  Claim C5 (drop on the broken pool), as the code has it. In every reachable state, for
  every tool element whose drag goes ahead, dropping it on the broken pool leaves the
  element in the broken pool and in no other pool or stack, tagged broken, not checked
  out, and with no crew and no checkout time on it: the drag of a checked-out element
  does not start, and an element that is not checked out carries no checkout data. The
  drop itself clears nothing. The rows of all crew drop zones are after the drop what
  they were before it, so a Checkout Record that still lists the instance stays.
\<close>

theorem drop_on_broken_pool:
  assumes "reachable w"
    and "t < length (elements (page w))"
    and "fst (handleDragStart w t)"
    and "getById_pool (page w) ''brokenPool'' \<noteq> None"
  shows "(\<exists>ns. getById_pool (page (drag_and_drop now w t (PoolZone ''brokenPool'' r))) ''brokenPool'' = Some ns
              \<and> ToolNode t \<in> set ns)
       \<and> (\<forall>(p, ns) \<in> set (pools (page (drag_and_drop now w t (PoolZone ''brokenPool'' r)))).
              ToolNode t \<in> set ns \<longrightarrow> p = ''brokenPool'')
       \<and> (\<forall>s \<in> set (stacks (page (drag_and_drop now w t (PoolZone ''brokenPool'' r)))).
              t \<notin> set (stack_items s))
       \<and> ''broken'' \<in> set (classes (el (page (drag_and_drop now w t (PoolZone ''brokenPool'' r))) t))
       \<and> ''checked-out'' \<notin> set (classes (el (page (drag_and_drop now w t (PoolZone ''brokenPool'' r))) t))
       \<and> data_crew (el (page (drag_and_drop now w t (PoolZone ''brokenPool'' r))) t) = None
       \<and> data_checkoutTime (el (page (drag_and_drop now w t (PoolZone ''brokenPool'' r))) t) = None
       \<and> dropZones (page (drag_and_drop now w t (PoolZone ''brokenPool'' r))) = dropZones (page w)
       \<and> getCheckoutData (page (drag_and_drop now w t (PoolZone ''brokenPool'' r))) = getCheckoutData (page w)"
proof -
  let ?z = "PoolZone ''brokenPool'' r"
  let ?x = "el (page w) t"
  have inv: "el_inv ?x"
    using reachable_page_inv [OF assms(1)] assms(2) by (simp add: page_inv_def list_all_iff el_def)
  have acc: "''draggable'' \<in> set (classes ?x)" "''checked-out'' \<notin> set (classes ?x)"
    using assms(3) by (auto simp: handleDragStart_def Let_def split: if_splits)
  have none: "data_crew ?x = None" "data_checkoutTime ?x = None"
    using inv acc(2) by (simp_all add: el_inv_def)
  define f1 :: "tool_el \<Rightarrow> tool_el" where "f1 = (\<lambda>x. x\<lparr>classes := add_class ''dragging'' (classes x), aria_grabbed := Some ''true''\<rparr>)"
  define f2 :: "tool_el \<Rightarrow> tool_el" where "f2 = (\<lambda>x. x\<lparr>classes := add_class ''broken'' (classes x),
                          aria_label := data_toolName x @ '' number '' @ data_toolNumber x @ '', marked as broken''\<rparr>)"
  define f3 :: "tool_el \<Rightarrow> tool_el" where "f3 = (\<lambda>x. x\<lparr>classes := remove_class ''dragging'' (classes x), aria_grabbed := Some ''false''\<rparr>)"
  define d1 where "d1 = upd_el t f1 (page w)"
  define d2 where "d2 = pool_appendChild ''brokenPool'' t (upd_el t f2 d1)"
  define w1 where "w1 = w\<lparr>app := setDraggedElement (app w) t, page := d1\<rparr>"
  have start: "handleDragStart w t = (True, w1)"
    using acc assms(3) by (auto simp: handleDragStart_def Let_def w1_def d1_def f1_def split: if_splits)
  have bp1: "getById_pool (upd_el t f2 d1) ''brokenPool'' \<noteq> None"
    using assms(4) by (simp add: d1_def)
  have mark: "markToolBroken d1 (Some t) = (True, announceToScreenReader
        (data_toolName (el d2 t) @ '' number '' @ data_toolNumber (el d2 t) @ '' marked as broken'') d2)"
    using assms(4) by (auto simp: markToolBroken_def Let_def d2_def f2_def d1_def)
  define w2 where "w2 = on_drop now w1 ?z"
  have page2: "pools (page w2) = pools d2" "stacks (page w2) = stacks d2" "elements (page w2) = elements d2"
    "dropZones (page w2) = dropZones d2"
    by (simp_all add: w2_def on_drop_def w1_def handleDrop_def mark)
  have zones2: "dropZones d2 = dropZones (page w)"
    by (simp add: d2_def d1_def)
  have el2: "el d2 t = f2 (f1 ?x)"
    using assms(2) pool_appendChild_props(4) [OF bp1, of t]
    by (simp add: el_def d2_def d1_def upd_el_def)
  have len2: "t < length (elements d2)"
    using assms(2) pool_appendChild_props(4) [OF bp1, of t] by (simp add: d2_def d1_def)
  have drag2: "''draggable'' \<in> set (classes (el (page w2) t))"
    using acc(1) by (simp add: el_def page2 el2 [unfolded el_def] f1_def f2_def)
  have fin: "page (drag_and_drop now w t ?z) = upd_el t f3 (page w2)"
    using drag2 by (simp add: drag_and_drop_def start handleDragEnd_def Let_def w2_def f3_def)
  have "el (upd_el t f3 (page w2)) t = f3 (el (page w2) t)"
    using len2 by (simp add: el_upd_el page2(3))
  moreover have "el (page w2) t = el d2 t"
    by (simp add: el_def page2(3))
  ultimately have elf: "el (page (drag_and_drop now w t ?z)) t = f3 (f2 (f1 ?x))"
    by (simp add: fin el2)
  have pf: "pools (page (drag_and_drop now w t ?z)) = pools d2"
    "stacks (page (drag_and_drop now w t ?z)) = stacks d2"
    by (simp_all add: fin page2)
  have zf: "dropZones (page (drag_and_drop now w t ?z)) = dropZones (page w)"
    by (simp add: fin page2 zones2)
  have cf: "getCheckoutData (page (drag_and_drop now w t ?z)) = getCheckoutData (page w)"
    by (simp add: getCheckoutData_def zf)
  have gb: "getById_pool (page (drag_and_drop now w t ?z)) ''brokenPool'' = getById_pool d2 ''brokenPool''"
    by (simp add: getById_pool_def pf)
  note props = pool_appendChild_props(1-3) [OF bp1, of t, folded d2_def]
  show ?thesis
    unfolding gb pf elf zf cf using props none acc(2)
    by (simp add: f1_def f2_def f3_def)
qed

theorem drop_on_broken_pool_witness:
  "reachable hammer3_returned
   \<and> 2 < length (elements (page hammer3_returned))
   \<and> fst (handleDragStart hammer3_returned 2)
   \<and> getById_pool (page hammer3_returned) ''brokenPool'' \<noteq> None
   \<and> data_crew (el (page hammer3_out) 2) = Some ''2''
   \<and> ''broken'' \<in> set (classes (el (page (drag_and_drop example_day hammer3_returned 2 (PoolZone ''brokenPool'' True))) 2))
   \<and> data_crew (el (page (drag_and_drop example_day hammer3_returned 2 (PoolZone ''brokenPool'' True))) 2) = None
   \<and> data_checkoutTime (el (page (drag_and_drop example_day hammer3_returned 2 (PoolZone ''brokenPool'' True))) 2) = None
   \<and> getCheckoutData (page (drag_and_drop example_day hammer3_returned 2 (PoolZone ''brokenPool'' True)))
        = [(''1'', [(''Claw Hammer'', ''4'', ''1'', ''08:00 AM'')])]"
proof -
  have e: "empty_page blank_page"
    by (simp add: empty_page_def blank_page_def POOL_IDS_def)
  have r: "reachable hammer3_returned"
    unfolding hammer3_returned_def hammer3_and_hammer4_out_def hammer3_out_def example_world_def
    by (intro reachable.return_click reachable.drag reachable.start e)
  have h1: "2 < length (elements (page hammer3_returned))" by code_simp
  have h2: "fst (handleDragStart hammer3_returned 2)" by code_simp
  have h3: "getById_pool (page hammer3_returned) ''brokenPool'' \<noteq> None" by code_simp
  have h4: "data_crew (el (page hammer3_out) 2) = Some ''2''" by code_simp
  have h5: "getCheckoutData (page hammer3_returned) = [(''1'', [(''Claw Hammer'', ''4'', ''1'', ''08:00 AM'')])]"
    by code_simp
  show ?thesis
    using drop_on_broken_pool [OF r h1 h2 h3, of example_day True] r h1 h2 h3 h4 h5 by simp
qed

text \<open>
  Claim C5 fails on the code as it is stated: there is a dragged instance whose checkout
  association is still there after the drop. Claw Hammer number 3 and the sledge are
  checked out to crew 1. Return All returns the hammer and then stops with a
  SyntaxError at the sledge, whose name spoils the selector, before the drop zones are
  emptied: the hammer is available again and its row is still in the zone of crew 1. The
  hammer is dragged onto the broken pool. After the drop it is among the broken tools,
  and crew 1 still has its Checkout Record, with crew and checkout time.
\<close>

theorem broken_drop_keeps_checkout_record:
  "reachable return_all_stopped
   \<and> fst (app_returnAllTools example_day hammer3_and_sledge_out) = Inl SyntaxError
   \<and> getCheckoutData (page return_all_stopped)
        = [(''1'', [(''Claw Hammer'', ''3'', ''1'', ''08:00 AM''), (sledge, ''1'', ''1'', ''08:00 AM'')])]
   \<and> fst (handleDragStart return_all_stopped 2)
   \<and> getBrokenToolsData (page hammer3_broken_with_row) = [(''Claw Hammer'', Some ''3'')]
   \<and> getCheckoutData (page hammer3_broken_with_row)
        = [(''1'', [(''Claw Hammer'', ''3'', ''1'', ''08:00 AM''), (sledge, ''1'', ''1'', ''08:00 AM'')])]"
proof -
  have e: "empty_page blank_page"
    by (simp add: empty_page_def blank_page_def POOL_IDS_def)
  have r: "reachable return_all_stopped"
    unfolding return_all_stopped_def hammer3_and_sledge_out_def with_sledge_def example_world_def
    by (intro reachable.return_all reachable.drag reachable.add reachable.start e)
  have 1: "fst (app_returnAllTools example_day hammer3_and_sledge_out) = Inl SyntaxError" by code_simp
  have 2: "getCheckoutData (page return_all_stopped)
        = [(''1'', [(''Claw Hammer'', ''3'', ''1'', ''08:00 AM''), (sledge, ''1'', ''1'', ''08:00 AM'')])]"
    by code_simp
  have 3: "fst (handleDragStart return_all_stopped 2)" by code_simp
  have 4: "getBrokenToolsData (page hammer3_broken_with_row) = [(''Claw Hammer'', Some ''3'')]" by code_simp
  have 5: "getCheckoutData (page hammer3_broken_with_row)
        = [(''1'', [(''Claw Hammer'', ''3'', ''1'', ''08:00 AM''), (sledge, ''1'', ''1'', ''08:00 AM'')])]"
    by code_simp
  show ?thesis using r 1 2 3 4 5 by blast
qed

subsection \<open>A broken tool dropped on a crew\<close>

text \<open>
  Claim C1 (one state per instance) fails on the code. Claw Hammer number 3 is dragged
  onto the broken pool and then from the broken pool onto the drop zone of crew 2. The
  drag of a broken element starts like any other, and the crew branch of
  \<^verbatim>\<open>handleDrop\<close> checks the element out without touching its broken tag or its place in
  the broken pool. The element ends up tagged broken and checked out to crew 2, and a
  save lists it both among the broken tools and among the checkouts of crew 2.
\<close>

theorem broken_tool_checked_out:
  "''broken'' \<in> set (classes (el (page hammer3_broken_then_crew2) 2))
   \<and> ''checked-out'' \<in> set (classes (el (page hammer3_broken_then_crew2) 2))
   \<and> data_crew (el (page hammer3_broken_then_crew2) 2) = Some ''2''
   \<and> getBrokenToolsData (page hammer3_broken_then_crew2) = [(''Claw Hammer'', Some ''3'')]
   \<and> getCheckoutData (page hammer3_broken_then_crew2)
        = [(''2'', [(''Claw Hammer'', ''3'', ''2'', ''08:00 AM'')])]"
  by code_simp

subsection \<open>Checkout and return after a tool has left its stack\<close>

text \<open>
  Claim C2 (checkout and return restore the badge) fails on the code. Once Claw Hammer
  number 3 has been dropped on the broken pool, the badge of the stack still reads 8:
  the broken-pool branch of \<^verbatim>\<open>handleDrop\<close> does not refresh it. Checking out number 4
  with \<^verbatim>\<open>checkoutTool\<close> and returning it with \<^verbatim>\<open>returnTool\<close> leaves number 4
  available, with no crew and no checkout time, and the badge recounted to 7.
\<close>

theorem stale_badge_round_trip:
  "data_toolName (el (page hammer3_broken) 3) = ''Claw Hammer''
   \<and> data_toolNumber (el (page hammer3_broken) 3) = ''4''
   \<and> closest_stack (page hammer3_broken) 3 = Some 0
   \<and> badge_text (stacks (page hammer3_broken) ! 0) = ''8''
   \<and> fst (checkoutTool example_day (page hammer3_broken) (Some 3) (Some (CrewZone ''1'')))
   \<and> fst (returnTool hammer4_out (Some 3)) = Inr True
   \<and> ''checked-out'' \<notin> set (classes (el hammer4_back 3))
   \<and> data_crew (el hammer4_back 3) = None
   \<and> data_checkoutTime (el hammer4_back 3) = None
   \<and> badge_text (stacks hammer4_back ! 0) = ''7''"
  by code_simp

section \<open>Properties of the reads of state.js\<close>

lemma lookup_append_old [simp]: "a < length h \<Longrightarrow> lookup (h @ xs) a = lookup h a"
  by (simp add: lookup_def nth_append)

lemma lookup_Some_lt: "lookup h a = Some x \<Longrightarrow> a < length h"
  by (simp add: lookup_def split: if_splits)

lemma keeps_lookup: "keeps h h' \<Longrightarrow> lookup h a = Some x \<Longrightarrow> lookup h' a = Some x"
  unfolding keeps_def lookup_def
  by (metis (no_types, lifting) nth_take option.distinct(1) order.strict_trans2)

lemma those_map_Some_cong:
  "those (map f xs) = Some ys \<Longrightarrow> (\<And>x y. x \<in> set xs \<Longrightarrow> f x = Some y \<Longrightarrow> g x = Some y) \<Longrightarrow>
   those (map g xs) = Some ys"
proof (induction xs arbitrary: ys)
  case Nil
  then show ?case by simp
next
  case (Cons x xs)
  then show ?case by (auto split: option.splits)
qed

lemma keeps_read_tool: "keeps h h' \<Longrightarrow> read_tool h a = Some t \<Longrightarrow> read_tool h' a = Some t"
  by (auto simp: read_tool_def dest: keeps_lookup split: option.splits object.splits)

lemma keeps_read_array:
  assumes "keeps h h'" "read_array h a = Some ts"
  shows "read_array h' a = Some ts"
proof -
  obtain rs where rs: "lookup h a = Some (ArrayObj rs)" "those (map (read_tool h) rs) = Some ts"
    using assms(2) by (auto simp: read_array_def split: option.splits object.splits)
  have "lookup h' a = Some (ArrayObj rs)" using assms(1) rs(1) by (rule keeps_lookup)
  moreover have "those (map (read_tool h') rs) = Some ts"
    using rs(2) by (rule those_map_Some_cong) (rule keeps_read_tool [OF assms(1)])
  ultimately show ?thesis by (simp add: read_array_def)
qed

lemma keeps_read_entry: "keeps h h' \<Longrightarrow> read_entry h e = Some x \<Longrightarrow> read_entry h' e = Some x"
  by (auto simp: read_entry_def dest: keeps_read_array)

lemma keeps_stringify:
  assumes "keeps h h'" "JSON_stringify_inventory h a = Some content"
  shows "JSON_stringify_inventory h' a = Some content"
proof -
  obtain fs where fs: "lookup h a = Some (InventoryObj fs)" "those (map (read_entry h) fs) = Some content"
    using assms(2) by (auto simp: JSON_stringify_inventory_def split: option.splits object.splits)
  have "lookup h' a = Some (InventoryObj fs)" using assms(1) fs(1) by (rule keeps_lookup)
  moreover have "those (map (read_entry h') fs) = Some content"
    using fs(2) by (rule those_map_Some_cong) (rule keeps_read_entry [OF assms(1)])
  ultimately show ?thesis by (simp add: JSON_stringify_inventory_def)
qed

lemma keeps_append [simp]: "keeps h (h @ xs)"
  by (simp add: keeps_def)

lemma keeps_update: "keeps h h' \<Longrightarrow> length h \<le> b \<Longrightarrow> keeps h (h'[b := x])"
  by (simp add: keeps_def)

text \<open>The objects \<^verbatim>\<open>JSON.parse\<close> builds refer to new objects only.\<close>

lemma new_arrays_refs:
  "new_arrays n content = (fs, objs) \<Longrightarrow>
   (\<forall>entry \<in> set fs. n \<le> snd entry) \<and> (\<forall>rs. ArrayObj rs \<in> set objs \<longrightarrow> (\<forall>r \<in> set rs. n \<le> r))
   \<and> (\<forall>gs. InventoryObj gs \<notin> set objs)"
proof (induction n content arbitrary: fs objs rule: new_arrays.induct)
  case (1 n)
  then show ?case by simp
next
  case (2 n c ts rest)
  obtain fs' objs' where r: "new_arrays (Suc (n + length ts)) rest = (fs', objs')"
    by (cases "new_arrays (Suc (n + length ts)) rest")
  have ih: "(\<forall>entry \<in> set fs'. Suc (n + length ts) \<le> snd entry)
      \<and> (\<forall>rs. ArrayObj rs \<in> set objs' \<longrightarrow> (\<forall>r \<in> set rs. Suc (n + length ts) \<le> r))
      \<and> (\<forall>gs. InventoryObj gs \<notin> set objs')"
    using "2.IH" [OF r] .
  have fs: "fs = (c, n + length ts) # fs'" and objs: "objs = map ToolObj ts @ [ArrayObj [n..<n + length ts]] @ objs'"
    using "2.prems" by (simp_all add: r)
  show ?case
    unfolding fs objs using ih by (auto simp: image_iff) force+
qed

lemma read_new_tools:
  "those (map (read_tool (h @ map ToolObj ts @ zs)) [length h..<length h + length ts]) = Some ts"
proof (induction ts arbitrary: h)
  case Nil
  then show ?case by simp
next
  case (Cons t ts)
  have here: "read_tool (h @ map ToolObj (t # ts) @ zs) (length h) = Some t"
    by (simp add: read_tool_def lookup_def nth_append)
  have "those (map (read_tool ((h @ [ToolObj t]) @ map ToolObj ts @ zs))
           [length (h @ [ToolObj t])..<length (h @ [ToolObj t]) + length ts]) = Some ts"
    by (rule Cons.IH)
  then have rest: "those (map (read_tool (h @ map ToolObj (t # ts) @ zs)) [Suc (length h)..<Suc (length h + length ts)])
      = Some ts"
    by simp
  have "[length h..<length h + length (t # ts)] = length h # [Suc (length h)..<Suc (length h + length ts)]"
    by (subst upt_rec) simp
  then show ?case using here rest by (simp del: upt_Suc)
qed

lemma read_new_arrays:
  "new_arrays n content = (fs, objs) \<Longrightarrow> length h = n \<Longrightarrow>
   those (map (read_entry (h @ objs @ ys)) fs) = Some content"
proof (induction n content arbitrary: fs objs h rule: new_arrays.induct)
  case (1 n)
  then show ?case by simp
next
  case (2 n c ts rest)
  obtain fs' objs' where r: "new_arrays (Suc (n + length ts)) rest = (fs', objs')"
    by (cases "new_arrays (Suc (n + length ts)) rest")
  have fs: "fs = (c, n + length ts) # fs'" and objs: "objs = map ToolObj ts @ [ArrayObj [n..<n + length ts]] @ objs'"
    using "2.prems"(1) by (simp_all add: r)
  let ?H = "h @ objs @ ys"
  have H: "?H = h @ map ToolObj ts @ (ArrayObj [n..<n + length ts] # objs' @ ys)"
    by (simp add: objs)
  have arr: "lookup ?H (n + length ts) = Some (ArrayObj [n..<n + length ts])"
    using "2.prems"(2) by (simp add: H lookup_def nth_append)
  have tools: "those (map (read_tool ?H) [n..<n + length ts]) = Some ts"
    unfolding H using read_new_tools [of h ts "ArrayObj [n..<n + length ts] # objs' @ ys"] "2.prems"(2) by simp
  have here: "read_entry ?H (c, n + length ts) = Some (c, ts)"
    by (simp add: read_entry_def read_array_def arr tools)
  have "those (map (read_entry ((h @ map ToolObj ts @ [ArrayObj [n..<n + length ts]]) @ objs' @ ys)) fs') = Some rest"
    using "2.IH" [OF r, of "h @ map ToolObj ts @ [ArrayObj [n..<n + length ts]]"] "2.prems"(2) by simp
  then have rest: "those (map (read_entry ?H) fs') = Some rest"
    by (simp add: objs)
  show ?case using here rest by (simp add: fs)
qed

lemma parse_stringify:
  assumes "JSON_parse_inventory h content = (r, h1)"
  shows "JSON_stringify_inventory h1 r = Some content"
    and "keeps h h1"
    and "\<forall>b \<in> set (addresses h1 r). length h \<le> b"
proof -
  obtain fs objs where n: "new_arrays (length h) content = (fs, objs)"
    by (cases "new_arrays (length h) content")
  have r: "r = length h + length objs" and h1: "h1 = h @ objs @ [InventoryObj fs]"
    using assms by (simp_all add: JSON_parse_inventory_def n)
  have top: "lookup h1 r = Some (InventoryObj fs)"
    by (simp add: r h1 lookup_def nth_append)
  have rd: "those (map (read_entry h1) fs) = Some content"
    using read_new_arrays [OF n, of h "[InventoryObj fs]"] by (simp add: h1)
  show "JSON_stringify_inventory h1 r = Some content"
    by (simp add: JSON_stringify_inventory_def top rd)
  show "keeps h h1" by (simp add: h1)
  note refs = new_arrays_refs [OF n]
  show "\<forall>b \<in> set (addresses h1 r). length h \<le> b"
  proof
    fix b assume "b \<in> set (addresses h1 r)"
    then consider "b = r" | entry where "entry \<in> set fs" "b \<in> set (array_addresses h1 (snd entry))"
      by (auto simp: addresses_def top)
    then show "length h \<le> b"
    proof cases
      case 1
      then show ?thesis by (simp add: r)
    next
      case 2
      have a: "length h \<le> snd entry" using refs 2(1) by blast
      show ?thesis
      proof (cases "b = snd entry")
        case True
        then show ?thesis using a by simp
      next
        case False
        then obtain rs where rs: "lookup h1 (snd entry) = Some (ArrayObj rs)" "b \<in> set rs"
          using 2(2) by (cases "lookup h1 (snd entry)") (auto simp: array_addresses_def split: object.splits)
        have "snd entry < length h1" using rs(1) by (rule lookup_Some_lt)
        then have "snd entry - length h < length (objs @ [InventoryObj fs])"
          using a by (simp add: h1)
        then have "(objs @ [InventoryObj fs]) ! (snd entry - length h) \<in> set (objs @ [InventoryObj fs])"
          by (rule nth_mem)
        moreover have "h1 ! snd entry = (objs @ [InventoryObj fs]) ! (snd entry - length h)"
          using a unfolding h1 by (subst nth_append) simp
        ultimately have "h1 ! snd entry \<in> set (objs @ [InventoryObj fs])"
          by simp
        moreover have "h1 ! snd entry = ArrayObj rs" using rs(1) by (simp add: lookup_def split: if_splits)
        ultimately have "ArrayObj rs \<in> set objs" by auto
        then show ?thesis using refs rs(2) by blast
      qed
    qed
  qed
qed

lemma keeps_trans:
  assumes "keeps a b" "keeps b c"
  shows "keeps a c"
proof -
  have l: "length a \<le> length b" "length b \<le> length c" using assms by (simp_all add: keeps_def)
  have "take (length a) c = take (length a) (take (length b) c)"
    using l(1) by (simp add: min_def)
  also have "\<dots> = take (length a) b" using assms(2) by (simp add: keeps_def)
  also have "\<dots> = a" using assms(1) by (simp add: keeps_def)
  finally show ?thesis using l by (simp add: keeps_def)
qed

lemma keeps_observe:
  assumes "wf_state h st" "keeps h h'"
  shows "observe h' st = observe h st"
proof -
  obtain content where c: "observe_inventory h st = Some content"
    using assms(1) by (auto simp: wf_state_def)
  obtain names where n: "observe_expanded h st = Some (SetObj names)"
    using assms(1) by (auto simp: wf_state_def split: option.splits object.splits)
  have 1: "observe_inventory h' st = Some content"
    using c keeps_stringify [OF assms(2)] by (simp add: observe_inventory_def)
  have 2: "observe_expanded h' st = Some (SetObj names)"
    using n keeps_lookup [OF assms(2)] by (simp add: observe_expanded_def)
  have 3: "observe_dragged h' st = observe_dragged h st"
  proof (cases "ref_draggedElement st")
    case None
    then show ?thesis by (simp add: observe_dragged_def getDraggedElement_ref_def)
  next
    case (Some a)
    then obtain e where "lookup h a = Some (ElementObj e)"
      using assms(1) by (auto simp: wf_state_def split: option.splits object.splits)
    then show ?thesis
      using keeps_lookup [OF assms(2)] Some by (simp add: observe_dragged_def getDraggedElement_ref_def)
  qed
  show ?thesis by (simp add: observe_def 1 2 3 c n)
qed

lemma addresses_keeps:
  assumes "keeps h1 h2" "JSON_stringify_inventory h1 r = Some content"
  shows "addresses h2 r = addresses h1 r"
proof -
  obtain fs where fs: "lookup h1 r = Some (InventoryObj fs)" "those (map (read_entry h1) fs) = Some content"
    using assms(2) by (auto simp: JSON_stringify_inventory_def split: option.splits object.splits)
  have top: "lookup h2 r = Some (InventoryObj fs)" using assms(1) fs(1) by (rule keeps_lookup)
  have some: "\<And>entry. entry \<in> set fs \<Longrightarrow> read_entry h1 entry \<noteq> None"
    using fs(2) by (induction fs arbitrary: content) (auto split: option.splits)
  have "array_addresses h2 (snd entry) = array_addresses h1 (snd entry)" if e: "entry \<in> set fs" for entry
  proof -
    obtain rs where "lookup h1 (snd entry) = Some (ArrayObj rs)"
      using some [OF e]
      by (cases "lookup h1 (snd entry)") (auto simp: read_entry_def read_array_def split: object.splits)
    then show ?thesis
      using keeps_lookup [OF assms(1)] by (simp add: array_addresses_def)
  qed
  then show ?thesis by (simp add: addresses_def top fs(1) cong: map_cong)
qed

lemma mutation_unseen:
  assumes "wf_state h st" "keeps h h1" "length h \<le> b"
  shows "observe (h1[b := x]) st = observe h st"
  using keeps_observe [OF assms(1) keeps_update [OF assms(2,3)]] .

lemma getInventory_copy:
  assumes "wf_state h st"
  shows "\<exists>r h1. getInventory_ref h st = Some (r, h1)
           \<and> JSON_stringify_inventory h1 r = observe_inventory h st
           \<and> keeps h h1
           \<and> (\<forall>b \<in> set (addresses h1 r). length h \<le> b)"
proof -
  obtain content where c: "JSON_stringify_inventory h (ref_toolInventory st) = Some content"
    using assms by (auto simp: wf_state_def observe_inventory_def)
  obtain r h1 where p: "JSON_parse_inventory h content = (r, h1)"
    by (cases "JSON_parse_inventory h content")
  have "getInventory_ref h st = Some (r, h1)"
    by (simp add: getInventory_ref_def deepClone_ref_def c p)
  then show ?thesis
    using parse_stringify [OF p] c by (simp add: observe_inventory_def)
qed

lemma getExpandedStacks_copy:
  assumes "wf_state h st"
  shows "\<exists>r h1 names. getExpandedStacks_ref h st = Some (r, h1)
           \<and> observe_expanded h st = Some (SetObj names)
           \<and> lookup h1 r = Some (SetObj (new_Set names))
           \<and> keeps h h1
           \<and> (\<forall>b \<in> set (addresses h1 r). length h \<le> b)"
proof -
  obtain names where n: "lookup h (ref_expandedStacks st) = Some (SetObj names)"
    using assms by (auto simp: wf_state_def observe_expanded_def split: option.splits object.splits)
  have "getExpandedStacks_ref h st = Some (length h, h @ [SetObj (new_Set names)])"
    by (simp add: getExpandedStacks_ref_def new_Set_ref_def n)
  moreover have "lookup (h @ [SetObj (new_Set names)]) (length h) = Some (SetObj (new_Set names))"
    by (simp add: lookup_def)
  moreover have "addresses (h @ [SetObj (new_Set names)]) (length h) = [length h]"
    by (simp add: addresses_def lookup_def)
  ultimately show ?thesis using n by (simp add: observe_expanded_def)
qed

text \<open>
  Claim C8 (reads return deep copies), as amended. In a well-formed state,
  \<^verbatim>\<open>getInventory\<close> and \<^verbatim>\<open>getExpandedStacks\<close> return values made of new objects only,
  with the content of the state's inventory and set, and so are the inventory and the
  set of the object \<^verbatim>\<open>getState\<close> returns: overwriting any object of such a value
  leaves everything later reads observe unchanged. \<^verbatim>\<open>getDraggedElement\<close> returns the
  stored element reference itself, and \<^verbatim>\<open>getState\<close> passes the same reference on.
\<close>

theorem reads_return_copies:
  assumes "wf_state h st"
  shows "(\<exists>r h1. getInventory_ref h st = Some (r, h1)
            \<and> JSON_stringify_inventory h1 r = observe_inventory h st
            \<and> (\<forall>b \<in> set (addresses h1 r). \<forall>x. length h \<le> b \<and> observe (h1[b := x]) st = observe h st))
       \<and> (\<exists>r h1 names. getExpandedStacks_ref h st = Some (r, h1)
            \<and> observe_expanded h st = Some (SetObj names)
            \<and> lookup h1 r = Some (SetObj (new_Set names))
            \<and> (\<forall>b \<in> set (addresses h1 r). \<forall>x. length h \<le> b \<and> observe (h1[b := x]) st = observe h st))
       \<and> (\<exists>s h2. getState_ref h st = Some (s, h2)
            \<and> ref_draggedElement s = ref_draggedElement st
            \<and> (\<forall>b \<in> set (addresses h2 (ref_toolInventory s) @ addresses h2 (ref_expandedStacks s)).
                  \<forall>x. length h \<le> b \<and> observe (h2[b := x]) st = observe h st))
       \<and> getDraggedElement_ref h st = (ref_draggedElement st, h)"
proof (intro conjI)
  obtain r h1 where i: "getInventory_ref h st = Some (r, h1)"
      "JSON_stringify_inventory h1 r = observe_inventory h st" "keeps h h1"
      "\<forall>b \<in> set (addresses h1 r). length h \<le> b"
    using getInventory_copy [OF assms] by blast
  show "\<exists>r h1. getInventory_ref h st = Some (r, h1)
            \<and> JSON_stringify_inventory h1 r = observe_inventory h st
            \<and> (\<forall>b \<in> set (addresses h1 r). \<forall>x. length h \<le> b \<and> observe (h1[b := x]) st = observe h st)"
    using i mutation_unseen [OF assms i(3)] by blast
  obtain r' h1' names where e: "getExpandedStacks_ref h st = Some (r', h1')"
      "observe_expanded h st = Some (SetObj names)" "lookup h1' r' = Some (SetObj (new_Set names))"
      "keeps h h1'" "\<forall>b \<in> set (addresses h1' r'). length h \<le> b"
    using getExpandedStacks_copy [OF assms] by blast
  show "\<exists>r h1 names. getExpandedStacks_ref h st = Some (r, h1)
            \<and> observe_expanded h st = Some (SetObj names)
            \<and> lookup h1 r = Some (SetObj (new_Set names))
            \<and> (\<forall>b \<in> set (addresses h1 r). \<forall>x. length h \<le> b \<and> observe (h1[b := x]) st = observe h st)"
    using e mutation_unseen [OF assms e(4)] by blast
  obtain content where c: "observe_inventory h st = Some content"
    using assms by (auto simp: wf_state_def)
  define h2 where "h2 = h1 @ [SetObj (new_Set names)]"
  define s where "s = st\<lparr>ref_toolInventory := r, ref_expandedStacks := length h1\<rparr>"
  have n1: "lookup h1 (ref_expandedStacks st) = Some (SetObj names)"
    using keeps_lookup [OF i(3)] e(2) by (simp add: observe_expanded_def)
  have gs: "getState_ref h st = Some (s, h2)"
    using i(1) n1 by (simp add: getState_ref_def getInventory_ref_def new_Set_ref_def s_def h2_def)
  have k12: "keeps h1 h2" by (simp add: h2_def)
  have k: "keeps h h2" using i(3) k12 by (rule keeps_trans)
  have a1: "addresses h2 r = addresses h1 r"
    using k12 i(2) c by (intro addresses_keeps [where content = content]) simp_all
  have a2: "addresses h2 (length h1) = [length h1]"
    by (simp add: addresses_def lookup_def h2_def)
  have l: "length h \<le> length h1" using i(3) by (simp add: keeps_def)
  have fresh: "\<forall>b \<in> set (addresses h2 (ref_toolInventory s) @ addresses h2 (ref_expandedStacks s)). length h \<le> b"
    using i(4) l by (simp add: s_def a1 a2)
  show "\<exists>s h2. getState_ref h st = Some (s, h2)
            \<and> ref_draggedElement s = ref_draggedElement st
            \<and> (\<forall>b \<in> set (addresses h2 (ref_toolInventory s) @ addresses h2 (ref_expandedStacks s)).
                  \<forall>x. length h \<le> b \<and> observe (h2[b := x]) st = observe h st)"
    using gs fresh mutation_unseen [OF assms k] by (intro exI [of _ s] exI [of _ h2]) (simp add: s_def)
  show "getDraggedElement_ref h st = (ref_draggedElement st, h)"
    by (simp add: getDraggedElement_ref_def)
qed

theorem reads_return_copies_witness:
  "wf_state example_heap example_refs
   \<and> (\<exists>r h1. getInventory_ref example_heap example_refs = Some (r, h1)
          \<and> JSON_stringify_inventory h1 r = observe_inventory example_heap example_refs
          \<and> (\<forall>b \<in> set (addresses h1 r). \<forall>x. length example_heap \<le> b
                \<and> observe (h1[b := x]) example_refs = observe example_heap example_refs))
   \<and> getDraggedElement_ref example_heap example_refs = (Some 5, example_heap)"
proof -
  have wf: "wf_state example_heap example_refs" by code_simp
  have d: "ref_draggedElement example_refs = Some 5" by (simp add: example_refs_def)
  show ?thesis
    using reads_return_copies [OF wf] wf unfolding d by blast
qed

text \<open>
  Claim C8 as stated fails for \<^verbatim>\<open>getDraggedElement\<close>: the caller gets the element the
  state holds, and marking that element as checked out changes what the next
  \<^verbatim>\<open>getDraggedElement\<close> leads to. The drop handler relies on it: it marks the very
  element it got from \<^verbatim>\<open>getDraggedElement\<close>.
\<close>

theorem dragged_element_is_shared:
  "fst (getDraggedElement_ref example_heap example_refs) = Some 5
   \<and> observe_dragged
        ((snd (getDraggedElement_ref example_heap example_refs))
           [5 := ElementObj (mark_checked_out ''08:00 AM'' ''2''
                  (createToolElement (mk_tool ''Claw Hammer'' 8 ''hammer'') ''1''))])
        example_refs
       \<noteq> observe_dragged example_heap example_refs"
  by code_simp

end
